theory Spec2Isabelle
  imports Main
begin

section \<open>Values, rows and the remote service\<close>

text \<open>
  The values that reach the client are decoded JSON scalars. \<open>JUndefined\<close> is what a
  property read gives when the key is absent. Numbers are integers here: the identifiers
  and counters the orchestrator looks at are integral, and JSON has no NaN.
\<close>

datatype jsval = JUndefined | JNull | JBool bool | JNum int | JStr string

text \<open>JavaScript truthiness, as used by \<^verbatim>\<open>if (x)\<close>, \<^verbatim>\<open>!x\<close> and \<^verbatim>\<open>x && y\<close>.\<close>

fun truthy :: "jsval \<Rightarrow> bool" where
  "truthy JUndefined = False"
| "truthy JNull = False"
| "truthy (JBool b) = b"
| "truthy (JNum n) = (n \<noteq> 0)"
| "truthy (JStr s) = (s \<noteq> [])"

text \<open>A row is an object: its keys in order, each with a scalar value.\<close>

type_synonym row = "(string \<times> jsval) list"

text \<open>The property read \<^verbatim>\<open>row.name\<close>.\<close>

definition get_prop :: "row \<Rightarrow> string \<Rightarrow> jsval" where
  "get_prop r name = (case map_of r name of None \<Rightarrow> JUndefined | Some v \<Rightarrow> v)"

text \<open>
  \<^verbatim>\<open>response.data\<close>, a decoded JSON object. The three fields are the ones the client reads;
  a field the service left out is \<open>JUndefined\<close>, and \<open>data_rows = None\<close> stands for a payload
  without a \<^verbatim>\<open>rows\<close> array.
\<close>

record body =
  data_jobId :: jsval
  data_status :: jsval
  data_rows :: "row list option"

text \<open>
  What one axios call gives: a 2xx response with its payload, or a rejection. A rejection
  carries \<^verbatim>\<open>error.response?.status\<close>: \<open>Some code\<close> for an HTTP error, \<open>None\<close> for a
  network error that has no response.
\<close>

datatype outcome = Resp body | Fail "nat option"

record category =
  activity :: string
  movement :: string

record export_data = category +
  startTime :: int
  endTime :: "int option"
  dateMode :: string

datatype request =
    PostExport jsval jsval export_data
  | GetJob jsval jsval jsval
  | GetResults jsval jsval jsval int int

text \<open>The line \<^verbatim>\<open>handleError\<close> prints with \<^verbatim>\<open>console.error\<close>.\<close>

datatype console_line =
    Text string
  | ErrorStatus nat
  | ErrorMessage

datatype event =
    Http request outcome
  | Sleep int
  | Console console_line
  | WriteCsv "row list" jsval jsval

datatype csv_line = HeaderLine "string list" | DataLine "jsval list"

datatype error =
    AxiosError "nat option"
  | JobTerminal jsval
  | UnexpectedStatus jsval
  | ExportFailed
  | TypeError
  | MissingConfig
  | LibraryError
  | FolderFailed
  | StringifyFailed

text \<open>
  The world the program runs in. \<open>transport\<close> is the remote service seen from the client:
  the outcome of the n-th axios call made so far, for every n, so that a service that
  answers \<^verbatim>\<open>RUNNING\<close> forever is one of the worlds. \<open>trace\<close> records the effects in the
  order they happen: every axios call with its outcome, every awaited timer, every line
  printed by \<^verbatim>\<open>handleError\<close>, every call of \<^verbatim>\<open>writeCsvFile\<close>. \<open>dirs\<close> and \<open>files\<close> are
  the folders and files that exist, by the path the program names them with (paths are
  compared as strings: \<^verbatim>\<open>.\<close> and \<^verbatim>\<open>..\<close> are not resolved). \<open>fault\<close> says of the n-th
  call into \<^verbatim>\<open>fs\<close> or csv-stringify made so far whether it throws for a reason that
  the model does not compute: permissions, a full disk, a name the system refuses, a
  record the library rejects. Other console output is not modelled.
\<close>

record world =
  transport :: "nat \<Rightarrow> outcome"
  cursor :: nat
  trace :: "event list"
  dirs :: "string set"
  files :: "string \<rightharpoonup> csv_line list"
  fault :: "nat \<Rightarrow> bool"
  lib_calls :: nat

text \<open>
  A service that plays a finite script and is unreachable afterwards, and the world that
  starts with it: nothing on the disk yet, and no call into a library will throw for a
  reason of its own.
\<close>

definition scripted :: "outcome list \<Rightarrow> nat \<Rightarrow> outcome" where
  "scripted xs n = (if n < length xs then xs ! n else Fail None)"

definition init_world :: "(nat \<Rightarrow> outcome) \<Rightarrow> world" where
  "init_world t = \<lparr>transport = t, cursor = 0, trace = [], dirs = {}, files = Map.empty,
                    fault = (\<lambda>n. False), lib_calls = 0\<rparr>"

definition emit :: "event \<Rightarrow> world \<Rightarrow> world" where
  "emit e w = w\<lparr>trace := trace w @ [e]\<rparr>"

text \<open>One \<^verbatim>\<open>await axios.get/post(...)\<close>.\<close>

definition axios :: "request \<Rightarrow> world \<Rightarrow> outcome \<times> world" where
  "axios req w =
     (let out = transport w (cursor w)
      in (out, emit (Http req out) (w\<lparr>cursor := Suc (cursor w)\<rparr>)))"

text \<open>\<^verbatim>\<open>await new Promise(resolve => setTimeout(resolve, ms))\<close>.\<close>

definition delay :: "int \<Rightarrow> world \<Rightarrow> world" where
  "delay ms w = emit (Sleep ms) w"

section \<open>The API client\<close>

fun handleError :: "nat option \<Rightarrow> console_line" where
  "handleError (Some status) =
     (if status = 400 then Text ''Bad Request: Please check the job ID or request parameters.''
      else if status = 401 then Text ''Unauthorized: Check your authorization token.''
      else if status = 403 then Text ''Forbidden: You do not have access to this resource.''
      else if status = 404 then Text ''Not Found: The specified job ID does not exist or has no results.''
      else if status = 429 then Text ''Too Many Requests: You are being rate limited. Try again later.''
      else if status = 500 then Text ''Internal Server Error: Something went wrong on the server.''
      else ErrorStatus status)"
| "handleError None = ErrorMessage"

text \<open>
  \<^verbatim>\<open>makeRequest\<close>: the closure that \<^verbatim>\<open>createExportJob\<close>, \<^verbatim>\<open>getJobStatus\<close> and
  \<^verbatim>\<open>getJobResults\<close> each define, with the same text but for the axios call and the
  field of the payload that is returned. \<open>retryCount\<close> is the closure's counter, passed
  along the recursive retry.
\<close>

function makeRequest :: "request \<Rightarrow> int \<Rightarrow> int \<Rightarrow> nat \<Rightarrow> world \<Rightarrow> (error + body) \<times> world" where
  "makeRequest req maxRetries retryDelay retryCount w =
     (case axios req w of
        (Resp b, w1) \<Rightarrow> (Inr b, w1)
      | (Fail st, w1) \<Rightarrow>
          if st = Some 504 \<and> int retryCount < maxRetries
          then (let retryCount' = Suc retryCount;
                    backoffDelay = retryDelay * 2 ^ (retryCount' - 1)
                in makeRequest req maxRetries retryDelay retryCount' (delay backoffDelay w1))
          else (Inl (AxiosError st), emit (Console (handleError st)) w1))"
  by pat_completeness auto
termination
  by (relation "measure (\<lambda>(req, maxRetries, retryDelay, retryCount, w). nat (maxRetries - int retryCount))") auto

declare makeRequest.simps [simp del]

definition createExportJob ::
  "jsval \<Rightarrow> jsval \<Rightarrow> export_data \<Rightarrow> int \<Rightarrow> int \<Rightarrow> world \<Rightarrow> (error + jsval) \<times> world" where
  "createExportJob apiKey dataURL d maxRetries retryDelay w =
     (case makeRequest (PostExport apiKey dataURL d) maxRetries retryDelay 0 w of
        (Inl e, w') \<Rightarrow> (Inl e, w')
      | (Inr b, w') \<Rightarrow> (Inr (data_jobId b), w'))"

definition getJobStatus ::
  "jsval \<Rightarrow> jsval \<Rightarrow> jsval \<Rightarrow> int \<Rightarrow> int \<Rightarrow> world \<Rightarrow> (error + jsval) \<times> world" where
  "getJobStatus apiKey dataURL job maxRetries retryDelay w =
     (if \<not> truthy job then (Inr JUndefined, w)
      else case makeRequest (GetJob apiKey dataURL job) maxRetries retryDelay 0 w of
             (Inl e, w') \<Rightarrow> (Inl e, w')
           | (Inr b, w') \<Rightarrow> (Inr (data_status b), w'))"

text \<open>
  \<^verbatim>\<open>getJobResults\<close> returns the payload, or \<^verbatim>\<open>undefined\<close> (here \<open>None\<close>) when it is
  called without a job id.
\<close>

definition getJobResults ::
  "jsval \<Rightarrow> jsval \<Rightarrow> jsval \<Rightarrow> int \<Rightarrow> int \<Rightarrow> int \<Rightarrow> int \<Rightarrow> world \<Rightarrow> (error + body option) \<times> world" where
  "getJobResults apiKey dataURL job offset limit maxRetries retryDelay w =
     (if \<not> truthy job then (Inr None, w)
      else case makeRequest (GetResults apiKey dataURL job offset limit) maxRetries retryDelay 0 w of
             (Inl e, w') \<Rightarrow> (Inl e, w')
           | (Inr b, w') \<Rightarrow> (Inr (Some b), w'))"

section \<open>The CSV writer\<close>

text \<open>
  What a template literal \<^verbatim>\<open>`${v}`\<close> puts into a string. A number below \<open>10 ^ 21\<close> in
  magnitude is printed with all its digits. From there on JavaScript prints the exponent
  form, which is not computed here: \<open>exponent_form\<close> is some string for each number, and
  nothing more is known of it.
\<close>

fun show_nat :: "nat \<Rightarrow> string" where
  "show_nat n =
     (if n < 10 then [''0123456789'' ! n]
      else show_nat (n div 10) @ [''0123456789'' ! (n mod 10)])"

declare show_nat.simps [simp del]

definition exponent_form :: "int \<Rightarrow> string" where
  "exponent_form n = undefined n"

fun js_to_string :: "jsval \<Rightarrow> string" where
  "js_to_string JUndefined = ''undefined''"
| "js_to_string JNull = ''null''"
| "js_to_string (JBool b) = (if b then ''true'' else ''false'')"
| "js_to_string (JNum n) =
     (if \<bar>n\<bar> < 10 ^ 21
      then (if n < 0 then CHR ''-'' # show_nat (nat (- n)) else show_nat (nat n))
      else exponent_form n)"
| "js_to_string (JStr s) = s"

text \<open>
  A call into \<^verbatim>\<open>fs\<close> or csv-stringify: the world says whether it throws for a reason of
  its own (\<open>True\<close>), and counts the call.
\<close>

definition lib_call :: "world \<Rightarrow> bool \<times> world" where
  "lib_call w = (fault w (lib_calls w), w\<lparr>lib_calls := Suc (lib_calls w)\<rparr>)"

text \<open>
  \<^verbatim>\<open>stringify(records, { header, columns })\<close> of the csv-stringify library, by its
  documentation: with \<^verbatim>\<open>header: true\<close> the first line of the output holds the column
  names, and one line follows for each record, with the record's value in each column.
\<close>

definition stringify :: "row list \<Rightarrow> bool \<Rightarrow> string list \<Rightarrow> csv_line list" where
  "stringify records header columns =
     (if header then [HeaderLine columns] else []) @
     map (\<lambda>r. DataLine (map (get_prop r) columns)) records"

definition stringify_call ::
  "row list \<Rightarrow> bool \<Rightarrow> string list \<Rightarrow> world \<Rightarrow> (error + csv_line list) \<times> world" where
  "stringify_call records header columns w =
     (case lib_call w of
        (True, w1) \<Rightarrow> (Inl LibraryError, w1)
      | (False, w1) \<Rightarrow> (Inr (stringify records header columns), w1))"

text \<open>
  The folders that \<^verbatim>\<open>fs.mkdirSync(path, { recursive: true })\<close> makes sure of: the
  folder itself and those above it, that is \<open>path\<close> and what stands before each of its
  slashes.
\<close>

definition folder_chain :: "string \<Rightarrow> string list" where
  "folder_chain p = p # map (\<lambda>i. take i p) (filter (\<lambda>i. p ! i = CHR ''/'') [0..<length p])"

definition mkdirSync :: "string \<Rightarrow> world \<Rightarrow> (error + unit) \<times> world" where
  "mkdirSync p w =
     (case lib_call w of
        (True, w1) \<Rightarrow> (Inl LibraryError, w1)
      | (False, w1) \<Rightarrow> (Inr (), w1\<lparr>dirs := dirs w1 \<union> set (folder_chain p)\<rparr>))"

text \<open>The folder a file lies in: its path up to the last slash.\<close>

definition parent_dir :: "string \<Rightarrow> string" where
  "parent_dir p = rev (tl (dropWhile (\<lambda>c. c \<noteq> CHR ''/'') (rev p)))"

text \<open>
  \<^verbatim>\<open>fs.appendFileSync\<close>: the file is created when it does not exist; the call throws
  (ENOENT) when the folder the file lies in does not exist.
\<close>

definition appendFileSync :: "string \<Rightarrow> csv_line list \<Rightarrow> world \<Rightarrow> (error + unit) \<times> world" where
  "appendFileSync filePath output w =
     (case lib_call w of
        (True, w1) \<Rightarrow> (Inl LibraryError, w1)
      | (False, w1) \<Rightarrow>
          if parent_dir filePath \<notin> dirs w1 then (Inl LibraryError, w1)
          else (Inr (), w1\<lparr>files := (files w1)(filePath \<mapsto>
                  (case files w1 filePath of None \<Rightarrow> output | Some old \<Rightarrow> old @ output))\<rparr>))"

text \<open>
  \<^verbatim>\<open>writeCsvFile\<close>, with its three \<^verbatim>\<open>try\<close> blocks. A throw while the folder is made
  becomes the error about the folder. \<^verbatim>\<open>Object.keys(rows[0])\<close> stands outside the
  blocks and throws on an empty array. A throw of \<^verbatim>\<open>stringify\<close> becomes the error about
  stringifying, and so does a throw of \<^verbatim>\<open>appendFileSync\<close>: the error about writing that
  the inner \<^verbatim>\<open>catch\<close> throws is caught by the outer one.
\<close>

definition writeCsvFile :: "row list \<Rightarrow> jsval \<Rightarrow> jsval \<Rightarrow> world \<Rightarrow> (error + unit) \<times> world" where
  "writeCsvFile rows aid sid w0 =
     (let w = emit (WriteCsv rows aid sid) w0;
          folderPath = ''./data/'' @ js_to_string aid
      in case (if folderPath \<notin> dirs w then mkdirSync folderPath w else (Inr (), w)) of
           (Inl e, w1) \<Rightarrow> (Inl FolderFailed, w1)
         | (Inr u, w1) \<Rightarrow>
             (let filePath = folderPath @ ''/session_'' @ js_to_string sid @ ''.csv''
              in case rows of
                   [] \<Rightarrow> (Inl TypeError, w1)
                 | r # _ \<Rightarrow>
                     (let headers = map fst r
                      in case stringify_call rows True headers w1 of
                           (Inl e, w2) \<Rightarrow> (Inl StringifyFailed, w2)
                         | (Inr output, w2) \<Rightarrow>
                             (case appendFileSync filePath output w2 of
                                (Inl e, w3) \<Rightarrow> (Inl StringifyFailed, w3)
                              | (Inr u', w3) \<Rightarrow> (Inr (), w3)))))"

section \<open>The orchestrator\<close>

text \<open>
  \<^verbatim>\<open>checkJobStatus\<close>: a do-while loop with no bound on the number of polls. The first
  argument is the number of iterations the model may run; \<open>None\<close> says that they did not
  suffice. A path that left the loop through its condition would return \<^verbatim>\<open>undefined\<close>.
\<close>

fun checkJobStatus :: "nat \<Rightarrow> jsval \<Rightarrow> jsval \<Rightarrow> jsval \<Rightarrow> world \<Rightarrow> ((error + jsval) \<times> world) option" where
  "checkJobStatus 0 apiKey dataURL job w = None"
| "checkJobStatus (Suc n) apiKey dataURL job w =
     (case getJobStatus apiKey dataURL job 3 2000 w of
        (Inl e, w1) \<Rightarrow> Some (Inl e, w1)
      | (Inr status, w1) \<Rightarrow>
          if status = JStr ''COMPLETED'' then Some (Inr (JBool True), w1)
          else if status = JStr ''FAILED'' \<or> status = JStr ''CANCELED''
          then Some (Inl (JobTerminal status), w1)
          else if status = JStr ''RUNNING''
          then (let w2 = delay 5000 w1
                in if status = JStr ''RUNNING'' then checkJobStatus n apiKey dataURL job w2
                   else Some (Inr JUndefined, w2))
          else Some (Inl (UnexpectedStatus status), w1))"

text \<open>The partitioner's variables.\<close>

record pstate =
  sessionId :: jsval
  athleteId :: jsval
  rowsToWrite :: "row list"

text \<open>
  The block \<^verbatim>\<open>if (rowsToWrite.length > 0) { writeCsvFile(...); rowsToWrite = []; }\<close>,
  which the loop body holds twice.
\<close>

definition flushRows :: "pstate \<Rightarrow> world \<Rightarrow> (error + pstate) \<times> world" where
  "flushRows st w =
     (if length (rowsToWrite st) > 0
      then (case writeCsvFile (rowsToWrite st) (athleteId st) (sessionId st) w of
              (Inl e, w') \<Rightarrow> (Inl e, w')
            | (Inr u, w') \<Rightarrow> (Inr (st\<lparr>rowsToWrite := []\<rparr>), w'))
      else (Inr st, w))"

text \<open>The body of \<^verbatim>\<open>for (const row of result.rows)\<close>.\<close>

definition processRow :: "row \<Rightarrow> pstate \<Rightarrow> world \<Rightarrow> (error + pstate) \<times> world" where
  "processRow r st w =
     (let currentSessionId = get_prop r ''sessionid'';
          currentAthleteId = get_prop r ''athleteid''
      in case (if truthy (athleteId st) \<and> athleteId st \<noteq> currentAthleteId
               then flushRows st w else (Inr st, w)) of
           (Inl e, w1) \<Rightarrow> (Inl e, w1)
         | (Inr st1, w1) \<Rightarrow>
             (case (if truthy (sessionId st1) \<and> sessionId st1 \<noteq> currentSessionId
                    then flushRows st1 w1 else (Inr st1, w1)) of
                (Inl e, w2) \<Rightarrow> (Inl e, w2)
              | (Inr st2, w2) \<Rightarrow>
                  (Inr (st2\<lparr>rowsToWrite := rowsToWrite st2 @ [r],
                            athleteId := currentAthleteId,
                            sessionId := currentSessionId\<rparr>), w2)))"

fun processRows :: "row list \<Rightarrow> pstate \<Rightarrow> world \<Rightarrow> (error + pstate) \<times> world" where
  "processRows [] st w = (Inr st, w)"
| "processRows (r # rs) st w =
     (case processRow r st w of
        (Inl e, w1) \<Rightarrow> (Inl e, w1)
      | (Inr st1, w1) \<Rightarrow> processRows rs st1 w1)"

text \<open>
  The \<^verbatim>\<open>while (true)\<close> loop of \<^verbatim>\<open>handleDataExport\<close>, bounded like the poller. It ends
  with the partitioner's variables when a page is missing or empty, and with the error
  when something inside the \<^verbatim>\<open>try\<close> throws.
\<close>

fun exportLoop ::
  "nat \<Rightarrow> jsval \<Rightarrow> jsval \<Rightarrow> jsval \<Rightarrow> int \<Rightarrow> int \<Rightarrow> pstate \<Rightarrow> world \<Rightarrow> ((error + pstate) \<times> world) option" where
  "exportLoop 0 apiKey dataURL job offset limit st w = None"
| "exportLoop (Suc n) apiKey dataURL job offset limit st w =
     (case getJobResults apiKey dataURL job offset limit 3 2000 w of
        (Inl e, w1) \<Rightarrow> Some (Inl e, w1)
      | (Inr None, w1) \<Rightarrow> Some (Inr st, w1)
      | (Inr (Some result), w1) \<Rightarrow>
          (case data_rows result of
             None \<Rightarrow> Some (Inl TypeError, w1)
           | Some rs \<Rightarrow>
               if length rs = 0 then Some (Inr st, w1)
               else (case processRows rs st w1 of
                       (Inl e, w2) \<Rightarrow> Some (Inl e, w2)
                     | (Inr st1, w2) \<Rightarrow>
                         exportLoop n apiKey dataURL job (offset + int (length rs)) limit st1
                           (delay 1000 w2))))"

definition handleDataExport ::
  "nat \<Rightarrow> jsval \<Rightarrow> jsval \<Rightarrow> jsval \<Rightarrow> int \<Rightarrow> int \<Rightarrow> world \<Rightarrow> ((error + unit) \<times> world) option" where
  "handleDataExport fuel apiKey dataURL job offset limit w =
     (case exportLoop fuel apiKey dataURL job offset limit
             \<lparr>sessionId = JNull, athleteId = JNull, rowsToWrite = []\<rparr> w of
        None \<Rightarrow> None
      | Some (Inl e, w1) \<Rightarrow> Some (Inl ExportFailed, w1)
      | Some (Inr st, w1) \<Rightarrow>
          if length (rowsToWrite st) > 0
          then (case writeCsvFile (rowsToWrite st) (athleteId st) (sessionId st) w1 of
                  (Inl e, w2) \<Rightarrow> Some (Inl ExportFailed, w2)
                | (Inr u, w2) \<Rightarrow> Some (Inr (), w2))
          else Some (Inr (), w1))"

text \<open>
  The body of the \<^verbatim>\<open>for (const category of categories)\<close> loop of
  \<^verbatim>\<open>handleExportProcess\<close>: the \<^verbatim>\<open>try\<close> block, whose \<^verbatim>\<open>catch\<close> rethrows. The module
  imports \<^verbatim>\<open>getJobResult\<close>; the client exports \<^verbatim>\<open>getJobResults\<close>, which is what runs here.
\<close>

definition processCategory ::
  "nat \<Rightarrow> jsval \<Rightarrow> jsval \<Rightarrow> category \<Rightarrow> world \<Rightarrow> ((error + unit) \<times> world) option" where
  "processCategory fuel apiKey dataURL c w =
     (let d = \<lparr>activity = activity c, movement = movement c, startTime = 1604807785,
                endTime = None, dateMode = ''last_modified''\<rparr>
      in case createExportJob apiKey dataURL d 3 2000 w of
           (Inl e, w1) \<Rightarrow> Some (Inl e, w1)
         | (Inr job, w1) \<Rightarrow>
             if truthy job
             then (case checkJobStatus fuel apiKey dataURL job w1 of
                     None \<Rightarrow> None
                   | Some (Inl e, w2) \<Rightarrow> Some (Inl e, w2)
                   | Some (Inr status, w2) \<Rightarrow>
                       if truthy status then handleDataExport fuel apiKey dataURL job 0 500 w2
                       else Some (Inr (), w2))
             else Some (Inr (), w1))"

fun processCategories ::
  "nat \<Rightarrow> jsval \<Rightarrow> jsval \<Rightarrow> category list \<Rightarrow> world \<Rightarrow> ((error + unit) \<times> world) option" where
  "processCategories fuel apiKey dataURL [] w = Some (Inr (), w)"
| "processCategories fuel apiKey dataURL (c # cs) w =
     (case processCategory fuel apiKey dataURL c w of
        None \<Rightarrow> None
      | Some (Inl e, w1) \<Rightarrow> Some (Inl e, w1)
      | Some (Inr u, w1) \<Rightarrow> processCategories fuel apiKey dataURL cs w1)"

definition categories :: "category list" where
  "categories =
     [\<lparr>activity = ''baseball'', movement = ''hitting''\<rparr>,
      \<lparr>activity = ''baseball'', movement = ''pitching''\<rparr>]"

text \<open>
  \<^verbatim>\<open>handleExportProcess\<close>, given the two values it reads from \<^verbatim>\<open>env.json\<close>.
\<close>

definition handleExportProcess ::
  "nat \<Rightarrow> jsval \<Rightarrow> jsval \<Rightarrow> world \<Rightarrow> ((error + unit) \<times> world) option" where
  "handleExportProcess fuel apiKey dataURL w =
     (if \<not> truthy apiKey \<or> \<not> truthy dataURL then Some (Inl MissingConfig, w)
      else processCategories fuel apiKey dataURL categories w)"

section \<open>Observations on traces\<close>

text \<open>The events a run has added to the trace of the world it started in.\<close>

definition events_since :: "world \<Rightarrow> world \<Rightarrow> event list" where
  "events_since w w' = drop (length (trace w)) (trace w')"

text \<open>The timers awaited, the requests sent and the sink calls made, each in order.\<close>

fun sleeps :: "event list \<Rightarrow> int list" where
  "sleeps [] = []"
| "sleeps (Sleep ms # es) = ms # sleeps es"
| "sleeps (e # es) = sleeps es"

fun requests :: "event list \<Rightarrow> request list" where
  "requests [] = []"
| "requests (Http req out # es) = req # requests es"
| "requests (e # es) = requests es"

fun writes :: "event list \<Rightarrow> (row list \<times> jsval \<times> jsval) list" where
  "writes [] = []"
| "writes (WriteCsv rows aid sid # es) = (rows, aid, sid) # writes es"
| "writes (e # es) = writes es"

text \<open>
  The delays of the first \<open>n\<close> retries: retry number \<open>a\<close> (counted from 1) waits
  \<open>retryDelay * 2 ^ (a - 1)\<close> milliseconds.
\<close>

definition backoff_schedule :: "int \<Rightarrow> nat \<Rightarrow> int list" where
  "backoff_schedule retryDelay n = map (\<lambda>k. retryDelay * 2 ^ k) [0..<n]"

text \<open>
  The events of one client operation stay within the retry budget: some number of
  retries, not more than \<open>maxRetries\<close>, each after its delay of the schedule, and one
  request more than there are retries, all of them the same request.
\<close>

definition bounded_backoff :: "int \<Rightarrow> int \<Rightarrow> request \<Rightarrow> event list \<Rightarrow> bool" where
  "bounded_backoff maxRetries retryDelay req ev =
     (let n = length (sleeps ev)
      in int n \<le> max maxRetries 0
         \<and> sleeps ev = backoff_schedule retryDelay n
         \<and> requests ev = replicate (Suc n) req)"

text \<open>
  The retries as the claim words them. \<open>leading_504 t c budget\<close> counts the answers 504
  that the service gives from request \<open>c\<close> on, one after the other, up to \<open>budget\<close> of
  them. \<open>retried_from\<close> is a request that is sent, counted and delayed once for each of
  these answers and sent once more: with the counter at \<open>retryCount\<close>, the retries have the
  numbers \<open>retryCount + 1\<close>, ..., and retry number \<open>a\<close> waits \<open>retryDelay * 2 ^ (a - 1)\<close>;
  the answer to the last sending is returned, or classified and thrown.
\<close>

fun leading_504 :: "(nat \<Rightarrow> outcome) \<Rightarrow> nat \<Rightarrow> nat \<Rightarrow> nat" where
  "leading_504 t c 0 = 0"
| "leading_504 t c (Suc budget) =
     (if t c = Fail (Some 504) then Suc (leading_504 t (Suc c) budget) else 0)"

definition retry_events :: "request \<Rightarrow> int \<Rightarrow> nat \<Rightarrow> nat \<Rightarrow> event list" where
  "retry_events req retryDelay retryCount n =
     concat (map (\<lambda>a. [Http req (Fail (Some 504)), Sleep (retryDelay * 2 ^ (a - 1))])
                 [Suc retryCount..<Suc retryCount + n])"

definition retried_from :: "request \<Rightarrow> int \<Rightarrow> int \<Rightarrow> nat \<Rightarrow> world \<Rightarrow> (error + body) \<times> world" where
  "retried_from req maxRetries retryDelay retryCount w =
     (let n = leading_504 (transport w) (cursor w) (nat (maxRetries - int retryCount));
          out = transport w (cursor w + n);
          w' = w\<lparr>cursor := cursor w + n + 1,
                 trace := trace w @ retry_events req retryDelay retryCount n @ [Http req out]\<rparr>
      in case out of
           Resp b \<Rightarrow> (Inr b, w')
         | Fail st \<Rightarrow> (Inl (AxiosError st), emit (Console (handleError st)) w'))"

section \<open>Scenarios\<close>

definition completed_body :: body where
  "completed_body = \<lparr>data_jobId = JUndefined, data_status = JStr ''COMPLETED'', data_rows = None\<rparr>"

text \<open>The service rejects the first request with 401.\<close>

definition unauthorized_world :: world where
  "unauthorized_world = init_world (scripted [Fail (Some 401)])"

text \<open>The service answers 504 twice and then reports the job as completed.\<close>

definition timeout_twice_world :: world where
  "timeout_twice_world =
     init_world (scripted [Fail (Some 504), Fail (Some 504), Resp completed_body])"

definition running_body :: body where
  "running_body = \<lparr>data_jobId = JUndefined, data_status = JStr ''RUNNING'', data_rows = None\<rparr>"

definition failed_body :: body where
  "failed_body = \<lparr>data_jobId = JUndefined, data_status = JStr ''FAILED'', data_rows = None\<rparr>"

definition created_body :: body where
  "created_body = \<lparr>data_jobId = JStr ''job-1'', data_status = JUndefined, data_rows = None\<rparr>"

definition page :: "row list \<Rightarrow> body" where
  "page rs = \<lparr>data_jobId = JStr ''job-1'', data_status = JUndefined, data_rows = Some rs\<rparr>"

text \<open>The job is still running at the first poll and has failed at the second.\<close>

definition running_then_failed_world :: world where
  "running_then_failed_world = init_world (scripted [Resp running_body, Resp failed_body])"

text \<open>The job is created and is complete at the first poll.\<close>

definition created_completed_world :: world where
  "created_completed_world = init_world (scripted [Resp created_body, Resp completed_body])"

definition hitting :: category where
  "hitting = \<lparr>activity = ''baseball'', movement = ''hitting''\<rparr>"

section \<open>The partitioner, seen from the sink\<close>

text \<open>The two tests of the loop body, taken together.\<close>

definition key_changed :: "pstate \<Rightarrow> row \<Rightarrow> bool" where
  "key_changed st r =
     ((truthy (athleteId st) \<and> athleteId st \<noteq> get_prop r ''athleteid'')
      \<or> (truthy (sessionId st) \<and> sessionId st \<noteq> get_prop r ''sessionid''))"

text \<open>
  The sink calls that the loop over the rows makes, and the variables it ends with, as a
  function of the rows alone. Lemma \<open>processRows_partition\<close> shows that this is what
  \<open>processRows\<close> does when its writes succeed.
\<close>

fun partition_rows :: "row list \<Rightarrow> pstate \<Rightarrow> (row list \<times> jsval \<times> jsval) list \<times> pstate" where
  "partition_rows [] st = ([], st)"
| "partition_rows (r # rs) st =
     (let flush = (key_changed st r \<and> rowsToWrite st \<noteq> []);
          st1 = \<lparr>sessionId = get_prop r ''sessionid'', athleteId = get_prop r ''athleteid'',
                 rowsToWrite = (if flush then [] else rowsToWrite st) @ [r]\<rparr>;
          rest = partition_rows rs st1
      in ((if flush then [(rowsToWrite st, athleteId st, sessionId st)] else []) @ fst rest,
          snd rest))"

definition write_events :: "(row list \<times> jsval \<times> jsval) list \<Rightarrow> event list" where
  "write_events ws = map (\<lambda>(rows, aid, sid). WriteCsv rows aid sid) ws"

definition init_pstate :: pstate where
  "init_pstate = \<lparr>sessionId = JNull, athleteId = JNull, rowsToWrite = []\<rparr>"

text \<open>
  All sink calls of an export whose pages, put end to end, are \<open>rs\<close>: those of the loop,
  and the one after it for the rows still held.
\<close>

definition sink_calls :: "row list \<Rightarrow> (row list \<times> jsval \<times> jsval) list" where
  "sink_calls rs =
     (let r = partition_rows rs init_pstate
      in fst r @ (if rowsToWrite (snd r) \<noteq> []
                  then [(rowsToWrite (snd r), athleteId (snd r), sessionId (snd r))] else []))"

text \<open>The partition key of a row, and the maximal runs of consecutive rows with one key.\<close>

definition row_key :: "row \<Rightarrow> jsval \<times> jsval" where
  "row_key r = (get_prop r ''athleteid'', get_prop r ''sessionid'')"

fun runs :: "row list \<Rightarrow> row list list" where
  "runs [] = []"
| "runs (r # rs) =
     (case runs rs of
        [] \<Rightarrow> [[r]]
      | g # gs \<Rightarrow> if row_key r = row_key (hd g) then (r # g) # gs else [r] # g # gs)"

definition truthy_keys :: "row list \<Rightarrow> bool" where
  "truthy_keys rs =
     list_all (\<lambda>r. truthy (get_prop r ''athleteid'') \<and> truthy (get_prop r ''sessionid'')) rs"

text \<open>
  No call into \<^verbatim>\<open>fs\<close> or csv-stringify throws for a reason of its own. What is left
  is the throw of \<^verbatim>\<open>appendFileSync\<close> for a folder that does not exist.
\<close>

definition no_faults :: "world \<Rightarrow> bool" where
  "no_faults w = (\<forall>n. \<not> fault w n)"

text \<open>
  The value puts no slash into a file name, so that the file \<^verbatim>\<open>session_<id>.csv\<close> lies in
  the folder of the athlete, which \<^verbatim>\<open>writeCsvFile\<close> has made sure of.
\<close>

definition slash_free :: "jsval \<Rightarrow> bool" where
  "slash_free v = (CHR ''/'' \<notin> set (js_to_string v))"

definition plain_sessions :: "row list \<Rightarrow> bool" where
  "plain_sessions rs = list_all (\<lambda>r. slash_free (get_prop r ''sessionid'')) rs"

text \<open>
  Neither id of a row holds a slash: the folder of the athlete lies in \<^verbatim>\<open>./data\<close> and
  the file of the session lies in that folder. (An athlete id with a slash names nested
  folders; with the segments \<^verbatim>\<open>.\<close> and \<^verbatim>\<open>..\<close> among them, which paths exist is
  more than the comparison of strings in \<open>dirs\<close> tells.)
\<close>

definition plain_keys :: "row list \<Rightarrow> bool" where
  "plain_keys rs =
     list_all (\<lambda>r. slash_free (get_prop r ''athleteid'') \<and> slash_free (get_prop r ''sessionid'')) rs"

text \<open>The offsets of the requests for result pages, in order.\<close>

fun result_offsets :: "request list \<Rightarrow> int list" where
  "result_offsets [] = []"
| "result_offsets (GetResults k u job off lim # rs) = off # result_offsets rs"
| "result_offsets (r # rs) = result_offsets rs"

text \<open>
  A poll that reports a terminal failure: a status request answered with \<^verbatim>\<open>FAILED\<close>
  or \<^verbatim>\<open>CANCELED\<close>.
\<close>

fun terminal_poll :: "event \<Rightarrow> bool" where
  "terminal_poll (Http (GetJob k u job) (Resp b)) =
     (data_status b = JStr ''FAILED'' \<or> data_status b = JStr ''CANCELED'')"
| "terminal_poll e = False"

definition no_terminal :: "event list \<Rightarrow> bool" where
  "no_terminal ev = list_all (\<lambda>e. \<not> terminal_poll e) ev"

text \<open>
  The service, from the request numbered \<open>c\<close> on, serves the pages \<open>ps\<close>, none of them
  empty, and then an empty page.
\<close>

fun serves_pages :: "(nat \<Rightarrow> outcome) \<Rightarrow> nat \<Rightarrow> row list list \<Rightarrow> bool" where
  "serves_pages t c [] = (case t c of Resp b \<Rightarrow> data_rows b = Some [] | Fail st \<Rightarrow> False)"
| "serves_pages t c (p # ps) =
     (p \<noteq> [] \<and> (case t c of Resp b \<Rightarrow> data_rows b = Some p | Fail st \<Rightarrow> False)
      \<and> serves_pages t (Suc c) ps)"

text \<open>The offsets at which these pages, and the empty one after them, are asked for.\<close>

fun page_offsets :: "int \<Rightarrow> row list list \<Rightarrow> int list" where
  "page_offsets off [] = [off]"
| "page_offsets off (p # ps) = off # page_offsets (off + int (length p)) ps"

text \<open>The sink call that covers one run: its rows, under the key of the run.\<close>

definition flush_of :: "row list \<Rightarrow> row list \<times> jsval \<times> jsval" where
  "flush_of g = (g, fst (row_key (hd g)), snd (row_key (hd g)))"

text \<open>
  What the partitioner holds while the keys it has seen are truthy: rows of one key,
  which is the key it remembers.
\<close>

definition held :: "pstate \<Rightarrow> bool" where
  "held st = (rowsToWrite st \<noteq> [] \<longrightarrow>
     (\<forall>r\<in>set (rowsToWrite st). row_key r = (athleteId st, sessionId st))
     \<and> truthy (athleteId st) \<and> truthy (sessionId st))"

text \<open>
  The events of a run that has seen no terminal poll, or has seen one as its last event
  and has ended with the error that names the status.
\<close>

definition halted :: "event list \<Rightarrow> error + 'a \<Rightarrow> bool" where
  "halted ev r =
     (no_terminal ev
      \<or> (\<exists>ev0 k u job b. ev = ev0 @ [Http (GetJob k u job) (Resp b)] \<and> no_terminal ev0
            \<and> (data_status b = JStr ''FAILED'' \<or> data_status b = JStr ''CANCELED'')
            \<and> r = Inl (JobTerminal (data_status b))))"

text \<open>
  The world in which the poll numbered \<open>i\<close> (from 0) of \<^verbatim>\<open>checkJobStatus\<close> starts, when
  each poll before it was answered \<^verbatim>\<open>RUNNING\<close>: the loop has slept 5000 milliseconds
  after each of them.
\<close>

fun nth_poll :: "nat \<Rightarrow> jsval \<Rightarrow> jsval \<Rightarrow> jsval \<Rightarrow> world \<Rightarrow> world option" where
  "nth_poll 0 apiKey dataURL job w = Some w"
| "nth_poll (Suc i) apiKey dataURL job w =
     (case getJobStatus apiKey dataURL job 3 2000 w of
        (Inl e, w1) \<Rightarrow> None
      | (Inr status, w1) \<Rightarrow>
          if status = JStr ''RUNNING'' then nth_poll i apiKey dataURL job (delay 5000 w1)
          else None)"

definition canceled_body :: body where
  "canceled_body = \<lparr>data_jobId = JUndefined, data_status = JStr ''CANCELED'', data_rows = None\<rparr>"

text \<open>The job is created, is running at two polls and is canceled at the third.\<close>

definition job_canceled_world :: world where
  "job_canceled_world =
     init_world (scripted [Resp created_body, Resp running_body, Resp running_body,
                           Resp canceled_body])"

text \<open>The job is created, is running at the first poll and has failed at the second.\<close>

definition job_fails_world :: world where
  "job_fails_world = init_world (scripted [Resp created_body, Resp running_body, Resp failed_body])"

definition hitting_data :: export_data where
  "hitting_data = \<lparr>activity = ''baseball'', movement = ''hitting'', startTime = 1604807785,
                    endTime = None, dateMode = ''last_modified''\<rparr>"

text \<open>The payload \<^verbatim>\<open>handleExportProcess\<close> submits for a category.\<close>

definition request_data :: "category \<Rightarrow> export_data" where
  "request_data c = \<lparr>activity = activity c, movement = movement c, startTime = 1604807785,
                      endTime = None, dateMode = ''last_modified''\<rparr>"

definition pitching :: category where
  "pitching = \<lparr>activity = ''baseball'', movement = ''pitching''\<rparr>"

text \<open>
  The job is created, is running at two polls and complete at the third; its results are
  the pages \<open>p1\<close> and \<open>p2\<close>, and an empty page after them.
\<close>

definition two_pages_world :: "row list \<Rightarrow> row list \<Rightarrow> world" where
  "two_pages_world p1 p2 =
     init_world (scripted [Resp created_body, Resp running_body, Resp running_body,
                           Resp completed_body, Resp (page p1), Resp (page p2), Resp (page [])])"

definition sample_row :: row where
  "sample_row = [(''athleteid'', JStr ''A''), (''sessionid'', JStr ''S1''), (''value'', JNum 1)]"

text \<open>Two sessions of athlete A, numbered 0 and 1, one row each, in one page.\<close>

definition session0_row :: row where
  "session0_row = [(''athleteid'', JStr ''A''), (''sessionid'', JNum 0), (''value'', JNum 10)]"

definition session1_row :: row where
  "session1_row = [(''athleteid'', JStr ''A''), (''sessionid'', JNum 1), (''value'', JNum 11)]"

definition zero_session_world :: world where
  "zero_session_world =
     init_world (scripted [Resp (page [session0_row, session1_row]), Resp (page [])])"

text \<open>Session S1 with two rows of athlete 0 and then one row of athlete 7.\<close>

definition athlete0_row :: row where
  "athlete0_row = [(''athleteid'', JNum 0), (''sessionid'', JStr ''S1'')]"

definition athlete7_row :: row where
  "athlete7_row = [(''athleteid'', JNum 7), (''sessionid'', JStr ''S1'')]"

definition zero_athlete_world :: world where
  "zero_athlete_world =
     init_world (scripted [Resp (page [athlete0_row, athlete0_row, athlete7_row]), Resp (page [])])"

text \<open>Three rows of A/S1, two of A/S2 and one of B/S2.\<close>

definition keyed_row :: "string \<Rightarrow> string \<Rightarrow> int \<Rightarrow> row" where
  "keyed_row a s v = [(''athleteid'', JStr a), (''sessionid'', JStr s), (''value'', JNum v)]"

definition three_runs :: "row list" where
  "three_runs =
     [keyed_row ''A'' ''S1'' 1, keyed_row ''A'' ''S1'' 2, keyed_row ''A'' ''S1'' 3,
      keyed_row ''A'' ''S2'' 4, keyed_row ''A'' ''S2'' 5, keyed_row ''B'' ''S2'' 6]"

text \<open>
  A page of two rows of athlete A: session \<^verbatim>\<open>x/y\<close>, whose file would lie in a folder
  \<^verbatim>\<open>./data/A/session_x\<close> that nothing makes, and then session S1.
\<close>

definition slash_row :: row where
  "slash_row = [(''athleteid'', JStr ''A''), (''sessionid'', JStr ''x/y''), (''value'', JNum 1)]"

definition slash_session_world :: world where
  "slash_session_world = init_world (scripted [Resp (page [slash_row, sample_row]), Resp (page [])])"

section \<open>Basic facts about the world\<close>

lemma sleeps_append: "sleeps (xs @ ys) = sleeps xs @ sleeps ys"
  by (induction xs rule: sleeps.induct) auto

lemma requests_append: "requests (xs @ ys) = requests xs @ requests ys"
  by (induction xs rule: requests.induct) auto

lemma writes_append: "writes (xs @ ys) = writes xs @ writes ys"
  by (induction xs rule: writes.induct) auto

lemma events_sinceI: "trace w' = trace w @ ev \<Longrightarrow> events_since w w' = ev"
  by (simp add: events_since_def)

lemma emit_fields [simp]:
  "trace (emit e w) = trace w @ [e]" "cursor (emit e w) = cursor w"
  "transport (emit e w) = transport w" "dirs (emit e w) = dirs w" "files (emit e w) = files w"
  "fault (emit e w) = fault w" "lib_calls (emit e w) = lib_calls w"
  by (simp_all add: emit_def)

lemma delay_fields [simp]:
  "trace (delay ms w) = trace w @ [Sleep ms]" "cursor (delay ms w) = cursor w"
  "transport (delay ms w) = transport w" "dirs (delay ms w) = dirs w" "files (delay ms w) = files w"
  "fault (delay ms w) = fault w" "lib_calls (delay ms w) = lib_calls w"
  by (simp_all add: delay_def)

lemma axios_fields [simp]:
  "fst (axios req w) = transport w (cursor w)"
  "trace (snd (axios req w)) = trace w @ [Http req (transport w (cursor w))]"
  "cursor (snd (axios req w)) = Suc (cursor w)"
  "transport (snd (axios req w)) = transport w"
  "dirs (snd (axios req w)) = dirs w" "files (snd (axios req w)) = files w"
  "fault (snd (axios req w)) = fault w" "lib_calls (snd (axios req w)) = lib_calls w"
  by (simp_all add: axios_def Let_def)

lemma axios_then_console:
  "emit (Console c) (snd (axios req w)) =
     w\<lparr>cursor := Suc (cursor w), trace := trace w @ [Http req (transport w (cursor w)), Console c]\<rparr>"
  by (simp add: emit_def axios_def Let_def)

lemma axios_then_delay:
  "delay ms (snd (axios req w)) =
     w\<lparr>cursor := Suc (cursor w), trace := trace w @ [Http req (transport w (cursor w)), Sleep ms]\<rparr>"
  by (simp add: delay_def emit_def axios_def Let_def)

section \<open>The retrying request\<close>

lemma axios_eq: "axios req w = (transport w (cursor w), snd (axios req w))"
  by (simp add: axios_def Let_def)

lemma makeRequest_ok:
  assumes "transport w (cursor w) = Resp b"
  shows "makeRequest req mr rd rc w = (Inr b, snd (axios req w))"
proof -
  obtain w1 where a: "axios req w = (Resp b, w1)"
    using axios_eq[of req w] assms by simp
  show ?thesis by (subst makeRequest.simps) (simp add: a)
qed

lemma makeRequest_retry:
  assumes "transport w (cursor w) = Fail (Some 504)" "int rc < mr"
  shows "makeRequest req mr rd rc w =
     makeRequest req mr rd (Suc rc) (delay (rd * 2 ^ rc) (snd (axios req w)))"
proof -
  obtain w1 where a: "axios req w = (Fail (Some 504), w1)"
    using axios_eq[of req w] assms(1) by simp
  show ?thesis using assms(2) by (subst makeRequest.simps) (simp add: a)
qed

lemma makeRequest_terminal:
  assumes "transport w (cursor w) = Fail st" "st \<noteq> Some 504 \<or> \<not> int rc < mr"
  shows "makeRequest req mr rd rc w =
     (Inl (AxiosError st), emit (Console (handleError st)) (snd (axios req w)))"
proof -
  obtain w1 where a: "axios req w = (Fail st, w1)"
    using axios_eq[of req w] assms(1) by simp
  show ?thesis using assms(2) by (subst makeRequest.simps) (auto simp: a)
qed

text \<open>
  What a call of \<open>makeRequest\<close> adds to the trace, whatever the service does: \<open>n\<close> retries
  with their delays, \<open>n + 1\<close> requests, and the counter never beyond \<open>maxRetries\<close>.
\<close>

lemma makeRequest_shape:
  "\<exists>n ev. int (rc + n) \<le> max mr (int rc) \<and>
     trace (snd (makeRequest req mr rd rc w)) = trace w @ ev \<and>
     sleeps ev = map (\<lambda>k. rd * 2 ^ k) [rc..<rc + n] \<and>
     requests ev = replicate (Suc n) req \<and>
     writes ev = [] \<and>
     cursor (snd (makeRequest req mr rd rc w)) = cursor w + Suc n \<and>
     transport (snd (makeRequest req mr rd rc w)) = transport w \<and>
     dirs (snd (makeRequest req mr rd rc w)) = dirs w \<and>
     files (snd (makeRequest req mr rd rc w)) = files w \<and>
     fault (snd (makeRequest req mr rd rc w)) = fault w \<and>
     lib_calls (snd (makeRequest req mr rd rc w)) = lib_calls w"
proof (induction req mr rd rc w rule: makeRequest.induct)
  case (1 req mr rd rc w)
  show ?case
  proof (cases "transport w (cursor w)")
    case (Resp b)
    then show ?thesis
      by (intro exI[of _ 0] exI[of _ "[Http req (Resp b)]"]) (simp add: makeRequest_ok)
  next
    case (Fail st)
    show ?thesis
    proof (cases "st = Some 504 \<and> int rc < mr")
      case True
      let ?w1 = "delay (rd * 2 ^ (Suc rc - 1)) (snd (axios req w))"
      let ?w' = "snd (makeRequest req mr rd (Suc rc) ?w1)"
      have fa: "fst (axios req w) = Fail st" using Fail by simp
      from "1.IH"[OF prod.collapse fa True refl refl] obtain n ev where
        h: "int (Suc rc + n) \<le> max mr (int (Suc rc))"
           "trace ?w' = trace ?w1 @ ev"
           "sleeps ev = map (\<lambda>k. rd * 2 ^ k) [Suc rc..<Suc rc + n]"
           "requests ev = replicate (Suc n) req"
           "writes ev = []"
           "cursor ?w' = cursor ?w1 + Suc n"
           "transport ?w' = transport ?w1" "dirs ?w' = dirs ?w1" "files ?w' = files ?w1"
           "fault ?w' = fault ?w1" "lib_calls ?w' = lib_calls ?w1"
        by blast
      have eq: "makeRequest req mr rd rc w = makeRequest req mr rd (Suc rc) ?w1"
        using Fail True by (simp add: makeRequest_retry)
      show ?thesis
        apply (rule exI[of _ "Suc n"])
        apply (rule exI[of _ "[Http req (Fail (Some 504)), Sleep (rd * 2 ^ rc)] @ ev"])
        using h Fail True unfolding eq
        by (simp add: sleeps_append requests_append writes_append upt_rec[of rc]
              replicate_app_Cons_same)
    next
      case False
      then have eq: "makeRequest req mr rd rc w =
          (Inl (AxiosError st), emit (Console (handleError st)) (snd (axios req w)))"
        using Fail by (intro makeRequest_terminal) auto
      show ?thesis unfolding eq
        by (intro exI[of _ 0] exI[of _ "[Http req (Fail st), Console (handleError st)]"])
           (simp add: Fail)
    qed
  qed
qed

lemma makeRequest_bounded:
  "bounded_backoff mr rd req (events_since w (snd (makeRequest req mr rd 0 w)))"
proof -
  obtain n ev where h: "int (0 + n) \<le> max mr (int 0)"
      "trace (snd (makeRequest req mr rd 0 w)) = trace w @ ev"
      "sleeps ev = map (\<lambda>k. rd * 2 ^ k) [0..<0 + n]"
      "requests ev = replicate (Suc n) req"
    using makeRequest_shape[where rc = 0 and mr = mr and rd = rd and req = req and w = w] by blast
  have "events_since w (snd (makeRequest req mr rd 0 w)) = ev"
    using h(2) by (rule events_sinceI)
  moreover have "length (sleeps ev) = n" using h(3) by simp
  ultimately show ?thesis
    using h by (simp add: bounded_backoff_def backoff_schedule_def Let_def)
qed

lemma snd_createExportJob:
  "snd (createExportJob k u d mr rd w) = snd (makeRequest (PostExport k u d) mr rd 0 w)"
  by (simp add: createExportJob_def split: prod.splits sum.splits)

lemma snd_getJobStatus:
  "truthy job \<Longrightarrow>
   snd (getJobStatus k u job mr rd w) = snd (makeRequest (GetJob k u job) mr rd 0 w)"
  by (simp add: getJobStatus_def split: prod.splits sum.splits)

lemma snd_getJobResults:
  "truthy job \<Longrightarrow>
   snd (getJobResults k u job off lim mr rd w) =
     snd (makeRequest (GetResults k u job off lim) mr rd 0 w)"
  by (simp add: getJobResults_def split: prod.splits sum.splits)

lemma retry_events_0 [simp]: "retry_events req rd rc 0 = []"
  by (simp add: retry_events_def)

lemma retry_events_Suc:
  "retry_events req rd rc (Suc n) =
     [Http req (Fail (Some 504)), Sleep (rd * 2 ^ rc)] @ retry_events req rd (Suc rc) n"
  by (simp add: retry_events_def upt_rec[of "Suc rc"])

lemma makeRequest_retried: "makeRequest req mr rd rc w = retried_from req mr rd rc w"
proof (induction req mr rd rc w rule: makeRequest.induct)
  case (1 req mr rd rc w)
  show ?case
  proof (cases "transport w (cursor w)")
    case (Resp b)
    have "leading_504 (transport w) (cursor w) (nat (mr - int rc)) = 0"
      using Resp by (cases "nat (mr - int rc)") simp_all
    then show ?thesis
      using Resp by (simp add: makeRequest_ok retried_from_def axios_def emit_def Let_def)
  next
    case (Fail st)
    show ?thesis
    proof (cases "st = Some 504 \<and> int rc < mr")
      case True
      let ?w1 = "delay (rd * 2 ^ (Suc rc - 1)) (snd (axios req w))"
      have fa: "fst (axios req w) = Fail st" using Fail by simp
      note ih = "1.IH"[OF prod.collapse fa True refl refl]
      have eq: "makeRequest req mr rd rc w = makeRequest req mr rd (Suc rc) ?w1"
        using Fail True by (simp add: makeRequest_retry)
      have b: "nat (mr - int rc) = Suc (nat (mr - int (Suc rc)))" using True by auto
      have l: "leading_504 (transport w) (cursor w) (nat (mr - int rc)) =
               Suc (leading_504 (transport w) (Suc (cursor w)) (nat (mr - int (Suc rc))))"
        unfolding b using Fail True by simp
      have st: "transport w (cursor w) = Fail (Some 504)" using Fail True by simp
      have "retried_from req mr rd (Suc rc) ?w1 = retried_from req mr rd rc w"
        unfolding retried_from_def l
        by (simp add: Let_def retry_events_Suc[of req rd rc] st axios_def emit_def delay_def
              del: leading_504.simps split: outcome.split)
      then show ?thesis unfolding eq ih .
    next
      case False
      have "leading_504 (transport w) (cursor w) (nat (mr - int rc)) = 0"
        using Fail False by (cases "nat (mr - int rc)") auto
      moreover have "makeRequest req mr rd rc w =
          (Inl (AxiosError st), emit (Console (handleError st)) (snd (axios req w)))"
        using Fail False by (intro makeRequest_terminal) auto
      ultimately show ?thesis
        using Fail by (simp add: retried_from_def axios_def emit_def Let_def)
    qed
  qed
qed

lemma makeRequest_first:
  "\<exists>ev. trace (snd (makeRequest req mr rd rc w)) =
          trace w @ Http req (transport w (cursor w)) # ev"
proof (cases "transport w (cursor w)")
  case (Resp b)
  then show ?thesis by (simp add: makeRequest_ok)
next
  case (Fail st)
  show ?thesis
  proof (cases "st = Some 504 \<and> int rc < mr")
    case True
    let ?w1 = "delay (rd * 2 ^ rc) (snd (axios req w))"
    obtain n ev where "trace (snd (makeRequest req mr rd (Suc rc) ?w1)) = trace ?w1 @ ev"
      using makeRequest_shape[where rc = "Suc rc" and mr = mr and rd = rd and req = req and w = ?w1]
      by blast
    then show ?thesis using Fail True by (simp add: makeRequest_retry)
  next
    case False
    then have "makeRequest req mr rd rc w =
        (Inl (AxiosError st), emit (Console (handleError st)) (snd (axios req w)))"
      using Fail by (intro makeRequest_terminal) auto
    then show ?thesis using Fail by simp
  qed
qed

lemma makeRequest_first_retry:
  assumes "transport w (cursor w) = Fail (Some 504)" "0 < mr"
  shows "take 3 (events_since w (snd (makeRequest req mr rd 0 w))) =
     [Http req (Fail (Some 504)), Sleep rd, Http req (transport w (Suc (cursor w)))]"
proof -
  let ?w1 = "delay (rd * 2 ^ 0) (snd (axios req w))"
  have eq: "makeRequest req mr rd 0 w = makeRequest req mr rd (Suc 0) ?w1"
    using assms by (intro makeRequest_retry) simp_all
  obtain ev where "trace (snd (makeRequest req mr rd (Suc 0) ?w1)) =
      trace ?w1 @ Http req (transport ?w1 (cursor ?w1)) # ev"
    using makeRequest_first[of req mr rd "Suc 0" ?w1] by blast
  then have "trace (snd (makeRequest req mr rd 0 w)) =
      trace w @ [Http req (Fail (Some 504)), Sleep rd, Http req (transport w (Suc (cursor w)))] @ ev"
    using assms(1) unfolding eq by simp
  then have "events_since w (snd (makeRequest req mr rd 0 w)) =
      [Http req (Fail (Some 504)), Sleep rd, Http req (transport w (Suc (cursor w)))] @ ev"
    by (rule events_sinceI)
  then show ?thesis by simp
qed

lemma createExportJob_resp:
  "transport w (cursor w) = Resp b \<Longrightarrow>
   createExportJob k u d mr rd w =
     (Inr (data_jobId b),
      w\<lparr>cursor := Suc (cursor w), trace := trace w @ [Http (PostExport k u d) (Resp b)]\<rparr>)"
  by (simp add: createExportJob_def makeRequest_ok axios_def emit_def Let_def)

lemma getJobStatus_resp:
  "truthy job \<Longrightarrow> transport w (cursor w) = Resp b \<Longrightarrow>
   getJobStatus k u job mr rd w =
     (Inr (data_status b),
      w\<lparr>cursor := Suc (cursor w), trace := trace w @ [Http (GetJob k u job) (Resp b)]\<rparr>)"
  by (simp add: getJobStatus_def makeRequest_ok axios_def emit_def Let_def)

lemma getJobResults_resp:
  "truthy job \<Longrightarrow> transport w (cursor w) = Resp b \<Longrightarrow>
   getJobResults k u job off lim mr rd w =
     (Inr (Some b),
      w\<lparr>cursor := Suc (cursor w),
        trace := trace w @ [Http (GetResults k u job off lim) (Resp b)]\<rparr>)"
  by (simp add: getJobResults_def makeRequest_ok axios_def emit_def Let_def)


lemma timeout_twice_run:
  "makeRequest req 3 2000 0 timeout_twice_world =
     (Inr completed_body,
      timeout_twice_world\<lparr>cursor := 3,
        trace := [Http req (Fail (Some 504)), Sleep 2000,
                  Http req (Fail (Some 504)), Sleep 4000,
                  Http req (Resp completed_body)]\<rparr>)"
proof -
  let ?t = "scripted [Fail (Some 504), Fail (Some 504), Resp completed_body]"
  have t: "?t 0 = Fail (Some 504)" "?t (Suc 0) = Fail (Some 504)"
      "?t (Suc (Suc 0)) = Resp completed_body"
    by (simp_all add: scripted_def)
  show ?thesis
    apply (simp add: timeout_twice_world_def init_world_def)
    apply (subst makeRequest_retry; simp add: t axios_then_delay)
    apply (subst makeRequest_retry; simp add: t axios_then_delay)
    apply (subst makeRequest_ok; simp add: t axios_def emit_def Let_def numeral_3_eq_3)
    done
qed

text \<open>
  Claim C2. When the axios call of a client operation is rejected with status 504 and the
  retry counter is below \<open>maxRetries\<close>, the operation counts the retry, waits
  \<open>retryDelay * 2 ^ (retryCount - 1)\<close> milliseconds for the counter's new value and
  issues the request again. Each of \<open>createExportJob\<close>, \<open>getJobStatus\<close> and
  \<open>getJobResults\<close> is the retried request of the claim, started with the counter at 0:
  it retries once for every 504 the service answers in a row, up to \<open>maxRetries\<close> times,
  each time after the delay of the schedule, and returns or throws what the last sending
  gives. So a first 504, when \<open>maxRetries\<close> is positive, is followed by a wait of
  \<open>retryDelay\<close> and by the same request again; there are never more than \<open>maxRetries\<close>
  retries, and one request more than retries. With the defaults the schedule is 2000,
  4000, 8000; a status request answered by 504, 504 and then \<^verbatim>\<open>COMPLETED\<close> waits 2000
  and 4000 milliseconds, sends three requests, returns \<^verbatim>\<open>COMPLETED\<close>, and the poller
  returns true.
\<close>

theorem retry_on_504_with_backoff:
  "(transport w (cursor w) = Fail (Some 504) \<and> int retryCount < maxRetries \<longrightarrow>
      makeRequest req maxRetries retryDelay retryCount w =
        makeRequest req maxRetries retryDelay (Suc retryCount)
          (w\<lparr>cursor := Suc (cursor w),
             trace := trace w @ [Http req (Fail (Some 504)),
                                 Sleep (retryDelay * 2 ^ (Suc retryCount - 1))]\<rparr>))
   \<and> makeRequest req maxRetries retryDelay retryCount w =
       retried_from req maxRetries retryDelay retryCount w
   \<and> createExportJob apiKey dataURL d maxRetries retryDelay w =
       (case retried_from (PostExport apiKey dataURL d) maxRetries retryDelay 0 w of
          (Inl e, w') \<Rightarrow> (Inl e, w')
        | (Inr b, w') \<Rightarrow> (Inr (data_jobId b), w'))
   \<and> (truthy job \<longrightarrow>
        getJobStatus apiKey dataURL job maxRetries retryDelay w =
          (case retried_from (GetJob apiKey dataURL job) maxRetries retryDelay 0 w of
             (Inl e, w') \<Rightarrow> (Inl e, w')
           | (Inr b, w') \<Rightarrow> (Inr (data_status b), w')))
   \<and> (truthy job \<longrightarrow>
        getJobResults apiKey dataURL job offset limit maxRetries retryDelay w =
          (case retried_from (GetResults apiKey dataURL job offset limit) maxRetries retryDelay 0 w of
             (Inl e, w') \<Rightarrow> (Inl e, w')
           | (Inr b, w') \<Rightarrow> (Inr (Some b), w')))
   \<and> (transport w (cursor w) = Fail (Some 504) \<and> 0 < maxRetries \<longrightarrow>
        take 3 (events_since w (snd (createExportJob apiKey dataURL d maxRetries retryDelay w))) =
          [Http (PostExport apiKey dataURL d) (Fail (Some 504)), Sleep retryDelay,
           Http (PostExport apiKey dataURL d) (transport w (Suc (cursor w)))]
        \<and> (truthy job \<longrightarrow>
             take 3 (events_since w (snd (getJobStatus apiKey dataURL job maxRetries retryDelay w))) =
               [Http (GetJob apiKey dataURL job) (Fail (Some 504)), Sleep retryDelay,
                Http (GetJob apiKey dataURL job) (transport w (Suc (cursor w)))]
             \<and> take 3 (events_since w
                   (snd (getJobResults apiKey dataURL job offset limit maxRetries retryDelay w))) =
               [Http (GetResults apiKey dataURL job offset limit) (Fail (Some 504)), Sleep retryDelay,
                Http (GetResults apiKey dataURL job offset limit) (transport w (Suc (cursor w)))]))
   \<and> bounded_backoff maxRetries retryDelay (PostExport apiKey dataURL d)
        (events_since w (snd (createExportJob apiKey dataURL d maxRetries retryDelay w)))
   \<and> (truthy job \<longrightarrow>
        bounded_backoff maxRetries retryDelay (GetJob apiKey dataURL job)
          (events_since w (snd (getJobStatus apiKey dataURL job maxRetries retryDelay w))))
   \<and> (truthy job \<longrightarrow>
        bounded_backoff maxRetries retryDelay (GetResults apiKey dataURL job offset limit)
          (events_since w
             (snd (getJobResults apiKey dataURL job offset limit maxRetries retryDelay w))))
   \<and> backoff_schedule 2000 3 = [2000, 4000, 8000]
   \<and> (truthy job \<longrightarrow>
        fst (getJobStatus apiKey dataURL job 3 2000 timeout_twice_world) = Inr (JStr ''COMPLETED'')
        \<and> sleeps (trace (snd (getJobStatus apiKey dataURL job 3 2000 timeout_twice_world)))
            = [2000, 4000]
        \<and> length (requests (trace (snd (getJobStatus apiKey dataURL job 3 2000 timeout_twice_world))))
            = 3
        \<and> checkJobStatus (Suc 0) apiKey dataURL job timeout_twice_world =
            Some (Inr (JBool True), snd (getJobStatus apiKey dataURL job 3 2000 timeout_twice_world)))"
proof -
  have step: "transport w (cursor w) = Fail (Some 504) \<and> int retryCount < maxRetries \<longrightarrow>
      makeRequest req maxRetries retryDelay retryCount w =
        makeRequest req maxRetries retryDelay (Suc retryCount)
          (w\<lparr>cursor := Suc (cursor w),
             trace := trace w @ [Http req (Fail (Some 504)),
                                 Sleep (retryDelay * 2 ^ (Suc retryCount - 1))]\<rparr>)"
    by (auto simp: makeRequest_retry axios_then_delay)
  have spec: "makeRequest r maxRetries retryDelay rc w = retried_from r maxRetries retryDelay rc w"
    for r rc by (rule makeRequest_retried)
  have ops: "createExportJob apiKey dataURL d maxRetries retryDelay w =
       (case retried_from (PostExport apiKey dataURL d) maxRetries retryDelay 0 w of
          (Inl e, w') \<Rightarrow> (Inl e, w')
        | (Inr b, w') \<Rightarrow> (Inr (data_jobId b), w'))"
      "truthy job \<longrightarrow>
        getJobStatus apiKey dataURL job maxRetries retryDelay w =
          (case retried_from (GetJob apiKey dataURL job) maxRetries retryDelay 0 w of
             (Inl e, w') \<Rightarrow> (Inl e, w')
           | (Inr b, w') \<Rightarrow> (Inr (data_status b), w'))"
      "truthy job \<longrightarrow>
        getJobResults apiKey dataURL job offset limit maxRetries retryDelay w =
          (case retried_from (GetResults apiKey dataURL job offset limit) maxRetries retryDelay 0 w of
             (Inl e, w') \<Rightarrow> (Inl e, w')
           | (Inr b, w') \<Rightarrow> (Inr (Some b), w'))"
    by (simp_all add: createExportJob_def getJobStatus_def getJobResults_def spec)
  have first: "transport w (cursor w) = Fail (Some 504) \<and> 0 < maxRetries \<longrightarrow>
        take 3 (events_since w (snd (createExportJob apiKey dataURL d maxRetries retryDelay w))) =
          [Http (PostExport apiKey dataURL d) (Fail (Some 504)), Sleep retryDelay,
           Http (PostExport apiKey dataURL d) (transport w (Suc (cursor w)))]
        \<and> (truthy job \<longrightarrow>
             take 3 (events_since w (snd (getJobStatus apiKey dataURL job maxRetries retryDelay w))) =
               [Http (GetJob apiKey dataURL job) (Fail (Some 504)), Sleep retryDelay,
                Http (GetJob apiKey dataURL job) (transport w (Suc (cursor w)))]
             \<and> take 3 (events_since w
                   (snd (getJobResults apiKey dataURL job offset limit maxRetries retryDelay w))) =
               [Http (GetResults apiKey dataURL job offset limit) (Fail (Some 504)), Sleep retryDelay,
                Http (GetResults apiKey dataURL job offset limit) (transport w (Suc (cursor w)))])"
    by (simp add: snd_createExportJob snd_getJobStatus snd_getJobResults makeRequest_first_retry)
  have sched: "backoff_schedule 2000 3 = [2000, 4000, 8000]"
    by (simp add: backoff_schedule_def upt_rec numeral_3_eq_3)
  have scen: "getJobStatus apiKey dataURL job 3 2000 timeout_twice_world =
     (Inr (JStr ''COMPLETED''),
      timeout_twice_world\<lparr>cursor := 3,
        trace := [Http (GetJob apiKey dataURL job) (Fail (Some 504)), Sleep 2000,
                  Http (GetJob apiKey dataURL job) (Fail (Some 504)), Sleep 4000,
                  Http (GetJob apiKey dataURL job) (Resp completed_body)]\<rparr>)" if "truthy job"
    using that by (simp add: getJobStatus_def timeout_twice_run completed_body_def)
  have rest: "bounded_backoff maxRetries retryDelay (PostExport apiKey dataURL d)
        (events_since w (snd (createExportJob apiKey dataURL d maxRetries retryDelay w)))
   \<and> (truthy job \<longrightarrow>
        bounded_backoff maxRetries retryDelay (GetJob apiKey dataURL job)
          (events_since w (snd (getJobStatus apiKey dataURL job maxRetries retryDelay w))))
   \<and> (truthy job \<longrightarrow>
        bounded_backoff maxRetries retryDelay (GetResults apiKey dataURL job offset limit)
          (events_since w
             (snd (getJobResults apiKey dataURL job offset limit maxRetries retryDelay w))))
   \<and> (truthy job \<longrightarrow>
        fst (getJobStatus apiKey dataURL job 3 2000 timeout_twice_world) = Inr (JStr ''COMPLETED'')
        \<and> sleeps (trace (snd (getJobStatus apiKey dataURL job 3 2000 timeout_twice_world)))
            = [2000, 4000]
        \<and> length (requests (trace (snd (getJobStatus apiKey dataURL job 3 2000 timeout_twice_world))))
            = 3
        \<and> checkJobStatus (Suc 0) apiKey dataURL job timeout_twice_world =
            Some (Inr (JBool True), snd (getJobStatus apiKey dataURL job 3 2000 timeout_twice_world)))"
    by (simp add: snd_createExportJob snd_getJobStatus snd_getJobResults makeRequest_bounded scen)
  from step spec[of req retryCount] ops first sched rest show ?thesis by blast
qed

theorem retry_on_504_with_backoff_witness:
  "transport timeout_twice_world (cursor timeout_twice_world) = Fail (Some 504)
   \<and> int 0 < 3 \<and> (0::int) < 3
   \<and> truthy (JStr ''job-1'')
   \<and> makeRequest (GetJob (JStr ''key'') (JStr ''https://api'') (JStr ''job-1'')) 3 2000 0
        timeout_twice_world =
      makeRequest (GetJob (JStr ''key'') (JStr ''https://api'') (JStr ''job-1'')) 3 2000 (Suc 0)
        (timeout_twice_world\<lparr>cursor := Suc 0,
           trace := [Http (GetJob (JStr ''key'') (JStr ''https://api'') (JStr ''job-1''))
                       (Fail (Some 504)), Sleep 2000]\<rparr>)
   \<and> take 3 (events_since timeout_twice_world
        (snd (createExportJob (JStr ''key'') (JStr ''https://api'') hitting_data 3 2000
                timeout_twice_world))) =
       [Http (PostExport (JStr ''key'') (JStr ''https://api'') hitting_data) (Fail (Some 504)),
        Sleep 2000,
        Http (PostExport (JStr ''key'') (JStr ''https://api'') hitting_data) (Fail (Some 504))]
   \<and> take 3 (events_since timeout_twice_world
        (snd (getJobResults (JStr ''key'') (JStr ''https://api'') (JStr ''job-1'') 0 500 3 2000
                timeout_twice_world))) =
       [Http (GetResults (JStr ''key'') (JStr ''https://api'') (JStr ''job-1'') 0 500)
          (Fail (Some 504)),
        Sleep 2000,
        Http (GetResults (JStr ''key'') (JStr ''https://api'') (JStr ''job-1'') 0 500)
          (Fail (Some 504))]
   \<and> bounded_backoff 3 2000 (GetJob (JStr ''key'') (JStr ''https://api'') (JStr ''job-1''))
        (events_since timeout_twice_world
           (snd (getJobStatus (JStr ''key'') (JStr ''https://api'') (JStr ''job-1'') 3 2000
                   timeout_twice_world)))
   \<and> sleeps (trace (snd (getJobStatus (JStr ''key'') (JStr ''https://api'') (JStr ''job-1'') 3 2000
                           timeout_twice_world))) = [2000, 4000]"
proof -
  have h: "transport timeout_twice_world (cursor timeout_twice_world) = Fail (Some 504)"
      "transport timeout_twice_world 0 = Fail (Some 504)"
      "transport timeout_twice_world (Suc 0) = Fail (Some 504)"
      "cursor timeout_twice_world = 0" "trace timeout_twice_world = []"
    by (simp_all add: timeout_twice_world_def init_world_def scripted_def)
  note t = retry_on_504_with_backoff
      [of timeout_twice_world 0 3 "GetJob (JStr ''key'') (JStr ''https://api'') (JStr ''job-1'')"
          2000 "JStr ''key''" "JStr ''https://api''" hitting_data "JStr ''job-1''" 0 500]
  note t5 = t[THEN conjunct2, THEN conjunct2, THEN conjunct2, THEN conjunct2, THEN conjunct2]
  note t7 = t5[THEN conjunct2, THEN conjunct2]
  note t10 = t7[THEN conjunct2, THEN conjunct2, THEN conjunct2]
  show ?thesis
    using t[THEN conjunct1] t5[THEN conjunct1] t7[THEN conjunct1] t10
    by (simp add: h)
qed

text \<open>
  Claim C7. When the axios call is rejected with a status other than 504, or with a
  network error that carries no response, the operation fails on that attempt, whatever
  the retry counter is: \<open>handleError\<close> prints the line for the status, the error is
  rethrown to the caller, no timer is awaited, and no further request is sent.
\<close>

theorem terminal_failure_is_immediate:
  assumes "transport w (cursor w) = Fail st" and "st \<noteq> Some 504"
  shows "makeRequest req maxRetries retryDelay retryCount w =
           (Inl (AxiosError st),
            w\<lparr>cursor := Suc (cursor w),
              trace := trace w @ [Http req (Fail st), Console (handleError st)]\<rparr>)
       \<and> createExportJob apiKey dataURL d maxRetries retryDelay w =
           (Inl (AxiosError st),
            w\<lparr>cursor := Suc (cursor w),
              trace := trace w @ [Http (PostExport apiKey dataURL d) (Fail st),
                                  Console (handleError st)]\<rparr>)
       \<and> (truthy job \<longrightarrow>
            getJobStatus apiKey dataURL job maxRetries retryDelay w =
              (Inl (AxiosError st),
               w\<lparr>cursor := Suc (cursor w),
                 trace := trace w @ [Http (GetJob apiKey dataURL job) (Fail st),
                                     Console (handleError st)]\<rparr>))
       \<and> (truthy job \<longrightarrow>
            getJobResults apiKey dataURL job offset limit maxRetries retryDelay w =
              (Inl (AxiosError st),
               w\<lparr>cursor := Suc (cursor w),
                 trace := trace w @ [Http (GetResults apiKey dataURL job offset limit) (Fail st),
                                     Console (handleError st)]\<rparr>))"
proof -
  have m: "makeRequest r maxRetries retryDelay rc w =
           (Inl (AxiosError st),
            w\<lparr>cursor := Suc (cursor w),
              trace := trace w @ [Http r (Fail st), Console (handleError st)]\<rparr>)"
    for r rc
    using assms by (simp add: makeRequest_terminal axios_then_console)
  show ?thesis
    by (simp add: m createExportJob_def getJobStatus_def getJobResults_def)
qed

theorem terminal_failure_is_immediate_witness:
  "transport unauthorized_world (cursor unauthorized_world) = Fail (Some 401)
   \<and> Some (401::nat) \<noteq> Some 504
   \<and> truthy (JStr ''job-1'')
   \<and> fst (getJobStatus (JStr ''key'') (JStr ''https://api'') (JStr ''job-1'') 3 2000
             unauthorized_world)
       = Inl (AxiosError (Some 401))
   \<and> trace (snd (getJobStatus (JStr ''key'') (JStr ''https://api'') (JStr ''job-1'') 3 2000
                   unauthorized_world))
       = [Http (GetJob (JStr ''key'') (JStr ''https://api'') (JStr ''job-1'')) (Fail (Some 401)),
          Console (Text ''Unauthorized: Check your authorization token.'')]"
proof -
  have h: "transport unauthorized_world (cursor unauthorized_world) = Fail (Some 401)"
    by (simp add: unauthorized_world_def init_world_def scripted_def)
  have n: "Some (401::nat) \<noteq> Some 504" by simp
  show ?thesis
    using terminal_failure_is_immediate
      [OF h n, of "GetJob (JStr ''key'') (JStr ''https://api'') (JStr ''job-1'')" 3 2000 0
         "JStr ''key''" "JStr ''https://api''"
         "\<lparr>activity = ''baseball'', movement = ''hitting'', startTime = 0, endTime = None,
           dateMode = ''last_modified''\<rparr>"
         "JStr ''job-1''" 0 500] h
    by (simp add: unauthorized_world_def init_world_def)
qed


section \<open>The status poller\<close>

lemma checkJobStatus_result:
  "checkJobStatus n apiKey dataURL job w = Some (r, w') \<Longrightarrow>
   r = Inr (JBool True) \<or> (\<exists>e. r = Inl e)"
  by (induction n arbitrary: w) (auto split: prod.splits sum.splits if_splits simp: Let_def)

text \<open>
  Claim C3. What \<open>checkJobStatus\<close> does with the status a poll returns:
  \<^verbatim>\<open>COMPLETED\<close> returns true; \<^verbatim>\<open>FAILED\<close> and \<^verbatim>\<open>CANCELED\<close> throw an error that
  carries the status, in the world the poll left, so nothing is polled after it;
  \<^verbatim>\<open>RUNNING\<close> awaits a timer of 5000 milliseconds and polls again; every other value,
  \<^verbatim>\<open>undefined\<close> among them, throws the unexpected-status error, again without another poll.
\<close>

theorem checkJobStatus_by_status:
  assumes "getJobStatus apiKey dataURL job 3 2000 w = (Inr status, w1)"
  shows "(status = JStr ''COMPLETED'' \<longrightarrow>
            checkJobStatus (Suc n) apiKey dataURL job w = Some (Inr (JBool True), w1))
       \<and> (status = JStr ''FAILED'' \<or> status = JStr ''CANCELED'' \<longrightarrow>
            checkJobStatus (Suc n) apiKey dataURL job w = Some (Inl (JobTerminal status), w1))
       \<and> (status = JStr ''RUNNING'' \<longrightarrow>
            checkJobStatus (Suc n) apiKey dataURL job w =
              checkJobStatus n apiKey dataURL job (w1\<lparr>trace := trace w1 @ [Sleep 5000]\<rparr>))
       \<and> (status \<noteq> JStr ''COMPLETED'' \<and> status \<noteq> JStr ''FAILED'' \<and> status \<noteq> JStr ''CANCELED''
            \<and> status \<noteq> JStr ''RUNNING'' \<longrightarrow>
            checkJobStatus (Suc n) apiKey dataURL job w = Some (Inl (UnexpectedStatus status), w1))"
  using assms by (simp add: delay_def emit_def)

theorem checkJobStatus_by_status_witness:
  "checkJobStatus (Suc (Suc 0)) (JStr ''key'') (JStr ''https://api'') (JStr ''job-1'')
      running_then_failed_world =
    Some (Inl (JobTerminal (JStr ''FAILED'')),
          running_then_failed_world\<lparr>cursor := Suc (Suc 0),
            trace := [Http (GetJob (JStr ''key'') (JStr ''https://api'') (JStr ''job-1''))
                        (Resp running_body),
                      Sleep 5000,
                      Http (GetJob (JStr ''key'') (JStr ''https://api'') (JStr ''job-1''))
                        (Resp failed_body)]\<rparr>)"
proof -
  let ?k = "JStr ''key''" and ?u = "JStr ''https://api''" and ?j = "JStr ''job-1''"
  let ?w0 = running_then_failed_world
  let ?w1 = "?w0\<lparr>cursor := Suc 0, trace := [Http (GetJob ?k ?u ?j) (Resp running_body)]\<rparr>"
  let ?w2 = "?w1\<lparr>trace := trace ?w1 @ [Sleep 5000]\<rparr>"
  let ?w3 = "?w2\<lparr>cursor := Suc (Suc 0),
                  trace := trace ?w2 @ [Http (GetJob ?k ?u ?j) (Resp failed_body)]\<rparr>"
  have g1: "getJobStatus ?k ?u ?j 3 2000 ?w0 = (Inr (JStr ''RUNNING''), ?w1)"
    by (subst getJobStatus_resp[where b = running_body])
       (simp_all add: running_then_failed_world_def init_world_def scripted_def running_body_def)
  have g2: "getJobStatus ?k ?u ?j 3 2000 ?w2 = (Inr (JStr ''FAILED''), ?w3)"
    by (subst getJobStatus_resp[where b = failed_body])
       (simp_all add: running_then_failed_world_def init_world_def scripted_def failed_body_def)
  have s1: "checkJobStatus (Suc (Suc 0)) ?k ?u ?j ?w0 = checkJobStatus (Suc 0) ?k ?u ?j ?w2"
    using checkJobStatus_by_status [OF g1, of "Suc 0"] by simp
  have s2: "checkJobStatus (Suc 0) ?k ?u ?j ?w2 = Some (Inl (JobTerminal (JStr ''FAILED'')), ?w3)"
    using checkJobStatus_by_status [OF g2, of 0] by simp
  show ?thesis unfolding s1 s2 by simp
qed

text \<open>
  Claim C10. Whenever \<open>checkJobStatus\<close> comes back, it has returned true or thrown: no
  run returns a falsy value. So when polling has returned, the orchestrator's test of the
  returned status succeeds and the category's run is the run of \<open>handleDataExport\<close>.
\<close>

theorem checkJobStatus_never_falsy:
  "(checkJobStatus n apiKey dataURL job w = Some (r, w') \<longrightarrow>
      (r = Inr (JBool True) \<or> (\<exists>e. r = Inl e)) \<and> (\<forall>v. r = Inr v \<longrightarrow> truthy v))
   \<and> (createExportJob apiKey dataURL
         \<lparr>activity = activity c, movement = movement c, startTime = 1604807785,
          endTime = None, dateMode = ''last_modified''\<rparr> 3 2000 w0 = (Inr job, w)
       \<and> truthy job
       \<and> checkJobStatus n apiKey dataURL job w = Some (Inr v, w') \<longrightarrow>
         processCategory n apiKey dataURL c w0 = handleDataExport n apiKey dataURL job 0 500 w')"
proof -
  have a: "r = Inr (JBool True) \<or> (\<exists>e. r = Inl e)"
    if "checkJobStatus n apiKey dataURL job w = Some (r, w')" for r
    using that by (rule checkJobStatus_result)
  have b: "truthy v" if "checkJobStatus n apiKey dataURL job w = Some (Inr v, w')" for v
    using a[OF that] by auto
  show ?thesis
    using a b by (auto simp: processCategory_def Let_def)
qed

theorem checkJobStatus_never_falsy_witness:
  "(let k = JStr ''key''; u = JStr ''https://api''; j = JStr ''job-1'';
        d = \<lparr>activity = ''baseball'', movement = ''hitting'', startTime = 1604807785,
             endTime = None, dateMode = ''last_modified''\<rparr>;
        w1 = created_completed_world\<lparr>cursor := Suc 0,
               trace := [Http (PostExport k u d) (Resp created_body)]\<rparr>;
        w2 = w1\<lparr>cursor := Suc (Suc 0),
               trace := trace w1 @ [Http (GetJob k u j) (Resp completed_body)]\<rparr>
    in createExportJob k u d 3 2000 created_completed_world = (Inr j, w1)
       \<and> truthy j
       \<and> checkJobStatus (Suc 0) k u j w1 = Some (Inr (JBool True), w2)
       \<and> truthy (JBool True)
       \<and> processCategory (Suc 0) k u hitting created_completed_world =
           handleDataExport (Suc 0) k u j 0 500 w2)"
proof -
  let ?k = "JStr ''key''" and ?u = "JStr ''https://api''" and ?j = "JStr ''job-1''"
  let ?d = "\<lparr>activity = ''baseball'', movement = ''hitting'', startTime = 1604807785,
             endTime = None, dateMode = ''last_modified''\<rparr>"
  let ?w0 = created_completed_world
  let ?w1 = "?w0\<lparr>cursor := Suc 0, trace := [Http (PostExport ?k ?u ?d) (Resp created_body)]\<rparr>"
  let ?w2 = "?w1\<lparr>cursor := Suc (Suc 0),
                  trace := trace ?w1 @ [Http (GetJob ?k ?u ?j) (Resp completed_body)]\<rparr>"
  have c: "createExportJob ?k ?u ?d 3 2000 ?w0 = (Inr ?j, ?w1)"
    by (subst createExportJob_resp[where b = created_body])
       (simp_all add: created_completed_world_def init_world_def scripted_def created_body_def)
  have g: "getJobStatus ?k ?u ?j 3 2000 ?w1 = (Inr (JStr ''COMPLETED''), ?w2)"
    by (subst getJobStatus_resp[where b = completed_body])
       (simp_all add: created_completed_world_def init_world_def scripted_def completed_body_def)
  have p: "checkJobStatus (Suc 0) ?k ?u ?j ?w1 = Some (Inr (JBool True), ?w2)"
    using g by simp
  have "activity hitting = ''baseball''" "movement hitting = ''hitting''"
    by (simp_all add: hitting_def)
  then show ?thesis
    using checkJobStatus_never_falsy
      [of "Suc 0" ?k ?u ?j ?w1 "Inr (JBool True)" ?w2 hitting ?w0 "JBool True"] c p
    by (simp add: Let_def)
qed


section \<open>The writer and the partitioner\<close>

lemma lib_call_fields [simp]:
  "fst (lib_call w) = fault w (lib_calls w)"
  "trace (snd (lib_call w)) = trace w" "cursor (snd (lib_call w)) = cursor w"
  "transport (snd (lib_call w)) = transport w" "fault (snd (lib_call w)) = fault w"
  "dirs (snd (lib_call w)) = dirs w" "files (snd (lib_call w)) = files w"
  "lib_calls (snd (lib_call w)) = Suc (lib_calls w)"
  by (simp_all add: lib_call_def)

lemma writeCsvFile_fields [simp]:
  "trace (snd (writeCsvFile rows a s w)) = trace w @ [WriteCsv rows a s]"
  "cursor (snd (writeCsvFile rows a s w)) = cursor w"
  "transport (snd (writeCsvFile rows a s w)) = transport w"
  "fault (snd (writeCsvFile rows a s w)) = fault w"
  by (simp_all add: writeCsvFile_def Let_def appendFileSync_def mkdirSync_def stringify_call_def
        lib_call_def emit_def split: list.splits bool.splits)

lemma no_faults_writeCsvFile [simp]:
  "no_faults (snd (writeCsvFile rows a s w)) = no_faults w"
  by (simp add: no_faults_def)

lemma no_faults_frame [simp]:
  "no_faults (delay ms w) = no_faults w" "no_faults (emit e w) = no_faults w"
  "no_faults (w\<lparr>cursor := c\<rparr>) = no_faults w" "no_faults (w\<lparr>trace := t\<rparr>) = no_faults w"
  "no_faults (init_world tr)"
  by (simp_all add: no_faults_def init_world_def)

lemma parent_dir_session:
  assumes "CHR ''/'' \<notin> set s"
  shows "parent_dir (d @ ''/session_'' @ s @ ''.csv'') = d"
proof -
  have "dropWhile (\<lambda>c. c \<noteq> CHR ''/'') (rev s @ rev ''/session_'' @ rev d)
        = dropWhile (\<lambda>c. c \<noteq> CHR ''/'') (rev ''/session_'' @ rev d)"
    by (rule dropWhile_append2) (use assms in auto)
  then show ?thesis by (simp add: parent_dir_def)
qed

lemma writeCsvFile_ok:
  assumes "rows \<noteq> []" "no_faults w" "slash_free s"
  shows "fst (writeCsvFile rows a s w) = Inr ()"
proof -
  have p: "parent_dir ((''./data/'' @ js_to_string a) @ ''/session_'' @ js_to_string s @ ''.csv'')
           = ''./data/'' @ js_to_string a"
    using assms(3) unfolding slash_free_def by (rule parent_dir_session)
  have f: "\<And>n. \<not> fault w n" using assms(2) by (simp add: no_faults_def)
  obtain r rs where rows: "rows = r # rs" using assms(1) by (cases rows) auto
  show ?thesis
    using p unfolding rows
    by (simp add: writeCsvFile_def Let_def appendFileSync_def mkdirSync_def stringify_call_def
          lib_call_def emit_def f folder_chain_def)
qed

lemma flushRows_eq:
  assumes "no_faults w" "slash_free (sessionId st)"
  shows "flushRows st w =
     (if rowsToWrite st \<noteq> []
      then (Inr (st\<lparr>rowsToWrite := []\<rparr>),
            snd (writeCsvFile (rowsToWrite st) (athleteId st) (sessionId st) w))
      else (Inr st, w))"
proof (cases "rowsToWrite st = []")
  case True
  then show ?thesis by (simp add: flushRows_def)
next
  case False
  obtain x w' where e: "writeCsvFile (rowsToWrite st) (athleteId st) (sessionId st) w = (x, w')"
    by (cases "writeCsvFile (rowsToWrite st) (athleteId st) (sessionId st) w")
  have "x = Inr ()"
    using writeCsvFile_ok[OF False assms, of "athleteId st"] e by simp
  then show ?thesis using False e by (simp add: flushRows_def)
qed

lemma processRow_eq:
  assumes "no_faults w" "slash_free (sessionId st)"
  shows "processRow r st w =
     (if key_changed st r \<and> rowsToWrite st \<noteq> []
      then (Inr \<lparr>sessionId = get_prop r ''sessionid'', athleteId = get_prop r ''athleteid'',
                 rowsToWrite = [r]\<rparr>,
            snd (writeCsvFile (rowsToWrite st) (athleteId st) (sessionId st) w))
      else (Inr \<lparr>sessionId = get_prop r ''sessionid'', athleteId = get_prop r ''athleteid'',
                 rowsToWrite = rowsToWrite st @ [r]\<rparr>, w))"
proof (cases st)
  case (fields sid aid rows)
  have f1: "flushRows \<lparr>sessionId = sid, athleteId = aid, rowsToWrite = rows\<rparr> w =
     (if rows \<noteq> []
      then (Inr \<lparr>sessionId = sid, athleteId = aid, rowsToWrite = []\<rparr>,
            snd (writeCsvFile rows aid sid w))
      else (Inr \<lparr>sessionId = sid, athleteId = aid, rowsToWrite = rows\<rparr>, w))"
    using flushRows_eq[OF assms] unfolding fields by simp
  have f2: "flushRows \<lparr>sessionId = sid, athleteId = aid, rowsToWrite = []\<rparr> w' =
     (Inr \<lparr>sessionId = sid, athleteId = aid, rowsToWrite = []\<rparr>, w')" for w'
    by (simp add: flushRows_def)
  show ?thesis
    unfolding fields by (auto simp: processRow_def f1 f2 key_changed_def Let_def)
qed

lemma write_events_simps [simp]:
  "write_events [] = []"
  "write_events ((rows, a, s) # ws) = WriteCsv rows a s # write_events ws"
  "write_events (xs @ ys) = write_events xs @ write_events ys"
  by (simp_all add: write_events_def)

lemma write_events_obs [simp]:
  "writes (write_events ws) = ws" "requests (write_events ws) = []"
  "sleeps (write_events ws) = []" "no_terminal (write_events ws)"
  by (induction ws) (auto simp: no_terminal_def)

lemma partition_rows_session:
  "slash_free (sessionId st) \<Longrightarrow> plain_sessions rs \<Longrightarrow>
   slash_free (sessionId (snd (partition_rows rs st)))"
  by (induction rs arbitrary: st) (simp_all add: Let_def plain_sessions_def)

lemma processRows_partition:
  "no_faults w \<Longrightarrow> slash_free (sessionId st) \<Longrightarrow> plain_sessions rs \<Longrightarrow>
   \<exists>w'. processRows rs st w = (Inr (snd (partition_rows rs st)), w')
        \<and> trace w' = trace w @ write_events (fst (partition_rows rs st))
        \<and> cursor w' = cursor w \<and> transport w' = transport w \<and> no_faults w'"
proof (induction rs arbitrary: st w)
  case Nil
  then show ?case by simp
next
  case (Cons r rs)
  have sr: "slash_free (get_prop r ''sessionid'')" and prs: "plain_sessions rs"
    using Cons.prems(3) by (simp_all add: plain_sessions_def)
  note eq = processRow_eq[OF Cons.prems(1,2), of r]
  show ?case
  proof (cases "key_changed st r \<and> rowsToWrite st \<noteq> []")
    case True
    let ?st1 = "\<lparr>sessionId = get_prop r ''sessionid'', athleteId = get_prop r ''athleteid'',
                 rowsToWrite = [r]\<rparr>"
    let ?w1 = "snd (writeCsvFile (rowsToWrite st) (athleteId st) (sessionId st) w)"
    have nf: "no_faults ?w1" using Cons.prems(1) by simp
    have s1: "slash_free (sessionId ?st1)" using sr by simp
    from Cons.IH[OF nf s1 prs] obtain w' where
      "processRows rs ?st1 ?w1 = (Inr (snd (partition_rows rs ?st1)), w')"
      "trace w' = trace ?w1 @ write_events (fst (partition_rows rs ?st1))"
      "cursor w' = cursor ?w1" "transport w' = transport ?w1" "no_faults w'" by blast
    then show ?thesis using True
      by (intro exI[of _ w']) (simp add: eq Let_def)
  next
    case False
    let ?st1 = "\<lparr>sessionId = get_prop r ''sessionid'', athleteId = get_prop r ''athleteid'',
                 rowsToWrite = rowsToWrite st @ [r]\<rparr>"
    have s1: "slash_free (sessionId ?st1)" using sr by simp
    from Cons.IH[OF Cons.prems(1) s1 prs] obtain w' where
      "processRows rs ?st1 w = (Inr (snd (partition_rows rs ?st1)), w')"
      "trace w' = trace w @ write_events (fst (partition_rows rs ?st1))"
      "cursor w' = cursor w" "transport w' = transport w" "no_faults w'" by blast
    then show ?thesis using False
      by (intro exI[of _ w']) (auto simp add: eq Let_def)
  qed
qed

text \<open>
  Whether its writes succeed or not, the partitioner only adds sink calls to the trace.
\<close>

lemma flushRows_frame:
  "\<exists>ev. trace (snd (flushRows st w)) = trace w @ ev \<and> no_terminal ev \<and> requests ev = []"
proof (cases "rowsToWrite st = []")
  case True
  then show ?thesis by (intro exI[of _ "[]"]) (simp add: flushRows_def no_terminal_def)
next
  case False
  obtain x w' where e: "writeCsvFile (rowsToWrite st) (athleteId st) (sessionId st) w = (x, w')"
    by (cases "writeCsvFile (rowsToWrite st) (athleteId st) (sessionId st) w")
  have t: "trace w' = trace w @ [WriteCsv (rowsToWrite st) (athleteId st) (sessionId st)]"
    using writeCsvFile_fields(1)[of "rowsToWrite st" "athleteId st" "sessionId st" w] e by simp
  show ?thesis
    using False e t
    by (intro exI[of _ "[WriteCsv (rowsToWrite st) (athleteId st) (sessionId st)]"])
       (cases x; simp add: flushRows_def no_terminal_def)
qed

lemma processRow_frame:
  "\<exists>ev. trace (snd (processRow r st w)) = trace w @ ev \<and> no_terminal ev \<and> requests ev = []"
proof -
  let ?c1 = "truthy (athleteId st) \<and> athleteId st \<noteq> get_prop r ''athleteid''"
  obtain x w1 where a: "(if ?c1 then flushRows st w else (Inr st, w)) = (x, w1)"
    by (cases "if ?c1 then flushRows st w else (Inr st, w)")
  have "\<exists>ev. trace w1 = trace w @ ev \<and> no_terminal ev \<and> requests ev = []"
  proof (cases ?c1)
    case True
    then show ?thesis using a flushRows_frame[of st w] by simp
  next
    case False
    then show ?thesis using a by (intro exI[of _ "[]"]) (auto simp: no_terminal_def)
  qed
  then obtain ev1 where t1: "trace w1 = trace w @ ev1" "no_terminal ev1" "requests ev1 = []"
    by auto
  show ?thesis
  proof (cases x)
    case (Inl e)
    then have "snd (processRow r st w) = w1" using a by (simp add: processRow_def Let_def)
    then show ?thesis using t1 by (intro exI[of _ ev1]) simp
  next
    case (Inr st1)
    let ?c2 = "truthy (sessionId st1) \<and> sessionId st1 \<noteq> get_prop r ''sessionid''"
    obtain y w2 where b: "(if ?c2 then flushRows st1 w1 else (Inr st1, w1)) = (y, w2)"
      by (cases "if ?c2 then flushRows st1 w1 else (Inr st1, w1)")
    have "\<exists>ev. trace w2 = trace w1 @ ev \<and> no_terminal ev \<and> requests ev = []"
    proof (cases ?c2)
      case True
      then show ?thesis using b flushRows_frame[of st1 w1] by simp
    next
      case False
      then show ?thesis using b by (intro exI[of _ "[]"]) (auto simp: no_terminal_def)
    qed
    then obtain ev2 where t2: "trace w2 = trace w1 @ ev2" "no_terminal ev2" "requests ev2 = []"
      by auto
    have "snd (processRow r st w) = w2"
      using a b Inr by (cases y) (simp_all add: processRow_def Let_def)
    then show ?thesis
      using t1 t2 by (intro exI[of _ "ev1 @ ev2"]) (simp add: no_terminal_def requests_append)
  qed
qed

lemma processRows_frame:
  "\<exists>ev. trace (snd (processRows rs st w)) = trace w @ ev \<and> no_terminal ev \<and> requests ev = []"
proof (induction rs arbitrary: st w)
  case Nil
  then show ?case by (intro exI[of _ "[]"]) (simp add: no_terminal_def)
next
  case (Cons r rs)
  obtain x w1 where a: "processRow r st w = (x, w1)" by (cases "processRow r st w")
  from processRow_frame[of r st w] a obtain ev1 where
    t1: "trace w1 = trace w @ ev1" "no_terminal ev1" "requests ev1 = []" by auto
  show ?case
  proof (cases x)
    case (Inl e)
    then show ?thesis using a t1 by (intro exI[of _ ev1]) simp
  next
    case (Inr st1)
    from Cons.IH[of st1 w1] obtain ev2 where
      t2: "trace (snd (processRows rs st1 w1)) = trace w1 @ ev2" "no_terminal ev2"
          "requests ev2 = []" by auto
    show ?thesis
      using a Inr t1 t2 by (intro exI[of _ "ev1 @ ev2"]) (simp add: no_terminal_def requests_append)
  qed
qed

lemma partition_rows_conserve:
  "concat (map fst (fst (partition_rows rs st))) @ rowsToWrite (snd (partition_rows rs st))
     = rowsToWrite st @ rs"
  by (induction rs arbitrary: st) (auto simp: Let_def)

lemma partition_rows_nonempty:
  "rowsToWrite st \<noteq> [] \<or> rs \<noteq> [] \<Longrightarrow> rowsToWrite (snd (partition_rows rs st)) \<noteq> []"
  by (induction rs arbitrary: st) (simp_all add: Let_def)

lemma sink_calls_conserve: "concat (map fst (sink_calls rs)) = rs"
  using partition_rows_conserve[of rs init_pstate]
  by (auto simp: sink_calls_def Let_def init_pstate_def)

section \<open>The export of a job whose pages are known\<close>

lemma partition_rows_append:
  "partition_rows (xs @ ys) st =
     (fst (partition_rows xs st) @ fst (partition_rows ys (snd (partition_rows xs st))),
      snd (partition_rows ys (snd (partition_rows xs st))))"
  by (induction xs arbitrary: st) (simp_all add: Let_def)

lemma plain_sessions_simps [simp]:
  "plain_sessions []"
  "plain_sessions (r # rs) = (slash_free (get_prop r ''sessionid'') \<and> plain_sessions rs)"
  "plain_sessions (xs @ ys) = (plain_sessions xs \<and> plain_sessions ys)"
  by (simp_all add: plain_sessions_def)

lemma slash_free_init [simp]: "slash_free (sessionId init_pstate)" "slash_free JNull"
  by (simp_all add: slash_free_def init_pstate_def)

lemma exportLoop_pages:
  assumes "truthy job"
  shows "serves_pages (transport w) (cursor w) ps \<Longrightarrow> length ps < fuel \<Longrightarrow>
     no_faults w \<Longrightarrow> slash_free (sessionId st) \<Longrightarrow> plain_sessions (concat ps) \<Longrightarrow>
     \<exists>w' ev. exportLoop fuel k u job off lim st w =
                Some (Inr (snd (partition_rows (concat ps) st)), w')
       \<and> trace w' = trace w @ ev
       \<and> writes ev = fst (partition_rows (concat ps) st)
       \<and> requests ev = map (\<lambda>x. GetResults k u job x lim) (page_offsets off ps)
       \<and> sleeps ev = replicate (length ps) 1000
       \<and> cursor w' = cursor w + Suc (length ps)
       \<and> transport w' = transport w \<and> no_faults w'"
proof (induction ps arbitrary: fuel off st w)
  case Nil
  then obtain n where f: "fuel = Suc n" by (cases fuel) auto
  from Nil obtain b where b: "transport w (cursor w) = Resp b" "data_rows b = Some []"
    by (auto split: outcome.splits)
  let ?w1 = "w\<lparr>cursor := Suc (cursor w),
               trace := trace w @ [Http (GetResults k u job off lim) (Resp b)]\<rparr>"
  have "exportLoop fuel k u job off lim st w = Some (Inr st, ?w1)"
    using b assms by (simp add: f getJobResults_resp)
  then show ?case using Nil.prems(3)
    by (intro exI[of _ ?w1] exI[of _ "[Http (GetResults k u job off lim) (Resp b)]"]) simp
next
  case (Cons p ps)
  then obtain n where f: "fuel = Suc n" and n: "length ps < n" by (cases fuel) auto
  from Cons.prems(1) obtain b where b: "transport w (cursor w) = Resp b" "data_rows b = Some p"
    and p: "p \<noteq> []" and rest: "serves_pages (transport w) (Suc (cursor w)) ps"
    by (auto split: outcome.splits)
  have pp: "plain_sessions p" and pps: "plain_sessions (concat ps)"
    using Cons.prems(5) by simp_all
  let ?w1 = "w\<lparr>cursor := Suc (cursor w),
               trace := trace w @ [Http (GetResults k u job off lim) (Resp b)]\<rparr>"
  let ?st1 = "snd (partition_rows p st)"
  have nf1: "no_faults ?w1" using Cons.prems(3) by (simp add: no_faults_def)
  obtain w2 where w2: "processRows p st ?w1 = (Inr ?st1, w2)"
      "trace w2 = trace ?w1 @ write_events (fst (partition_rows p st))"
      "cursor w2 = cursor ?w1" "transport w2 = transport ?w1" "no_faults w2"
    using processRows_partition[OF nf1 Cons.prems(4) pp] by blast
  have nf3: "no_faults (delay 1000 w2)" using w2(5) by simp
  have s1: "slash_free (sessionId ?st1)"
    using Cons.prems(4) pp by (rule partition_rows_session)
  let ?w3 = "delay 1000 w2"
  have step: "exportLoop fuel k u job off lim st w =
      exportLoop n k u job (off + int (length p)) lim ?st1 ?w3"
    using b assms p w2(1) by (simp add: f getJobResults_resp)
  have sp: "serves_pages (transport ?w3) (cursor ?w3) ps"
    using rest w2 by simp
  from Cons.IH[OF sp n nf3 s1 pps, of "off + int (length p)"] obtain w' ev where
    ih: "exportLoop n k u job (off + int (length p)) lim ?st1 ?w3 =
           Some (Inr (snd (partition_rows (concat ps) ?st1)), w')"
        "trace w' = trace ?w3 @ ev"
        "writes ev = fst (partition_rows (concat ps) ?st1)"
        "requests ev = map (\<lambda>x. GetResults k u job x lim) (page_offsets (off + int (length p)) ps)"
        "sleeps ev = replicate (length ps) 1000"
        "cursor w' = cursor ?w3 + Suc (length ps)"
        "transport w' = transport ?w3" "no_faults w'"
    by blast
  show ?case
    apply (rule exI[of _ w'])
    apply (rule exI[of _ "[Http (GetResults k u job off lim) (Resp b)]
                          @ write_events (fst (partition_rows p st)) @ [Sleep 1000] @ ev"])
    using ih w2 unfolding step
    by (simp add: partition_rows_append writes_append requests_append sleeps_append)
qed

lemma handleDataExport_pages:
  assumes "truthy job" "serves_pages (transport w) (cursor w) ps" "length ps < fuel"
    "no_faults w" "plain_sessions (concat ps)"
  shows "\<exists>w' ev. handleDataExport fuel k u job off lim w = Some (Inr (), w')
       \<and> trace w' = trace w @ ev
       \<and> writes ev = sink_calls (concat ps)
       \<and> requests ev = map (\<lambda>x. GetResults k u job x lim) (page_offsets off ps)
       \<and> sleeps ev = replicate (length ps) 1000
       \<and> cursor w' = cursor w + Suc (length ps)
       \<and> transport w' = transport w \<and> no_faults w'
       \<and> (ps \<noteq> [] \<longrightarrow> (\<exists>rows a s. last ev = WriteCsv rows a s))"
proof -
  let ?st = "snd (partition_rows (concat ps) init_pstate)"
  have s0: "slash_free (sessionId init_pstate)" by simp
  from exportLoop_pages[OF assms(1-4) s0 assms(5), of k u off lim] obtain w1 ev where
    h: "exportLoop fuel k u job off lim init_pstate w = Some (Inr ?st, w1)"
       "trace w1 = trace w @ ev"
       "writes ev = fst (partition_rows (concat ps) init_pstate)"
       "requests ev = map (\<lambda>x. GetResults k u job x lim) (page_offsets off ps)"
       "sleeps ev = replicate (length ps) 1000"
       "cursor w1 = cursor w + Suc (length ps)"
       "transport w1 = transport w" "no_faults w1"
    by blast
  have sf: "slash_free (sessionId ?st)"
    using s0 assms(5) by (rule partition_rows_session)
  show ?thesis
  proof (cases "rowsToWrite ?st = []")
    case True
    have "concat ps = []"
      using partition_rows_nonempty[of init_pstate "concat ps"] True by auto
    moreover have "ps \<noteq> [] \<Longrightarrow> concat ps \<noteq> []"
      using assms(2) by (cases ps) auto
    ultimately have "ps = []" by blast
    then show ?thesis
      using h True
      by (intro exI[of _ w1] exI[of _ ev])
         (simp add: handleDataExport_def sink_calls_def init_pstate_def Let_def)
  next
    case False
    let ?w2 = "snd (writeCsvFile (rowsToWrite ?st) (athleteId ?st) (sessionId ?st) w1)"
    obtain x w2 where e: "writeCsvFile (rowsToWrite ?st) (athleteId ?st) (sessionId ?st) w1 = (x, w2)"
      by (cases "writeCsvFile (rowsToWrite ?st) (athleteId ?st) (sessionId ?st) w1")
    have x: "x = Inr ()" using writeCsvFile_ok[OF False h(8) sf, of "athleteId ?st"] e by simp
    have w2: "trace w2 = trace w1 @ [WriteCsv (rowsToWrite ?st) (athleteId ?st) (sessionId ?st)]"
        "cursor w2 = cursor w1" "transport w2 = transport w1" "no_faults w2"
      using writeCsvFile_fields[of "rowsToWrite ?st" "athleteId ?st" "sessionId ?st" w1]
        no_faults_writeCsvFile[of "rowsToWrite ?st" "athleteId ?st" "sessionId ?st" w1] h(8) e
      by simp_all
    show ?thesis
      apply (rule exI[of _ w2])
      apply (rule exI[of _ "ev @ [WriteCsv (rowsToWrite ?st) (athleteId ?st) (sessionId ?st)]"])
      using h False e x w2
      by (simp add: handleDataExport_def sink_calls_def init_pstate_def Let_def
            writes_append requests_append sleeps_append)
  qed
qed


section \<open>Runs of rows with one key\<close>

lemma runs_not_Nil: "runs (r # rs) \<noteq> []"
  by (simp split: list.splits)

lemma hd_hd_runs: "hd (hd (runs (r # rs))) = r"
  by (simp split: list.splits)

lemma runs_same_key:
  "xs \<noteq> [] \<Longrightarrow> \<forall>x\<in>set xs. row_key x = k \<Longrightarrow> runs xs = [xs]"
proof (induction xs)
  case Nil then show ?case by simp
next
  case (Cons x xs)
  show ?case
  proof (cases xs)
    case Nil then show ?thesis by simp
  next
    case (Cons y ys)
    then have "runs xs = [xs]" using Cons.IH Cons.prems by simp
    then show ?thesis using Cons Cons.prems by simp
  qed
qed

lemma runs_append_diff:
  "xs \<noteq> [] \<Longrightarrow> \<forall>x\<in>set xs. row_key x = k \<Longrightarrow> row_key y \<noteq> k \<Longrightarrow>
   runs (xs @ y # ys) = xs # runs (y # ys)"
proof (induction xs)
  case Nil then show ?case by simp
next
  case (Cons x xs)
  show ?case
  proof (cases xs)
    case Nil
    obtain g gs where g: "runs (y # ys) = g # gs" using runs_not_Nil[of y ys] by (cases "runs (y # ys)") auto
    have "hd g = y" using hd_hd_runs[of y ys] g by simp
    then show ?thesis using Nil g Cons.prems by simp
  next
    case (Cons z zs)
    then have "runs (xs @ y # ys) = xs # runs (y # ys)" using Cons.IH Cons.prems by simp
    then show ?thesis using Cons Cons.prems by simp
  qed
qed

lemma runs_append_same:
  "xs \<noteq> [] \<Longrightarrow> \<forall>x\<in>set xs. row_key x = k \<Longrightarrow> row_key y = k \<Longrightarrow>
   runs (xs @ y # ys) = (xs @ hd (runs (y # ys))) # tl (runs (y # ys))"
proof (induction xs)
  case Nil then show ?case by simp
next
  case (Cons x xs)
  obtain g gs where g: "runs (y # ys) = g # gs" using runs_not_Nil[of y ys] by (cases "runs (y # ys)") auto
  have hg: "hd g = y" using hd_hd_runs[of y ys] g by simp
  show ?case
  proof (cases xs)
    case Nil
    then show ?thesis using g hg Cons.prems by simp
  next
    case (Cons z zs)
    then have "runs (xs @ y # ys) = (xs @ hd (runs (y # ys))) # tl (runs (y # ys))"
      using Cons.IH Cons.prems by simp
    then show ?thesis using Cons Cons.prems g by simp
  qed
qed

lemma key_changed_truthy:
  "truthy (athleteId st) \<Longrightarrow> truthy (sessionId st) \<Longrightarrow>
   key_changed st r = (row_key r \<noteq> (athleteId st, sessionId st))"
  by (auto simp: key_changed_def row_key_def)

lemma partition_rows_runs:
  "held st \<Longrightarrow> truthy_keys rs \<Longrightarrow> rowsToWrite st @ rs \<noteq> [] \<Longrightarrow>
   fst (partition_rows rs st) @
     [(rowsToWrite (snd (partition_rows rs st)), athleteId (snd (partition_rows rs st)),
       sessionId (snd (partition_rows rs st)))]
   = map flush_of (runs (rowsToWrite st @ rs))"
proof (induction rs arbitrary: st)
  case Nil
  then have b: "rowsToWrite st \<noteq> []" by simp
  with Nil have k: "\<forall>r\<in>set (rowsToWrite st). row_key r = (athleteId st, sessionId st)"
    by (simp add: held_def)
  have "runs (rowsToWrite st) = [rowsToWrite st]" using runs_same_key[OF b k] .
  moreover have "row_key (hd (rowsToWrite st)) = (athleteId st, sessionId st)"
    using b k by (cases "rowsToWrite st") auto
  ultimately show ?case by (simp add: flush_of_def)
next
  case (Cons r rs)
  have tr: "truthy (get_prop r ''athleteid'')" "truthy (get_prop r ''sessionid'')"
    and trs: "truthy_keys rs"
    using Cons.prems(2) by (simp_all add: truthy_keys_def)
  show ?case
  proof (cases "rowsToWrite st = []")
    case True
    let ?st1 = "\<lparr>sessionId = get_prop r ''sessionid'', athleteId = get_prop r ''athleteid'',
                 rowsToWrite = [r]\<rparr>"
    have h1: "held ?st1" using tr by (simp add: held_def row_key_def)
    from Cons.IH[OF h1 trs] True show ?thesis by (simp add: Let_def)
  next
    case False
    with Cons.prems(1) have
      k: "\<forall>x\<in>set (rowsToWrite st). row_key x = (athleteId st, sessionId st)"
      and t: "truthy (athleteId st)" "truthy (sessionId st)"
      by (simp_all add: held_def)
    have hk: "row_key (hd (rowsToWrite st)) = (athleteId st, sessionId st)"
      using False k by (cases "rowsToWrite st") auto
    show ?thesis
    proof (cases "key_changed st r")
      case True
      then have d: "row_key r \<noteq> (athleteId st, sessionId st)"
        using key_changed_truthy[OF t] by simp
      let ?st1 = "\<lparr>sessionId = get_prop r ''sessionid'', athleteId = get_prop r ''athleteid'',
                   rowsToWrite = [r]\<rparr>"
      have h1: "held ?st1" using tr by (simp add: held_def row_key_def)
      have "runs (rowsToWrite st @ r # rs) = rowsToWrite st # runs (r # rs)"
        using runs_append_diff[OF False k d] .
      moreover from Cons.IH[OF h1 trs] have
        "fst (partition_rows rs ?st1) @
           [(rowsToWrite (snd (partition_rows rs ?st1)), athleteId (snd (partition_rows rs ?st1)),
             sessionId (snd (partition_rows rs ?st1)))] = map flush_of (runs (r # rs))"
        by simp
      ultimately show ?thesis using True False hk
        by (simp add: Let_def flush_of_def)
    next
      case nc: False
      then have s: "row_key r = (athleteId st, sessionId st)"
        using key_changed_truthy[OF t] by simp
      let ?st1 = "\<lparr>sessionId = get_prop r ''sessionid'', athleteId = get_prop r ''athleteid'',
                   rowsToWrite = rowsToWrite st @ [r]\<rparr>"
      have h1: "held ?st1" using tr k s by (auto simp: held_def row_key_def)
      from Cons.IH[OF h1 trs] show ?thesis using nc by (simp add: Let_def)
    qed
  qed
qed

lemma sink_calls_runs: "truthy_keys rs \<Longrightarrow> sink_calls rs = map flush_of (runs rs)"
proof (cases "rs = []")
  case True
  then show ?thesis by (simp add: sink_calls_def init_pstate_def Let_def)
next
  case False
  assume t: "truthy_keys rs"
  have h: "held init_pstate" by (simp add: held_def init_pstate_def)
  have ne: "rowsToWrite (snd (partition_rows rs init_pstate)) \<noteq> []"
    using partition_rows_nonempty[of init_pstate rs] False by simp
  from partition_rows_runs[OF h t] False ne show ?thesis
    by (simp add: sink_calls_def Let_def init_pstate_def)
qed

text \<open>
  The runs are what their name says: they make up the rows, each has one key, and
  neighbours differ in their keys.
\<close>

lemma concat_runs: "concat (runs rs) = rs"
  by (induction rs) (auto split: list.splits)

lemma runs_groups:
  "g \<in> set (runs rs) \<Longrightarrow> g \<noteq> [] \<and> (\<forall>r\<in>set g. row_key r = row_key (hd g))"
proof (induction rs arbitrary: g)
  case Nil then show ?case by simp
next
  case (Cons r rs)
  then show ?case by (auto split: list.splits if_splits)
qed

lemma runs_maximal:
  "runs rs = gs1 @ g # h # gs2 \<Longrightarrow> row_key (last g) \<noteq> row_key (hd h)"
proof (induction rs arbitrary: gs1 g)
  case Nil then show ?case by simp
next
  case (Cons r rs)
  show ?case
  proof (cases "runs rs")
    case Nil
    then show ?thesis using Cons.prems by (cases gs1) auto
  next
    case c: (Cons g0 gs0)
    have g0: "g0 \<noteq> []" using runs_groups[of g0 rs] c by simp
    show ?thesis
    proof (cases "row_key r = row_key (hd g0)")
      case True
      then have e: "(r # g0) # gs0 = gs1 @ g # h # gs2" using Cons.prems c by simp
      show ?thesis
      proof (cases gs1)
        case Nil
        then have "g = r # g0" "gs0 = h # gs2" using e by simp_all
        then have "runs rs = [] @ g0 # h # gs2" using c by simp
        from Cons.IH[OF this] show ?thesis using \<open>g = r # g0\<close> g0 by simp
      next
        case (Cons a as)
        then have "runs rs = (g0 # as) @ g # h # gs2" using e c by simp
        from Cons.IH[OF this] show ?thesis .
      qed
    next
      case False
      then have e: "[r] # g0 # gs0 = gs1 @ g # h # gs2" using Cons.prems c by simp
      show ?thesis
      proof (cases gs1)
        case Nil
        then show ?thesis using e False by auto
      next
        case (Cons a as)
        then have "runs rs = as @ g # h # gs2" using e c by simp
        from Cons.IH[OF this] show ?thesis .
      qed
    qed
  qed
qed


section \<open>Terminal polls in the trace\<close>

lemma no_terminal_simps [simp]:
  "no_terminal []" "no_terminal (e # es) = (\<not> terminal_poll e \<and> no_terminal es)"
  "no_terminal (xs @ ys) = (no_terminal xs \<and> no_terminal ys)"
  by (simp_all add: no_terminal_def)

lemma halted_clean: "no_terminal ev \<Longrightarrow> halted ev r"
  by (simp add: halted_def)

lemma halted_prepend:
  assumes "no_terminal a" "halted b r"
  shows "halted (a @ b) r"
proof (cases "no_terminal b")
  case True
  then show ?thesis using assms(1) by (simp add: halted_def)
next
  case False
  with assms(2) obtain ev0 k u job bd where
    h: "b = ev0 @ [Http (GetJob k u job) (Resp bd)]" "no_terminal ev0"
       "data_status bd = JStr ''FAILED'' \<or> data_status bd = JStr ''CANCELED''"
       "r = Inl (JobTerminal (data_status bd))"
    unfolding halted_def by blast
  have "a @ b = (a @ ev0) @ [Http (GetJob k u job) (Resp bd)]" using h(1) by simp
  moreover have "no_terminal (a @ ev0)" using assms(1) h(2) by simp
  ultimately show ?thesis using h(3,4) unfolding halted_def by blast
qed

lemma halted_terminal:
  "no_terminal ev0 \<Longrightarrow> data_status b = JStr ''FAILED'' \<or> data_status b = JStr ''CANCELED'' \<Longrightarrow>
   halted (ev0 @ [Http (GetJob k u job) (Resp b)]) (Inl (JobTerminal (data_status b)))"
  unfolding halted_def by blast

lemma halted_ok: "halted ev (Inr v) \<Longrightarrow> no_terminal ev"
  unfolding halted_def by blast

lemma makeRequest_events:
  "\<exists>ev. trace (snd (makeRequest req mr rd rc w)) = trace w @ ev \<and>
     (case fst (makeRequest req mr rd rc w) of
        Inl e \<Rightarrow> no_terminal ev
      | Inr b \<Rightarrow> \<exists>ev0. ev = ev0 @ [Http req (Resp b)] \<and> no_terminal ev0)"
proof (induction req mr rd rc w rule: makeRequest.induct)
  case (1 req mr rd rc w)
  show ?case
  proof (cases "transport w (cursor w)")
    case (Resp b)
    then show ?thesis
      by (intro exI[of _ "[Http req (Resp b)]"]) (simp add: makeRequest_ok)
  next
    case (Fail st)
    show ?thesis
    proof (cases "st = Some 504 \<and> int rc < mr")
      case True
      let ?w1 = "delay (rd * 2 ^ (Suc rc - 1)) (snd (axios req w))"
      have fa: "fst (axios req w) = Fail st" using Fail by simp
      from "1.IH"[OF prod.collapse fa True refl refl] obtain ev where
        h: "trace (snd (makeRequest req mr rd (Suc rc) ?w1)) = trace ?w1 @ ev"
           "case fst (makeRequest req mr rd (Suc rc) ?w1) of
              Inl e \<Rightarrow> no_terminal ev
            | Inr b \<Rightarrow> \<exists>ev0. ev = ev0 @ [Http req (Resp b)] \<and> no_terminal ev0"
        by blast
      have eq: "makeRequest req mr rd rc w = makeRequest req mr rd (Suc rc) ?w1"
        using Fail True by (simp add: makeRequest_retry)
      show ?thesis
        apply (rule exI[of _ "[Http req (Fail (Some 504)), Sleep (rd * 2 ^ rc)] @ ev"])
        using h Fail True unfolding eq
        by (auto split: sum.splits)
    next
      case False
      then have eq: "makeRequest req mr rd rc w =
          (Inl (AxiosError st), emit (Console (handleError st)) (snd (axios req w)))"
        using Fail by (intro makeRequest_terminal) auto
      show ?thesis unfolding eq
        by (intro exI[of _ "[Http req (Fail st), Console (handleError st)]"]) (simp add: Fail)
    qed
  qed
qed

lemma createExportJob_clean:
  "\<exists>ev. trace (snd (createExportJob k u d mr rd w)) = trace w @ ev \<and> no_terminal ev"
proof -
  obtain x w' where e: "makeRequest (PostExport k u d) mr rd 0 w = (x, w')"
    by (cases "makeRequest (PostExport k u d) mr rd 0 w")
  show ?thesis
    using makeRequest_events[of "PostExport k u d" mr rd 0 w] e
    by (cases x) (auto simp: snd_createExportJob)
qed

lemma getJobResults_clean:
  "\<exists>ev. trace (snd (getJobResults k u job off lim mr rd w)) = trace w @ ev \<and> no_terminal ev"
proof (cases "truthy job")
  case True
  obtain x w' where e: "makeRequest (GetResults k u job off lim) mr rd 0 w = (x, w')"
    by (cases "makeRequest (GetResults k u job off lim) mr rd 0 w")
  show ?thesis
    using makeRequest_events[of "GetResults k u job off lim" mr rd 0 w] e True
    by (cases x) (auto simp: snd_getJobResults)
next
  case False
  then show ?thesis by (simp add: getJobResults_def)
qed

lemma getJobStatus_events:
  "\<exists>ev. trace (snd (getJobStatus k u job mr rd w)) = trace w @ ev \<and>
     (case fst (getJobStatus k u job mr rd w) of
        Inl e \<Rightarrow> no_terminal ev
      | Inr status \<Rightarrow> ev = [] \<and> status = JUndefined \<or>
          (\<exists>ev0 b. ev = ev0 @ [Http (GetJob k u job) (Resp b)] \<and> no_terminal ev0
             \<and> status = data_status b))"
proof (cases "truthy job")
  case True
  obtain x w' where e: "makeRequest (GetJob k u job) mr rd 0 w = (x, w')"
    by (cases "makeRequest (GetJob k u job) mr rd 0 w")
  show ?thesis
    using makeRequest_events[of "GetJob k u job" mr rd 0 w] True e
    by (cases x) (auto simp: getJobStatus_def)
next
  case False
  then show ?thesis by (simp add: getJobStatus_def)
qed

lemma checkJobStatus_halted:
  "checkJobStatus n k u job w = Some (r, w') \<Longrightarrow>
   \<exists>ev. trace w' = trace w @ ev \<and> halted ev r"
proof (induction n arbitrary: w)
  case 0
  then show ?case by simp
next
  case (Suc n)
  obtain x w1 where g: "getJobStatus k u job 3 2000 w = (x, w1)"
    by (cases "getJobStatus k u job 3 2000 w")
  from getJobStatus_events[of k u job 3 2000 w] g obtain ev1 where
    t1: "trace w1 = trace w @ ev1" and
    c1: "case x of Inl e \<Rightarrow> no_terminal ev1
         | Inr status \<Rightarrow> ev1 = [] \<and> status = JUndefined \<or>
             (\<exists>ev0 b. ev1 = ev0 @ [Http (GetJob k u job) (Resp b)] \<and> no_terminal ev0
                \<and> status = data_status b)"
    by auto
  show ?case
  proof (cases x)
    case (Inl e)
    then have "r = Inl e" "w' = w1" using Suc.prems g by simp_all
    then show ?thesis using t1 c1 Inl by (auto intro: halted_clean)
  next
    case (Inr status)
    consider (comp) "status = JStr ''COMPLETED''"
      | (fail) "status = JStr ''FAILED'' \<or> status = JStr ''CANCELED''"
      | (run) "status = JStr ''RUNNING''"
      | (other) "status \<noteq> JStr ''COMPLETED''" "status \<noteq> JStr ''FAILED''"
                "status \<noteq> JStr ''CANCELED''" "status \<noteq> JStr ''RUNNING''"
      by auto
    then show ?thesis
    proof cases
      case comp
      then have "w' = w1" using Suc.prems g Inr by simp
      moreover have "no_terminal ev1" using c1 Inr comp by auto
      ultimately show ?thesis using t1 by (auto intro: halted_clean)
    next
      case fail
      then have rw: "r = Inl (JobTerminal status)" "w' = w1" using Suc.prems g Inr by auto
      from c1 Inr fail obtain ev0 b where
        "ev1 = ev0 @ [Http (GetJob k u job) (Resp b)]" "no_terminal ev0" "status = data_status b"
        by auto
      then have "halted ev1 r" using fail rw by (simp add: halted_terminal)
      then show ?thesis using t1 rw by (intro exI[of _ ev1]) simp
    next
      case run
      then have rec: "checkJobStatus n k u job (delay 5000 w1) = Some (r, w')"
        using Suc.prems g Inr by simp
      from Suc.IH[OF rec] obtain ev2 where
        t2: "trace w' = trace (delay 5000 w1) @ ev2" and h2: "halted ev2 r" by blast
      have n1: "no_terminal ev1" using c1 Inr run by auto
      have "halted ((ev1 @ [Sleep 5000]) @ ev2) r"
        using n1 h2 by (intro halted_prepend) simp_all
      then show ?thesis using t1 t2 by (intro exI[of _ "(ev1 @ [Sleep 5000]) @ ev2"]) simp
    next
      case other
      then have "w' = w1" using Suc.prems g Inr by simp
      moreover have "no_terminal ev1" using c1 Inr other by auto
      ultimately show ?thesis using t1 by (auto intro: halted_clean)
    qed
  qed
qed

lemma checkJobStatus_ok_clean:
  assumes "checkJobStatus n k u job w = Some (Inr v, w')"
  shows "\<exists>ev. trace w' = trace w @ ev \<and> no_terminal ev"
proof -
  from checkJobStatus_halted[OF assms] obtain ev where
    e: "trace w' = trace w @ ev" and h: "halted ev (Inr v :: error + jsval)" by auto
  from h have "no_terminal ev" by (rule halted_ok)
  with e show ?thesis by (intro exI[of _ ev]) simp
qed

lemma halted_Inl_cast: "halted ev (Inl e :: error + 'a) \<Longrightarrow> halted ev (Inl e :: error + 'b)"
  by (simp add: halted_def)

lemma exportLoop_clean:
  "exportLoop n k u job off lim st w = Some (r, w') \<Longrightarrow>
   \<exists>ev. trace w' = trace w @ ev \<and> no_terminal ev"
proof (induction n arbitrary: off st w)
  case 0
  then show ?case by simp
next
  case (Suc n)
  obtain x w1 where g: "getJobResults k u job off lim 3 2000 w = (x, w1)"
    by (cases "getJobResults k u job off lim 3 2000 w")
  from getJobResults_clean[of k u job off lim 3 2000 w] g obtain ev1 where
    t1: "trace w1 = trace w @ ev1" "no_terminal ev1" by auto
  have fin: ?case if "w' = w1" using that t1 by (intro exI[of _ ev1]) simp
  show ?case
  proof (cases x)
    case (Inl e)
    then show ?thesis using Suc.prems g fin by simp
  next
    case (Inr res)
    show ?thesis
    proof (cases res)
      case None
      then show ?thesis using Suc.prems g Inr fin by simp
    next
      case (Some b)
      show ?thesis
      proof (cases "data_rows b")
        case None
        then show ?thesis using Suc.prems g Inr Some fin by simp
      next
        case rs: (Some rs)
        show ?thesis
        proof (cases "rs = []")
          case True
          then show ?thesis using Suc.prems g Inr Some rs fin by simp
        next
          case False
          obtain y w2 where p: "processRows rs st w1 = (y, w2)"
            by (cases "processRows rs st w1")
          from processRows_frame[of rs st w1] p obtain ev2 where
            t2: "trace w2 = trace w1 @ ev2" "no_terminal ev2" by auto
          show ?thesis
          proof (cases y)
            case e: (Inl e)
            then have "w' = w2" using Suc.prems g Inr Some rs False p by simp
            then show ?thesis using t1 t2 by (intro exI[of _ "ev1 @ ev2"]) simp
          next
            case st1: (Inr st1)
            have rec: "exportLoop n k u job (off + int (length rs)) lim st1 (delay 1000 w2)
                       = Some (r, w')"
              using Suc.prems g Inr Some rs False p st1 by simp
            from Suc.IH[OF rec] obtain ev3 where
              t3: "trace w' = trace (delay 1000 w2) @ ev3" "no_terminal ev3" by auto
            show ?thesis
              using t1 t2 t3 by (intro exI[of _ "ev1 @ ev2 @ [Sleep 1000] @ ev3"]) simp
          qed
        qed
      qed
    qed
  qed
qed

lemma handleDataExport_clean:
  assumes "handleDataExport n k u job off lim w = Some (r, w')"
  shows "\<exists>ev. trace w' = trace w @ ev \<and> no_terminal ev"
proof -
  let ?st0 = "\<lparr>sessionId = JNull, athleteId = JNull, rowsToWrite = []\<rparr>"
  from assms obtain x w1 where l: "exportLoop n k u job off lim ?st0 w = Some (x, w1)"
    by (cases "exportLoop n k u job off lim ?st0 w") (auto simp: handleDataExport_def)
  from exportLoop_clean[OF l] obtain ev1 where t1: "trace w1 = trace w @ ev1" "no_terminal ev1"
    by auto
  show ?thesis
  proof (cases x)
    case (Inl e)
    then have "w' = w1" using assms l by (simp add: handleDataExport_def)
    then show ?thesis using t1 by (intro exI[of _ ev1]) simp
  next
    case (Inr st)
    show ?thesis
    proof (cases "rowsToWrite st = []")
      case True
      then have "w' = w1" using assms l Inr by (simp add: handleDataExport_def)
      then show ?thesis using t1 by (intro exI[of _ ev1]) simp
    next
      case False
      then have "w' = snd (writeCsvFile (rowsToWrite st) (athleteId st) (sessionId st) w1)"
        using assms l Inr by (auto simp: handleDataExport_def split: prod.splits sum.splits)
      then have "trace w' = trace w1 @ [WriteCsv (rowsToWrite st) (athleteId st) (sessionId st)]"
        by simp
      then show ?thesis using t1
        by (intro exI[of _ "ev1 @ [WriteCsv (rowsToWrite st) (athleteId st) (sessionId st)]"]) simp
    qed
  qed
qed

lemma processCategory_halted:
  assumes "processCategory n k u c w = Some (r, w')"
  shows "\<exists>ev. trace w' = trace w @ ev \<and> halted ev r"
proof -
  let ?d = "\<lparr>activity = activity c, movement = movement c, startTime = 1604807785,
             endTime = None, dateMode = ''last_modified''\<rparr>"
  obtain x w1 where c: "createExportJob k u ?d 3 2000 w = (x, w1)"
    by (cases "createExportJob k u ?d 3 2000 w")
  from createExportJob_clean[of k u ?d 3 2000 w] c obtain ev1 where
    t1: "trace w1 = trace w @ ev1" "no_terminal ev1" by auto
  have fin: ?thesis if "w' = w1"
    using that t1 by (intro exI[of _ ev1]) (simp add: halted_clean)
  show ?thesis
  proof (cases x)
    case (Inl e)
    then show ?thesis using assms c fin by (simp add: processCategory_def)
  next
    case (Inr job)
    show ?thesis
    proof (cases "truthy job")
      case False
      then show ?thesis using assms c Inr fin by (simp add: processCategory_def)
    next
      case True
      from assms c Inr True obtain y w2 where p: "checkJobStatus n k u job w1 = Some (y, w2)"
        by (cases "checkJobStatus n k u job w1") (auto simp: processCategory_def)
      from checkJobStatus_halted[OF p] obtain ev2 where
        t2: "trace w2 = trace w1 @ ev2" "halted ev2 y" by auto
      show ?thesis
      proof (cases y)
        case (Inl e)
        then have rw: "r = Inl e" "w' = w2"
          using assms c Inr True p by (simp_all add: processCategory_def)
        have "halted ev2 (Inl e :: error + unit)"
          using t2(2) Inl by (auto intro: halted_Inl_cast)
        then have "halted (ev1 @ ev2) r" using t1(2) rw by (auto intro: halted_prepend)
        then show ?thesis using t1 t2 rw by (intro exI[of _ "ev1 @ ev2"]) simp
      next
        case v: (Inr v)
        then have n2: "no_terminal ev2" using t2 by (auto dest: halted_ok)
        show ?thesis
        proof (cases "truthy v")
          case False
          then have "w' = w2" using assms c Inr True p v by (simp add: processCategory_def)
          then show ?thesis using t1 t2 n2
            by (intro exI[of _ "ev1 @ ev2"]) (simp add: halted_clean)
        next
          case tv: True
          then have h: "handleDataExport n k u job 0 500 w2 = Some (r, w')"
            using assms c Inr True p v by (simp add: processCategory_def)
          from handleDataExport_clean[OF h] obtain ev3 where
            "trace w' = trace w2 @ ev3" "no_terminal ev3" by auto
          then show ?thesis using t1 t2 n2
            by (intro exI[of _ "ev1 @ ev2 @ ev3"]) (simp add: halted_clean)
        qed
      qed
    qed
  qed
qed

lemma processCategories_halted:
  "processCategories n k u cs w = Some (r, w') \<Longrightarrow>
   \<exists>ev. trace w' = trace w @ ev \<and> halted ev r"
proof (induction cs arbitrary: w)
  case Nil
  then show ?case by (auto intro: halted_clean)
next
  case (Cons c cs)
  from Cons.prems obtain x w1 where p: "processCategory n k u c w = Some (x, w1)"
    by (cases "processCategory n k u c w") auto
  from processCategory_halted[OF p] obtain ev1 where
    t1: "trace w1 = trace w @ ev1" "halted ev1 x" by auto
  show ?case
  proof (cases x)
    case (Inl e)
    then have "r = Inl e" "w' = w1" using Cons.prems p by simp_all
    then show ?thesis using t1 Inl by (intro exI[of _ ev1]) simp
  next
    case (Inr v)
    then have rec: "processCategories n k u cs w1 = Some (r, w')" using Cons.prems p by simp
    from Cons.IH[OF rec] obtain ev2 where t2: "trace w' = trace w1 @ ev2" "halted ev2 r" by auto
    have "no_terminal ev1" using t1 Inr by (auto dest: halted_ok)
    then have "halted (ev1 @ ev2) r" using t2 by (intro halted_prepend)
    then show ?thesis using t1 t2 by (intro exI[of _ "ev1 @ ev2"]) simp
  qed
qed

lemma halted_decompose:
  assumes "halted ev r" "ev = pre @ Http (GetJob k u job) (Resp b) # post"
    "data_status b = JStr ''FAILED'' \<or> data_status b = JStr ''CANCELED''"
  shows "post = [] \<and> r = Inl (JobTerminal (data_status b))"
proof -
  have tp: "terminal_poll (Http (GetJob k u job) (Resp b))" using assms(3) by simp
  then have "\<not> no_terminal ev" using assms(2) by simp
  with assms(1) obtain ev0 k' u' job' b' where
    e: "ev = ev0 @ [Http (GetJob k' u' job') (Resp b')]" "no_terminal ev0"
       "r = Inl (JobTerminal (data_status b'))"
    by (auto simp: halted_def)
  show ?thesis
  proof (cases post rule: rev_cases)
    case Nil
    then show ?thesis using e assms(2) by auto
  next
    case (snoc ys y)
    then have "ev0 = pre @ Http (GetJob k u job) (Resp b) # ys" using e(1) assms(2) by simp
    then show ?thesis using e(2) tp by simp
  qed
qed


section \<open>Runs of the orchestrator\<close>

lemma job_fails_run:
  "handleExportProcess (Suc (Suc 0)) (JStr ''key'') (JStr ''https://api'') job_fails_world =
     Some (Inl (JobTerminal (JStr ''FAILED'')),
           job_fails_world\<lparr>cursor := Suc (Suc (Suc 0)),
             trace := [Http (PostExport (JStr ''key'') (JStr ''https://api'') hitting_data)
                         (Resp created_body),
                       Http (GetJob (JStr ''key'') (JStr ''https://api'') (JStr ''job-1''))
                         (Resp running_body),
                       Sleep 5000,
                       Http (GetJob (JStr ''key'') (JStr ''https://api'') (JStr ''job-1''))
                         (Resp failed_body)]\<rparr>)"
proof -
  let ?k = "JStr ''key''" and ?u = "JStr ''https://api''" and ?j = "JStr ''job-1''"
  let ?w0 = job_fails_world
  let ?w1 = "?w0\<lparr>cursor := Suc 0, trace := [Http (PostExport ?k ?u hitting_data) (Resp created_body)]\<rparr>"
  let ?w2 = "?w1\<lparr>cursor := Suc (Suc 0),
                  trace := trace ?w1 @ [Http (GetJob ?k ?u ?j) (Resp running_body)]\<rparr>"
  let ?w3 = "delay 5000 ?w2"
  let ?w4 = "?w3\<lparr>cursor := Suc (Suc (Suc 0)),
                  trace := trace ?w3 @ [Http (GetJob ?k ?u ?j) (Resp failed_body)]\<rparr>"
  have t: "transport ?w0 = scripted [Resp created_body, Resp running_body, Resp failed_body]"
      "cursor ?w0 = 0" "trace ?w0 = []"
    by (simp_all add: job_fails_world_def init_world_def)
  have c: "createExportJob ?k ?u hitting_data 3 2000 ?w0 = (Inr ?j, ?w1)"
    by (subst createExportJob_resp[where b = created_body])
       (simp_all add: t scripted_def created_body_def)
  have g1: "getJobStatus ?k ?u ?j 3 2000 ?w1 = (Inr (JStr ''RUNNING''), ?w2)"
    by (subst getJobStatus_resp[where b = running_body])
       (simp_all add: t scripted_def running_body_def)
  have g2: "getJobStatus ?k ?u ?j 3 2000 ?w3 = (Inr (JStr ''FAILED''), ?w4)"
    by (subst getJobStatus_resp[where b = failed_body])
       (simp_all add: t scripted_def failed_body_def)
  have p: "checkJobStatus (Suc (Suc 0)) ?k ?u ?j ?w1 = Some (Inl (JobTerminal (JStr ''FAILED'')), ?w4)"
  proof -
    have s1: "checkJobStatus (Suc (Suc 0)) ?k ?u ?j ?w1 = checkJobStatus (Suc 0) ?k ?u ?j ?w3"
      using g1 by simp
    have s2: "checkJobStatus (Suc 0) ?k ?u ?j ?w3 = Some (Inl (JobTerminal (JStr ''FAILED'')), ?w4)"
      using g2 by simp
    show ?thesis by (simp only: s1 s2)
  qed
  have pc: "processCategory (Suc (Suc 0)) ?k ?u hitting ?w0 =
      Some (Inl (JobTerminal (JStr ''FAILED'')), ?w4)"
    using c p by (simp add: processCategory_def hitting_def hitting_data_def)
  have "handleExportProcess (Suc (Suc 0)) ?k ?u ?w0 = Some (Inl (JobTerminal (JStr ''FAILED'')), ?w4)"
    using pc by (simp add: handleExportProcess_def categories_def hitting_def)
  then show ?thesis by (simp add: t delay_def emit_def)
qed

lemma checkJobStatus_nth_poll:
  "nth_poll i k u job w = Some wi \<Longrightarrow> getJobStatus k u job 3 2000 wi = (Inr status, wt) \<Longrightarrow>
   status = JStr ''FAILED'' \<or> status = JStr ''CANCELED'' \<Longrightarrow> i < fuel \<Longrightarrow>
   checkJobStatus fuel k u job w = Some (Inl (JobTerminal status), wt)"
proof (induction i arbitrary: fuel w)
  case 0
  then obtain n where f: "fuel = Suc n" by (cases fuel) auto
  from 0 show ?case unfolding f by auto
next
  case (Suc i)
  then obtain n where f: "fuel = Suc n" and n: "i < n" by (cases fuel) auto
  obtain x w1 where g: "getJobStatus k u job 3 2000 w = (x, w1)"
    by (cases "getJobStatus k u job 3 2000 w")
  from Suc.prems(1) g have x: "x = Inr (JStr ''RUNNING'')"
    and rest: "nth_poll i k u job (delay 5000 w1) = Some wi"
    by (auto split: sum.splits if_splits)
  from Suc.IH[OF rest Suc.prems(2,3) n]
  show ?case unfolding f using g x by simp
qed

lemma job_canceled_polls:
  "createExportJob (JStr ''key'') (JStr ''https://api'') (request_data hitting) 3 2000
     job_canceled_world =
     (Inr (JStr ''job-1''),
      job_canceled_world\<lparr>cursor := Suc 0,
        trace := [Http (PostExport (JStr ''key'') (JStr ''https://api'') hitting_data)
                    (Resp created_body)]\<rparr>)"
  "nth_poll (Suc (Suc 0)) (JStr ''key'') (JStr ''https://api'') (JStr ''job-1'')
     (job_canceled_world\<lparr>cursor := Suc 0,
        trace := [Http (PostExport (JStr ''key'') (JStr ''https://api'') hitting_data)
                    (Resp created_body)]\<rparr>) =
     Some (job_canceled_world\<lparr>cursor := Suc (Suc (Suc 0)),
        trace := [Http (PostExport (JStr ''key'') (JStr ''https://api'') hitting_data)
                    (Resp created_body),
                  Http (GetJob (JStr ''key'') (JStr ''https://api'') (JStr ''job-1''))
                    (Resp running_body),
                  Sleep 5000,
                  Http (GetJob (JStr ''key'') (JStr ''https://api'') (JStr ''job-1''))
                    (Resp running_body),
                  Sleep 5000]\<rparr>)"
  "getJobStatus (JStr ''key'') (JStr ''https://api'') (JStr ''job-1'') 3 2000
     (job_canceled_world\<lparr>cursor := Suc (Suc (Suc 0)),
        trace := [Http (PostExport (JStr ''key'') (JStr ''https://api'') hitting_data)
                    (Resp created_body),
                  Http (GetJob (JStr ''key'') (JStr ''https://api'') (JStr ''job-1''))
                    (Resp running_body),
                  Sleep 5000,
                  Http (GetJob (JStr ''key'') (JStr ''https://api'') (JStr ''job-1''))
                    (Resp running_body),
                  Sleep 5000]\<rparr>) =
     (Inr (JStr ''CANCELED''),
      job_canceled_world\<lparr>cursor := Suc (Suc (Suc (Suc 0))),
        trace := [Http (PostExport (JStr ''key'') (JStr ''https://api'') hitting_data)
                    (Resp created_body),
                  Http (GetJob (JStr ''key'') (JStr ''https://api'') (JStr ''job-1''))
                    (Resp running_body),
                  Sleep 5000,
                  Http (GetJob (JStr ''key'') (JStr ''https://api'') (JStr ''job-1''))
                    (Resp running_body),
                  Sleep 5000,
                  Http (GetJob (JStr ''key'') (JStr ''https://api'') (JStr ''job-1''))
                    (Resp canceled_body)]\<rparr>)"
proof -
  let ?k = "JStr ''key''" and ?u = "JStr ''https://api''" and ?j = "JStr ''job-1''"
  let ?w0 = job_canceled_world
  let ?w1 = "?w0\<lparr>cursor := Suc 0, trace := [Http (PostExport ?k ?u hitting_data) (Resp created_body)]\<rparr>"
  let ?w2 = "?w1\<lparr>cursor := Suc (Suc 0),
                  trace := trace ?w1 @ [Http (GetJob ?k ?u ?j) (Resp running_body)]\<rparr>"
  let ?w3 = "delay 5000 ?w2"
  let ?w4 = "?w3\<lparr>cursor := Suc (Suc (Suc 0)),
                  trace := trace ?w3 @ [Http (GetJob ?k ?u ?j) (Resp running_body)]\<rparr>"
  let ?w5 = "delay 5000 ?w4"
  let ?w6 = "?w5\<lparr>cursor := Suc (Suc (Suc (Suc 0))),
                  trace := trace ?w5 @ [Http (GetJob ?k ?u ?j) (Resp canceled_body)]\<rparr>"
  have t: "transport ?w0 = scripted [Resp created_body, Resp running_body, Resp running_body,
                                     Resp canceled_body]"
      "cursor ?w0 = 0" "trace ?w0 = []"
    by (simp_all add: job_canceled_world_def init_world_def)
  have d: "request_data hitting = hitting_data"
    by (simp add: request_data_def hitting_def hitting_data_def)
  have c: "createExportJob ?k ?u hitting_data 3 2000 ?w0 = (Inr ?j, ?w1)"
    by (subst createExportJob_resp[where b = created_body])
       (simp_all add: t scripted_def created_body_def)
  have g1: "getJobStatus ?k ?u ?j 3 2000 ?w1 = (Inr (JStr ''RUNNING''), ?w2)"
    by (subst getJobStatus_resp[where b = running_body])
       (simp_all add: t scripted_def running_body_def)
  have g2: "getJobStatus ?k ?u ?j 3 2000 ?w3 = (Inr (JStr ''RUNNING''), ?w4)"
    by (subst getJobStatus_resp[where b = running_body])
       (simp_all add: t scripted_def running_body_def)
  have g3: "getJobStatus ?k ?u ?j 3 2000 ?w5 = (Inr (JStr ''CANCELED''), ?w6)"
    by (subst getJobStatus_resp[where b = canceled_body])
       (simp_all add: t scripted_def canceled_body_def)
  have n2: "nth_poll (Suc (Suc 0)) ?k ?u ?j ?w1 = Some ?w5"
  proof -
    have s1: "nth_poll (Suc (Suc 0)) ?k ?u ?j ?w1 = nth_poll (Suc 0) ?k ?u ?j ?w3"
      using g1 by simp
    have s2: "nth_poll (Suc 0) ?k ?u ?j ?w3 = Some ?w5" using g2 by simp
    show ?thesis by (simp only: s1 s2)
  qed
  have e5: "?w5 = job_canceled_world\<lparr>cursor := Suc (Suc (Suc 0)),
        trace := [Http (PostExport ?k ?u hitting_data) (Resp created_body),
                  Http (GetJob ?k ?u ?j) (Resp running_body), Sleep 5000,
                  Http (GetJob ?k ?u ?j) (Resp running_body), Sleep 5000]\<rparr>"
    by (simp add: t delay_def emit_def)
  have e6: "?w6 = job_canceled_world\<lparr>cursor := Suc (Suc (Suc (Suc 0))),
        trace := [Http (PostExport ?k ?u hitting_data) (Resp created_body),
                  Http (GetJob ?k ?u ?j) (Resp running_body), Sleep 5000,
                  Http (GetJob ?k ?u ?j) (Resp running_body), Sleep 5000,
                  Http (GetJob ?k ?u ?j) (Resp canceled_body)]\<rparr>"
    by (simp add: t delay_def emit_def)
  show "createExportJob ?k ?u (request_data hitting) 3 2000 ?w0 = (Inr ?j, ?w1)"
    using c d by simp
  show "nth_poll (Suc (Suc 0)) ?k ?u ?j ?w1 = Some
     (job_canceled_world\<lparr>cursor := Suc (Suc (Suc 0)),
        trace := [Http (PostExport ?k ?u hitting_data) (Resp created_body),
                  Http (GetJob ?k ?u ?j) (Resp running_body), Sleep 5000,
                  Http (GetJob ?k ?u ?j) (Resp running_body), Sleep 5000]\<rparr>)"
    unfolding e5[symmetric] by (rule n2)
  show "getJobStatus ?k ?u ?j 3 2000
     (job_canceled_world\<lparr>cursor := Suc (Suc (Suc 0)),
        trace := [Http (PostExport ?k ?u hitting_data) (Resp created_body),
                  Http (GetJob ?k ?u ?j) (Resp running_body), Sleep 5000,
                  Http (GetJob ?k ?u ?j) (Resp running_body), Sleep 5000]\<rparr>) =
     (Inr (JStr ''CANCELED''),
      job_canceled_world\<lparr>cursor := Suc (Suc (Suc (Suc 0))),
        trace := [Http (PostExport ?k ?u hitting_data) (Resp created_body),
                  Http (GetJob ?k ?u ?j) (Resp running_body), Sleep 5000,
                  Http (GetJob ?k ?u ?j) (Resp running_body), Sleep 5000,
                  Http (GetJob ?k ?u ?j) (Resp canceled_body)]\<rparr>)"
    unfolding e5[symmetric] e6[symmetric] by (rule g3)
qed

lemma unauthorized_run:
  "handleExportProcess (Suc 0) (JStr ''key'') (JStr ''https://api'') unauthorized_world =
     Some (Inl (AxiosError (Some 401)),
           unauthorized_world\<lparr>cursor := Suc 0,
             trace := [Http (PostExport (JStr ''key'') (JStr ''https://api'') hitting_data)
                         (Fail (Some 401)),
                       Console (Text ''Unauthorized: Check your authorization token.'')]\<rparr>)"
proof -
  let ?k = "JStr ''key''" and ?u = "JStr ''https://api''"
  have t: "transport unauthorized_world (cursor unauthorized_world) = Fail (Some 401)"
      "cursor unauthorized_world = 0" "trace unauthorized_world = []"
    by (simp_all add: unauthorized_world_def init_world_def scripted_def)
  have c: "createExportJob ?k ?u hitting_data 3 2000 unauthorized_world =
      (Inl (AxiosError (Some 401)),
       unauthorized_world\<lparr>cursor := Suc 0,
         trace := [Http (PostExport ?k ?u hitting_data) (Fail (Some 401)),
                   Console (Text ''Unauthorized: Check your authorization token.'')]\<rparr>)"
    using t by (simp add: createExportJob_def makeRequest_terminal axios_then_console)
  show ?thesis
    using c by (simp add: handleExportProcess_def categories_def processCategory_def hitting_data_def)
qed

lemma processCategories_append_fail:
  "processCategories fuel k u pre w = Some (Inr (), w1) \<Longrightarrow>
   processCategory fuel k u c w1 = Some (Inl e, w2) \<Longrightarrow>
   processCategories fuel k u (pre @ c # post) w = Some (Inl e, w2)"
proof (induction pre arbitrary: w)
  case Nil
  then show ?case by simp
next
  case (Cons a pre)
  from Cons.prems(1) obtain x wa where p: "processCategory fuel k u a w = Some (x, wa)"
    by (cases "processCategory fuel k u a w") auto
  show ?case
  proof (cases x)
    case (Inl e')
    then show ?thesis using Cons.prems(1) p by simp
  next
    case (Inr v)
    then have "processCategories fuel k u pre wa = Some (Inr (), w1)"
      using Cons.prems(1) p by simp
    from Cons.IH[OF this Cons.prems(2)] show ?thesis using p Inr by simp
  qed
qed

text \<open>
  Claim C8. Take a job that was submitted for a category \<open>c\<close> after the categories
  before it were processed, and whose polls numbered below \<open>i\<close> were answered
  \<^verbatim>\<open>RUNNING\<close>. If the poll numbered \<open>i\<close> is answered \<^verbatim>\<open>FAILED\<close> or \<^verbatim>\<open>CANCELED\<close>,
  then \<open>checkJobStatus\<close> comes back, throwing the error that names the status, in the
  world that poll left: it sends no further status request. The loop over the categories
  and \<open>handleExportProcess\<close> come back with the same error in the same world, so nothing
  is fetched or written for the job, and nothing is done for the categories after \<open>c\<close>.
  And in every run of \<open>handleExportProcess\<close> that has come back, a status request
  answered with \<^verbatim>\<open>FAILED\<close> or \<^verbatim>\<open>CANCELED\<close> is the last event of the run: no status
  request, no request for results and no sink call follows it, and the run has ended with
  the error that names the status.
\<close>

theorem terminal_status_halts_run:
  "(processCategories fuel apiKey dataURL cs1 w = Some (Inr (), w0)
    \<and> createExportJob apiKey dataURL (request_data c) 3 2000 w0 = (Inr job, wj)
    \<and> truthy job
    \<and> nth_poll i apiKey dataURL job wj = Some wi
    \<and> getJobStatus apiKey dataURL job 3 2000 wi = (Inr status, wt)
    \<and> (status = JStr ''FAILED'' \<or> status = JStr ''CANCELED'')
    \<and> i < fuel
    \<longrightarrow> checkJobStatus fuel apiKey dataURL job wj = Some (Inl (JobTerminal status), wt)
      \<and> processCategories fuel apiKey dataURL (cs1 @ c # cs2) w =
          Some (Inl (JobTerminal status), wt)
      \<and> (truthy apiKey \<and> truthy dataURL \<and> categories = cs1 @ c # cs2 \<longrightarrow>
           handleExportProcess fuel apiKey dataURL w = Some (Inl (JobTerminal status), wt)))
   \<and> (handleExportProcess fuel apiKey dataURL w = Some (r, w')
      \<and> events_since w w' = pre @ Http (GetJob k u job') (Resp b) # post
      \<and> (data_status b = JStr ''FAILED'' \<or> data_status b = JStr ''CANCELED'')
      \<longrightarrow> post = [] \<and> r = Inl (JobTerminal (data_status b)))"
proof (intro conjI impI)
  assume a: "processCategories fuel apiKey dataURL cs1 w = Some (Inr (), w0)
    \<and> createExportJob apiKey dataURL (request_data c) 3 2000 w0 = (Inr job, wj)
    \<and> truthy job
    \<and> nth_poll i apiKey dataURL job wj = Some wi
    \<and> getJobStatus apiKey dataURL job 3 2000 wi = (Inr status, wt)
    \<and> (status = JStr ''FAILED'' \<or> status = JStr ''CANCELED'')
    \<and> i < fuel"
  then have p: "checkJobStatus fuel apiKey dataURL job wj = Some (Inl (JobTerminal status), wt)"
    by (intro checkJobStatus_nth_poll[of i apiKey dataURL job wj wi status wt fuel]) simp_all
  then show "checkJobStatus fuel apiKey dataURL job wj = Some (Inl (JobTerminal status), wt)" .
  have pc: "processCategory fuel apiKey dataURL c w0 = Some (Inl (JobTerminal status), wt)"
    using a p by (simp add: processCategory_def request_data_def)
  have pre: "processCategories fuel apiKey dataURL cs1 w = Some (Inr (), w0)" using a by simp
  from pre pc show all: "processCategories fuel apiKey dataURL (cs1 @ c # cs2) w =
      Some (Inl (JobTerminal status), wt)"
    by (rule processCategories_append_fail)
  assume "truthy apiKey \<and> truthy dataURL \<and> categories = cs1 @ c # cs2"
  then show "handleExportProcess fuel apiKey dataURL w = Some (Inl (JobTerminal status), wt)"
    using all by (simp add: handleExportProcess_def)
next
  assume b: "handleExportProcess fuel apiKey dataURL w = Some (r, w')
      \<and> events_since w w' = pre @ Http (GetJob k u job') (Resp b) # post
      \<and> (data_status b = JStr ''FAILED'' \<or> data_status b = JStr ''CANCELED'')"
  then have run: "handleExportProcess fuel apiKey dataURL w = Some (r, w')"
    and ev: "events_since w w' = pre @ Http (GetJob k u job') (Resp b) # post"
    and st: "data_status b = JStr ''FAILED'' \<or> data_status b = JStr ''CANCELED''"
    by simp_all
  have "post = [] \<and> r = Inl (JobTerminal (data_status b))"
  proof (cases "\<not> truthy apiKey \<or> \<not> truthy dataURL")
    case True
    then have "w' = w" using run by (auto simp: handleExportProcess_def)
    then show ?thesis using ev by (simp add: events_since_def)
  next
    case False
    then have "processCategories fuel apiKey dataURL categories w = Some (r, w')"
      using run by (simp add: handleExportProcess_def)
    from processCategories_halted[OF this] obtain ev' where
      e: "trace w' = trace w @ ev'" and h: "halted ev' r" by auto
    from e have "events_since w w' = ev'" by (rule events_sinceI)
    then have "ev' = pre @ Http (GetJob k u job') (Resp b) # post" using ev by simp
    from halted_decompose[OF h this st] show ?thesis .
  qed
  then show "post = []" and "r = Inl (JobTerminal (data_status b))" by simp_all
qed

theorem terminal_status_halts_run_witness:
  "processCategories (Suc (Suc (Suc 0))) (JStr ''key'') (JStr ''https://api'') []
     job_canceled_world = Some (Inr (), job_canceled_world)
   \<and> truthy (JStr ''job-1'') \<and> truthy (JStr ''key'') \<and> truthy (JStr ''https://api'')
   \<and> Suc (Suc 0) < Suc (Suc (Suc 0))
   \<and> categories = [] @ hitting # [pitching]
   \<and> handleExportProcess (Suc (Suc (Suc 0))) (JStr ''key'') (JStr ''https://api'')
        job_canceled_world =
       Some (Inl (JobTerminal (JStr ''CANCELED'')),
             job_canceled_world\<lparr>cursor := Suc (Suc (Suc (Suc 0))),
               trace := [Http (PostExport (JStr ''key'') (JStr ''https://api'') hitting_data)
                           (Resp created_body),
                         Http (GetJob (JStr ''key'') (JStr ''https://api'') (JStr ''job-1''))
                           (Resp running_body),
                         Sleep 5000,
                         Http (GetJob (JStr ''key'') (JStr ''https://api'') (JStr ''job-1''))
                           (Resp running_body),
                         Sleep 5000,
                         Http (GetJob (JStr ''key'') (JStr ''https://api'') (JStr ''job-1''))
                           (Resp canceled_body)]\<rparr>)
   \<and> handleExportProcess (Suc (Suc 0)) (JStr ''key'') (JStr ''https://api'') job_fails_world =
       Some (Inl (JobTerminal (JStr ''FAILED'')),
             job_fails_world\<lparr>cursor := Suc (Suc (Suc 0)),
               trace := [Http (PostExport (JStr ''key'') (JStr ''https://api'') hitting_data)
                           (Resp created_body),
                         Http (GetJob (JStr ''key'') (JStr ''https://api'') (JStr ''job-1''))
                           (Resp running_body),
                         Sleep 5000,
                         Http (GetJob (JStr ''key'') (JStr ''https://api'') (JStr ''job-1''))
                           (Resp failed_body)]\<rparr>)
   \<and> data_status failed_body = JStr ''FAILED''
   \<and> ([] :: event list) = []
   \<and> (Inl (JobTerminal (JStr ''FAILED'')) :: error + unit) =
       Inl (JobTerminal (data_status failed_body))"
proof -
  let ?k = "JStr ''key''" and ?u = "JStr ''https://api''" and ?j = "JStr ''job-1''"
  let ?pre = "[Http (PostExport ?k ?u hitting_data) (Resp created_body),
               Http (GetJob ?k ?u ?j) (Resp running_body), Sleep 5000]"
  let ?w' = "job_fails_world\<lparr>cursor := Suc (Suc (Suc 0)),
               trace := ?pre @ [Http (GetJob ?k ?u ?j) (Resp failed_body)]\<rparr>"
  let ?wj = "job_canceled_world\<lparr>cursor := Suc 0,
               trace := [Http (PostExport ?k ?u hitting_data) (Resp created_body)]\<rparr>"
  let ?wi = "job_canceled_world\<lparr>cursor := Suc (Suc (Suc 0)),
        trace := [Http (PostExport ?k ?u hitting_data) (Resp created_body),
                  Http (GetJob ?k ?u ?j) (Resp running_body), Sleep 5000,
                  Http (GetJob ?k ?u ?j) (Resp running_body), Sleep 5000]\<rparr>"
  let ?wt = "job_canceled_world\<lparr>cursor := Suc (Suc (Suc (Suc 0))),
        trace := [Http (PostExport ?k ?u hitting_data) (Resp created_body),
                  Http (GetJob ?k ?u ?j) (Resp running_body), Sleep 5000,
                  Http (GetJob ?k ?u ?j) (Resp running_body), Sleep 5000,
                  Http (GetJob ?k ?u ?j) (Resp canceled_body)]\<rparr>"
  have run: "handleExportProcess (Suc (Suc 0)) ?k ?u job_fails_world =
      Some (Inl (JobTerminal (JStr ''FAILED'')), ?w')"
    using job_fails_run by simp
  have ev: "events_since job_fails_world ?w' = ?pre @ Http (GetJob ?k ?u ?j) (Resp failed_body) # []"
    by (simp add: events_since_def job_fails_world_def init_world_def)
  have st: "data_status failed_body = JStr ''FAILED'' \<or> data_status failed_body = JStr ''CANCELED''"
    by (simp add: failed_body_def)
  have cats: "categories = [] @ hitting # [pitching]"
    by (simp add: categories_def hitting_def pitching_def)
  have first: "handleExportProcess (Suc (Suc (Suc 0))) ?k ?u job_canceled_world =
       Some (Inl (JobTerminal (JStr ''CANCELED'')), ?wt)"
    using terminal_status_halts_run
      [where fuel = "Suc (Suc (Suc 0))" and apiKey = ?k and dataURL = ?u and ?cs1.0 = "[]"
         and w = job_canceled_world and ?w0.0 = job_canceled_world and c = hitting
         and job = ?j and wj = ?wj and i = "Suc (Suc 0)" and wi = ?wi
         and status = "JStr ''CANCELED''" and wt = ?wt and ?cs2.0 = "[pitching]",
       THEN conjunct1]
      job_canceled_polls cats
    by simp
  have second: "([] :: event list) = [] \<and> (Inl (JobTerminal (JStr ''FAILED'')) :: error + unit) =
       Inl (JobTerminal (data_status failed_body))"
    using terminal_status_halts_run
      [where fuel = "Suc (Suc 0)" and apiKey = ?k and dataURL = ?u and w = job_fails_world
         and r = "Inl (JobTerminal (JStr ''FAILED''))" and w' = ?w' and pre = ?pre
         and k = ?k and u = ?u and job' = ?j and b = failed_body and post = "[]",
       THEN conjunct2]
      run ev st
    by simp
  show ?thesis using first second run cats by (simp add: failed_body_def)
qed

text \<open>
  Claim C9. The categories are processed in the order of the list. When the categories
  before \<open>c\<close> have been processed without error and the submission for \<open>c\<close>, its
  polling or its export fails, the run ends there with that error, in the world the
  failure left: nothing is submitted or processed for the categories after \<open>c\<close>.
\<close>

theorem run_aborts_at_first_failure:
  assumes "processCategories fuel apiKey dataURL pre w = Some (Inr (), w1)"
    and "createExportJob apiKey dataURL (request_data c) 3 2000 w1 = (Inl e, w2)
         \<or> (\<exists>job wj. createExportJob apiKey dataURL (request_data c) 3 2000 w1 = (Inr job, wj)
               \<and> truthy job
               \<and> (checkJobStatus fuel apiKey dataURL job wj = Some (Inl e, w2)
                  \<or> (\<exists>v wp. checkJobStatus fuel apiKey dataURL job wj = Some (Inr v, wp)
                        \<and> handleDataExport fuel apiKey dataURL job 0 500 wp = Some (Inl e, w2))))"
  shows "processCategories fuel apiKey dataURL (pre @ c # post) w = Some (Inl e, w2)
       \<and> (truthy apiKey \<and> truthy dataURL \<and> categories = pre @ c # post \<longrightarrow>
            handleExportProcess fuel apiKey dataURL w = Some (Inl e, w2))"
proof -
  have pc: "processCategory fuel apiKey dataURL c w1 = Some (Inl e, w2)"
  proof -
    consider (sub) "createExportJob apiKey dataURL (request_data c) 3 2000 w1 = (Inl e, w2)"
      | (poll) job wj where "createExportJob apiKey dataURL (request_data c) 3 2000 w1 = (Inr job, wj)"
          "truthy job" "checkJobStatus fuel apiKey dataURL job wj = Some (Inl e, w2)"
      | (exp) job wj v wp where "createExportJob apiKey dataURL (request_data c) 3 2000 w1 = (Inr job, wj)"
          "truthy job" "checkJobStatus fuel apiKey dataURL job wj = Some (Inr v, wp)"
          "handleDataExport fuel apiKey dataURL job 0 500 wp = Some (Inl e, w2)"
      using assms(2) by auto
    then show ?thesis
    proof cases
      case sub
      then show ?thesis by (simp add: processCategory_def request_data_def)
    next
      case poll
      then show ?thesis by (simp add: processCategory_def request_data_def)
    next
      case exp
      have "v = JBool True" using checkJobStatus_result[OF exp(3)] by simp
      then show ?thesis using exp by (simp add: processCategory_def request_data_def)
    qed
  qed
  have "processCategories fuel apiKey dataURL (pre @ c # post) w = Some (Inl e, w2)"
    using assms(1) pc by (rule processCategories_append_fail)
  then show ?thesis by (auto simp: handleExportProcess_def)
qed

theorem run_aborts_at_first_failure_witness:
  "processCategories (Suc 0) (JStr ''key'') (JStr ''https://api'') [] unauthorized_world =
     Some (Inr (), unauthorized_world)
   \<and> fst (createExportJob (JStr ''key'') (JStr ''https://api'') (request_data hitting) 3 2000
            unauthorized_world) = Inl (AxiosError (Some 401))
   \<and> truthy (JStr ''key'') \<and> truthy (JStr ''https://api'')
   \<and> categories = [] @ hitting # [pitching]
   \<and> handleExportProcess (Suc 0) (JStr ''key'') (JStr ''https://api'') unauthorized_world =
       Some (Inl (AxiosError (Some 401)),
             unauthorized_world\<lparr>cursor := Suc 0,
               trace := [Http (PostExport (JStr ''key'') (JStr ''https://api'') hitting_data)
                           (Fail (Some 401)),
                         Console (Text ''Unauthorized: Check your authorization token.'')]\<rparr>)"
proof -
  let ?k = "JStr ''key''" and ?u = "JStr ''https://api''"
  let ?w2 = "unauthorized_world\<lparr>cursor := Suc 0,
               trace := [Http (PostExport ?k ?u hitting_data) (Fail (Some 401)),
                         Console (Text ''Unauthorized: Check your authorization token.'')]\<rparr>"
  have t: "transport unauthorized_world (cursor unauthorized_world) = Fail (Some 401)"
      "cursor unauthorized_world = 0" "trace unauthorized_world = []"
    by (simp_all add: unauthorized_world_def init_world_def scripted_def)
  have d: "request_data hitting = hitting_data"
    by (simp add: request_data_def hitting_def hitting_data_def)
  have a1: "processCategories (Suc 0) ?k ?u [] unauthorized_world = Some (Inr (), unauthorized_world)"
    by simp
  have c: "createExportJob ?k ?u (request_data hitting) 3 2000 unauthorized_world =
      (Inl (AxiosError (Some 401)), ?w2)"
    using t by (simp add: d createExportJob_def makeRequest_terminal axios_then_console)
  have cats: "categories = [] @ hitting # [pitching]"
    by (simp add: categories_def hitting_def pitching_def)
  from run_aborts_at_first_failure[OF a1 disjI1, OF c, of "[pitching]"] cats c
  show ?thesis by simp
qed


section \<open>A job with two pages of results\<close>

lemma serves_two_pages:
  assumes "p1 \<noteq> []" "p2 \<noteq> []"
  shows "serves_pages (transport (two_pages_world p1 p2)) 4 [p1, p2]"
proof -
  have "serves_pages (transport (two_pages_world p1 p2)) (Suc (Suc (Suc (Suc 0)))) [p1, p2]"
    using assms by (simp add: two_pages_world_def init_world_def scripted_def page_def)
  then show ?thesis by (simp add: numeral_eq_Suc)
qed

lemma two_pages_poll:
  assumes "3 \<le> fuel"
    and "transport w = transport (two_pages_world p1 p2)" "cursor w = 0" "trace w = []"
  shows "\<exists>w4. createExportJob k u hitting_data 3 2000 w =
             (Inr (JStr ''job-1''),
              w\<lparr>cursor := Suc 0,
                 trace := [Http (PostExport k u hitting_data) (Resp created_body)]\<rparr>)
     \<and> checkJobStatus fuel k u (JStr ''job-1'')
          (w\<lparr>cursor := Suc 0,
             trace := [Http (PostExport k u hitting_data) (Resp created_body)]\<rparr>)
         = Some (Inr (JBool True), w4)
     \<and> transport w4 = transport w \<and> cursor w4 = 4 \<and> fault w4 = fault w
     \<and> trace w4 = [Http (PostExport k u hitting_data) (Resp created_body),
                    Http (GetJob k u (JStr ''job-1'')) (Resp running_body), Sleep 5000,
                    Http (GetJob k u (JStr ''job-1'')) (Resp running_body), Sleep 5000,
                    Http (GetJob k u (JStr ''job-1'')) (Resp completed_body)]"
proof -
  from assms(1) obtain n where f: "fuel = Suc (Suc (Suc n))"
    by (metis Suc_le_D numeral_3_eq_3 Suc_le_mono le_Suc_ex add_Suc_right add_Suc)
  let ?j = "JStr ''job-1''"
  let ?w0 = w
  let ?e1 = "[Http (PostExport k u hitting_data) (Resp created_body)]"
  let ?w1 = "?w0\<lparr>cursor := Suc 0, trace := ?e1\<rparr>"
  let ?e2 = "?e1 @ [Http (GetJob k u ?j) (Resp running_body), Sleep 5000]"
  let ?w2 = "?w0\<lparr>cursor := Suc (Suc 0), trace := ?e2\<rparr>"
  let ?e3 = "?e2 @ [Http (GetJob k u ?j) (Resp running_body), Sleep 5000]"
  let ?w3 = "?w0\<lparr>cursor := Suc (Suc (Suc 0)), trace := ?e3\<rparr>"
  let ?e4 = "?e3 @ [Http (GetJob k u ?j) (Resp completed_body)]"
  let ?w4 = "?w0\<lparr>cursor := Suc (Suc (Suc (Suc 0))), trace := ?e4\<rparr>"
  have t: "transport ?w0 0 = Resp created_body" "transport ?w0 (Suc 0) = Resp running_body"
      "transport ?w0 (Suc (Suc 0)) = Resp running_body"
      "transport ?w0 (Suc (Suc (Suc 0))) = Resp completed_body"
      "cursor ?w0 = 0" "trace ?w0 = []"
    by (simp_all add: assms(2-4) two_pages_world_def init_world_def scripted_def)
  have c: "createExportJob k u hitting_data 3 2000 ?w0 = (Inr ?j, ?w1)"
    by (subst createExportJob_resp[where b = created_body]) (simp_all add: t created_body_def)
  have g1: "getJobStatus k u ?j 3 2000 ?w1 =
      (Inr (JStr ''RUNNING''), ?w0\<lparr>cursor := Suc (Suc 0),
         trace := ?e1 @ [Http (GetJob k u ?j) (Resp running_body)]\<rparr>)"
    by (subst getJobStatus_resp[where b = running_body]) (simp_all add: t running_body_def)
  have g2: "getJobStatus k u ?j 3 2000 ?w2 =
      (Inr (JStr ''RUNNING''), ?w0\<lparr>cursor := Suc (Suc (Suc 0)),
         trace := ?e2 @ [Http (GetJob k u ?j) (Resp running_body)]\<rparr>)"
    by (subst getJobStatus_resp[where b = running_body]) (simp_all add: t running_body_def)
  have g3: "getJobStatus k u ?j 3 2000 ?w3 = (Inr (JStr ''COMPLETED''), ?w4)"
    by (subst getJobStatus_resp[where b = completed_body]) (simp_all add: t completed_body_def)
  have s1: "checkJobStatus (Suc (Suc (Suc n))) k u ?j ?w1 = checkJobStatus (Suc (Suc n)) k u ?j ?w2"
    using g1 by (simp add: delay_def emit_def)
  have s2: "checkJobStatus (Suc (Suc n)) k u ?j ?w2 = checkJobStatus (Suc n) k u ?j ?w3"
    using g2 by (simp add: delay_def emit_def)
  have s3: "checkJobStatus (Suc n) k u ?j ?w3 = Some (Inr (JBool True), ?w4)"
    using g3 by simp
  have p: "checkJobStatus fuel k u ?j ?w1 = Some (Inr (JBool True), ?w4)"
    by (simp only: f s1 s2 s3)
  show ?thesis
    using c p by (intro exI[of _ ?w4]) (simp add: numeral_eq_Suc)
qed

lemma two_pages_run:
  assumes "p1 \<noteq> []" "p2 \<noteq> []" "3 \<le> fuel"
    and "transport w = transport (two_pages_world p1 p2)" "cursor w = 0" "trace w = []"
    and "no_faults w" "plain_sessions (p1 @ p2)"
  shows "\<exists>w'. processCategory fuel k u hitting w = Some (Inr (), w')
     \<and> requests (trace w') =
         [PostExport k u hitting_data,
          GetJob k u (JStr ''job-1''), GetJob k u (JStr ''job-1''), GetJob k u (JStr ''job-1''),
          GetResults k u (JStr ''job-1'') 0 500,
          GetResults k u (JStr ''job-1'') (int (length p1)) 500,
          GetResults k u (JStr ''job-1'') (int (length p1) + int (length p2)) 500]
     \<and> sleeps (trace w') = [5000, 5000, 1000, 1000]
     \<and> concat (map fst (writes (trace w'))) = p1 @ p2
     \<and> (\<exists>rows a s. last (trace w') = WriteCsv rows a s)"
proof -
  let ?j = "JStr ''job-1''"
  let ?w0 = w
  let ?w1 = "?w0\<lparr>cursor := Suc 0,
                  trace := [Http (PostExport k u hitting_data) (Resp created_body)]\<rparr>"
  from two_pages_poll[OF assms(3-6), of k u] obtain w4 where
    c: "createExportJob k u hitting_data 3 2000 ?w0 = (Inr ?j, ?w1)" and
    p: "checkJobStatus fuel k u ?j ?w1 = Some (Inr (JBool True), w4)" and
    w4: "transport w4 = transport ?w0" "cursor w4 = 4" "fault w4 = fault w"
        "trace w4 = [Http (PostExport k u hitting_data) (Resp created_body),
                    Http (GetJob k u ?j) (Resp running_body), Sleep 5000,
                    Http (GetJob k u ?j) (Resp running_body), Sleep 5000,
                    Http (GetJob k u ?j) (Resp completed_body)]"
    by auto
  have sp: "serves_pages (transport w4) (cursor w4) [p1, p2]"
    using serves_two_pages[OF assms(1,2)] w4 assms(4) by simp
  have fl: "length [p1, p2] < fuel" using assms(3) by simp
  have tj: "truthy ?j" by simp
  have nf: "no_faults w4" using assms(7) w4(3) by (simp add: no_faults_def)
  have ps: "plain_sessions (concat [p1, p2])" using assms(8) by simp
  from handleDataExport_pages[OF tj sp fl nf ps, of k u 0 500] obtain w' ev where
    h: "handleDataExport fuel k u ?j 0 500 w4 = Some (Inr (), w')"
       "trace w' = trace w4 @ ev"
       "writes ev = sink_calls (concat [p1, p2])"
       "requests ev = map (\<lambda>x. GetResults k u ?j x 500) (page_offsets 0 [p1, p2])"
       "sleeps ev = replicate (length [p1, p2]) 1000"
       "[p1, p2] \<noteq> [] \<longrightarrow> (\<exists>rows a s. last ev = WriteCsv rows a s)"
    by auto
  have ne: "ev \<noteq> []" using h(4) by auto
  have pc: "processCategory fuel k u hitting ?w0 = Some (Inr (), w')"
    using c p h(1) by (simp add: processCategory_def hitting_def hitting_data_def)
  have l: "\<exists>rows a s. last (trace w') = WriteCsv rows a s"
    using h(2,6) ne by simp
  note w4 = w4(1,2,4)
  show ?thesis
    using pc h w4 l
    by (intro exI[of _ w'])
       (simp add: requests_append sleeps_append writes_append sink_calls_conserve numeral_2_eq_2)
qed

lemma two_pages_world_start [simp]:
  "cursor (two_pages_world p1 p2) = 0" "trace (two_pages_world p1 p2) = []"
  "no_faults (two_pages_world p1 p2)"
  by (simp_all add: two_pages_world_def init_world_def no_faults_def)

lemma plain_sessions_replicate [simp]:
  "plain_sessions (replicate n r) = (n = 0 \<or> slash_free (get_prop r ''sessionid''))"
  by (induction n) auto

lemma slash_free_sample [simp]:
  "slash_free (get_prop sample_row ''sessionid'')" "slash_free (get_prop sample_row ''athleteid'')"
  by (simp_all add: slash_free_def sample_row_def get_prop_def)

lemma plain_keys_sessions: "plain_keys rs \<Longrightarrow> plain_sessions rs"
  by (induction rs) (simp_all add: plain_keys_def)

lemma plain_keys_replicate [simp]:
  "plain_keys (replicate n r @ replicate m r) =
     ((n = 0 \<and> m = 0) \<or> (slash_free (get_prop r ''athleteid'') \<and> slash_free (get_prop r ''sessionid'')))"
  by (auto simp: plain_keys_def list_all_iff)

text \<open>
  A session id that holds a slash stops the export at the flush of that session: the
  folder \<^verbatim>\<open>./data/A/session_x\<close> does not exist, \<^verbatim>\<open>appendFileSync\<close> throws, and no page
  is asked for after the first.
\<close>

lemma slash_session_aborts:
  "\<exists>w'. handleDataExport (Suc (Suc 0)) (JStr ''key'') (JStr ''https://api'') (JStr ''job-1'') 0 500
          slash_session_world = Some (Inl ExportFailed, w')
     \<and> trace w' =
         [Http (GetResults (JStr ''key'') (JStr ''https://api'') (JStr ''job-1'') 0 500)
            (Resp (page [slash_row, sample_row])),
          WriteCsv [slash_row] (JStr ''A'') (JStr ''x/y'')]
     \<and> files w' = Map.empty"
proof -
  let ?k = "JStr ''key''" and ?u = "JStr ''https://api''" and ?j = "JStr ''job-1''"
  let ?rs = "[slash_row, sample_row]"
  let ?w0 = slash_session_world
  let ?w1 = "?w0\<lparr>cursor := Suc 0, trace := [Http (GetResults ?k ?u ?j 0 500) (Resp (page ?rs))]\<rparr>"
  let ?st0 = "\<lparr>sessionId = JNull, athleteId = JNull, rowsToWrite = []\<rparr>"
  let ?st1 = "\<lparr>sessionId = JStr ''x/y'', athleteId = JStr ''A'', rowsToWrite = [slash_row]\<rparr>"
  have t: "transport ?w0 0 = Resp (page ?rs)"
      "cursor ?w0 = 0" "trace ?w0 = []" "files ?w0 = Map.empty" "dirs ?w0 = {}"
      "fault ?w0 = (\<lambda>n. False)" "lib_calls ?w0 = 0"
    by (simp_all add: slash_session_world_def init_world_def scripted_def)
  have g1: "getJobResults ?k ?u ?j 0 500 3 2000 ?w0 = (Inr (Some (page ?rs)), ?w1)"
    by (subst getJobResults_resp[where b = "page ?rs"]) (simp_all add: t)
  have pd: "parent_dir ''./data/A/session_x/y.csv'' = ''./data/A/session_x''"
    by (simp add: parent_dir_def)
  have fc: "''./data/A/session_x'' \<notin> set (folder_chain ''./data/A'')"
    by (simp add: folder_chain_def upt_rec numeral_eq_Suc)
  obtain x w2 where wr: "writeCsvFile [slash_row] (JStr ''A'') (JStr ''x/y'') ?w1 = (x, w2)"
    by (cases "writeCsvFile [slash_row] (JStr ''A'') (JStr ''x/y'') ?w1")
  have x: "x = Inl StringifyFailed" and f2: "files w2 = Map.empty"
    using wr pd fc
    by (auto simp: writeCsvFile_def Let_def appendFileSync_def mkdirSync_def stringify_call_def
          lib_call_def emit_def t)
  have t2: "trace w2 = trace ?w1 @ [WriteCsv [slash_row] (JStr ''A'') (JStr ''x/y'')]"
    using writeCsvFile_fields(1)[of "[slash_row]" "JStr ''A''" "JStr ''x/y''" ?w1] wr by simp
  have r1: "processRow slash_row ?st0 ?w1 = (Inr ?st1, ?w1)"
    by (simp add: processRow_def Let_def get_prop_def slash_row_def)
  have r2: "processRow sample_row ?st1 ?w1 = (Inl StringifyFailed, w2)"
    using wr x by (simp add: processRow_def Let_def flushRows_def get_prop_def sample_row_def)
  have p: "processRows ?rs ?st0 ?w1 = (Inl StringifyFailed, w2)"
    using r1 r2 by simp
  have l: "exportLoop (Suc (Suc 0)) ?k ?u ?j 0 500 ?st0 ?w0 = Some (Inl StringifyFailed, w2)"
    using g1 p by (simp add: page_def)
  have "handleDataExport (Suc (Suc 0)) ?k ?u ?j 0 500 ?w0 = Some (Inl ExportFailed, w2)"
    using l by (simp add: handleDataExport_def)
  then show ?thesis using t2 f2 by (intro exI[of _ w2]) (simp add: t)
qed

text \<open>
  Claim C5, as amended. Take a run that starts with a service which answers the polls
  of the job with \<^verbatim>\<open>RUNNING\<close>, \<^verbatim>\<open>RUNNING\<close>, \<^verbatim>\<open>COMPLETED\<close> and serves a page of 500
  rows, a page of 137 rows and then an empty page, and in which the writes succeed: no
  call into \<^verbatim>\<open>fs\<close> or csv-stringify throws for a reason of its own, and no athlete id
  or session id of the rows holds a slash. Then the export comes back without error. It asks for
  results three times, at the offsets 0, 500 and 637: the loop ends only when a page comes
  back empty. All 637 rows reach the sink, in order, and the last event of the run is the
  sink call for the rows still held. Lemma \<open>slash_session_aborts\<close> shows what the second
  condition is for.
\<close>

theorem export_of_two_pages:
  assumes "length p1 = 500" and "length p2 = 137" and "3 \<le> fuel"
    and "transport w = transport (two_pages_world p1 p2)" and "cursor w = 0" and "trace w = []"
    and "no_faults w" and "plain_keys (p1 @ p2)"
  shows "\<exists>w'. processCategory fuel apiKey dataURL hitting w = Some (Inr (), w')
     \<and> result_offsets (requests (trace w')) = [0, 500, 637]
     \<and> length (result_offsets (requests (trace w'))) = 3
     \<and> sleeps (trace w') = [5000, 5000, 1000, 1000]
     \<and> concat (map fst (writes (trace w'))) = p1 @ p2
     \<and> length (concat (map fst (writes (trace w')))) = 637
     \<and> (\<exists>rows a s. last (trace w') = WriteCsv rows a s)"
proof -
  have ne: "p1 \<noteq> []" "p2 \<noteq> []" using assms(1,2) by auto
  have ps: "plain_sessions (p1 @ p2)" using assms(8) by (rule plain_keys_sessions)
  from two_pages_run[OF ne assms(3-7) ps, of apiKey dataURL] obtain w' where
    h: "processCategory fuel apiKey dataURL hitting w = Some (Inr (), w')"
       "requests (trace w') =
         [PostExport apiKey dataURL hitting_data,
          GetJob apiKey dataURL (JStr ''job-1''), GetJob apiKey dataURL (JStr ''job-1''),
          GetJob apiKey dataURL (JStr ''job-1''),
          GetResults apiKey dataURL (JStr ''job-1'') 0 500,
          GetResults apiKey dataURL (JStr ''job-1'') (int (length p1)) 500,
          GetResults apiKey dataURL (JStr ''job-1'') (int (length p1) + int (length p2)) 500]"
       "sleeps (trace w') = [5000, 5000, 1000, 1000]"
       "concat (map fst (writes (trace w'))) = p1 @ p2"
       "\<exists>rows a s. last (trace w') = WriteCsv rows a s"
    by auto
  show ?thesis
    using h assms(1,2) by (intro exI[of _ w']) simp
qed

theorem export_of_two_pages_witness:
  "length (replicate 500 sample_row) = 500 \<and> length (replicate 137 sample_row) = 137
   \<and> (3::nat) \<le> 3
   \<and> cursor (two_pages_world (replicate 500 sample_row) (replicate 137 sample_row)) = 0
   \<and> trace (two_pages_world (replicate 500 sample_row) (replicate 137 sample_row)) = []
   \<and> no_faults (two_pages_world (replicate 500 sample_row) (replicate 137 sample_row))
   \<and> plain_keys (replicate 500 sample_row @ replicate 137 sample_row)
   \<and> (\<exists>w'. processCategory 3 (JStr ''key'') (JStr ''https://api'') hitting
               (two_pages_world (replicate 500 sample_row) (replicate 137 sample_row))
             = Some (Inr (), w')
          \<and> result_offsets (requests (trace w')) = [0, 500, 637]
          \<and> sleeps (trace w') = [5000, 5000, 1000, 1000]
          \<and> length (concat (map fst (writes (trace w')))) = 637)"
proof -
  let ?w = "two_pages_world (replicate 500 sample_row) (replicate 137 sample_row)"
  have a: "length (replicate 500 sample_row) = 500" "length (replicate 137 sample_row) = 137"
    by simp_all
  have f: "(3::nat) \<le> 3" by simp
  have w: "transport ?w = transport ?w" "cursor ?w = 0" "trace ?w = []" "no_faults ?w"
    by simp_all
  have ps: "plain_keys (replicate 500 sample_row @ replicate 137 sample_row)" by simp
  from export_of_two_pages[OF a f w ps, of "JStr ''key''" "JStr ''https://api''"]
  show ?thesis using a w ps by auto
qed

text \<open>
  The claim as stated, with exactly two requests for results at the offsets 0 and 500, does
  not hold for two pages of 500 and 137 copies of a row.
\<close>

theorem two_pages_take_three_fetches:
  "processCategory 3 (JStr ''key'') (JStr ''https://api'') hitting
     (two_pages_world (replicate 500 sample_row) (replicate 137 sample_row)) \<noteq> None
   \<and> fst (the (processCategory 3 (JStr ''key'') (JStr ''https://api'') hitting
        (two_pages_world (replicate 500 sample_row) (replicate 137 sample_row)))) = Inr ()
   \<and> result_offsets (requests (trace (snd (the
        (processCategory 3 (JStr ''key'') (JStr ''https://api'') hitting
           (two_pages_world (replicate 500 sample_row) (replicate 137 sample_row)))))))
       = [0, 500, 637]
   \<and> result_offsets (requests (trace (snd (the
        (processCategory 3 (JStr ''key'') (JStr ''https://api'') hitting
           (two_pages_world (replicate 500 sample_row) (replicate 137 sample_row)))))))
       \<noteq> [0, 500]"
proof -
  have ne: "replicate 500 sample_row \<noteq> []" "replicate 137 sample_row \<noteq> []" by simp_all
  have f: "(3::nat) \<le> 3" by simp
  let ?w = "two_pages_world (replicate 500 sample_row) (replicate 137 sample_row)"
  have w: "transport ?w = transport ?w" "cursor ?w = 0" "trace ?w = []" "no_faults ?w"
    by simp_all
  have ps: "plain_sessions (replicate 500 sample_row @ replicate 137 sample_row)" by simp
  from two_pages_run[OF ne f w ps, of "JStr ''key''" "JStr ''https://api''"] obtain w' where
    h: "processCategory 3 (JStr ''key'') (JStr ''https://api'') hitting
          (two_pages_world (replicate 500 sample_row) (replicate 137 sample_row)) = Some (Inr (), w')"
       "requests (trace w') =
         [PostExport (JStr ''key'') (JStr ''https://api'') hitting_data,
          GetJob (JStr ''key'') (JStr ''https://api'') (JStr ''job-1''),
          GetJob (JStr ''key'') (JStr ''https://api'') (JStr ''job-1''),
          GetJob (JStr ''key'') (JStr ''https://api'') (JStr ''job-1''),
          GetResults (JStr ''key'') (JStr ''https://api'') (JStr ''job-1'') 0 500,
          GetResults (JStr ''key'') (JStr ''https://api'') (JStr ''job-1'')
            (int (length (replicate 500 sample_row))) 500,
          GetResults (JStr ''key'') (JStr ''https://api'') (JStr ''job-1'')
            (int (length (replicate 500 sample_row)) + int (length (replicate 137 sample_row))) 500]"
    by auto
  show ?thesis by (simp add: h)
qed


section \<open>Headers in the session files\<close>

lemma writeCsvFile_files:
  "rows \<noteq> [] \<Longrightarrow> no_faults w \<Longrightarrow> slash_free s \<Longrightarrow>
   files (snd (writeCsvFile rows a s w))
     (''./data/'' @ js_to_string a @ ''/session_'' @ js_to_string s @ ''.csv'') =
   Some ((case files w (''./data/'' @ js_to_string a @ ''/session_'' @ js_to_string s @ ''.csv'') of
            None \<Rightarrow> [] | Some old \<Rightarrow> old)
         @ HeaderLine (map fst (hd rows))
         # map (\<lambda>r. DataLine (map (get_prop r) (map fst (hd rows)))) rows)"
proof -
  assume ne: "rows \<noteq> []" and nf: "no_faults w" and sf: "slash_free s"
  have p: "parent_dir ((''./data/'' @ js_to_string a) @ ''/session_'' @ js_to_string s @ ''.csv'')
           = ''./data/'' @ js_to_string a"
    using sf unfolding slash_free_def by (rule parent_dir_session)
  have f: "\<And>n. \<not> fault w n" using nf by (simp add: no_faults_def)
  obtain r rs where rows: "rows = r # rs" using ne by (cases rows) auto
  show ?thesis
    using p unfolding rows
    by (auto simp: writeCsvFile_def Let_def appendFileSync_def mkdirSync_def stringify_call_def
          lib_call_def emit_def f folder_chain_def stringify_def split: option.splits)
qed

text \<open>
  Claim C4 fails on the code. \<open>writeCsvFile\<close> asks \<^verbatim>\<open>stringify\<close> for a header on every
  call and appends the whole output, so each call adds a header line to the session file,
  whether the file existed or not (lemma \<open>writeCsvFile_files\<close>, for the calls that succeed). Here the same session is
  written twice, and the file holds two header lines.
\<close>

theorem header_repeated_on_append:
  "files (snd (writeCsvFile [sample_row] (JStr ''A'') (JStr ''S1'')
           (snd (writeCsvFile [sample_row] (JStr ''A'') (JStr ''S1'') (init_world (scripted []))))))
     ''./data/A/session_S1.csv'' =
   Some [HeaderLine [''athleteid'', ''sessionid'', ''value''],
         DataLine [JStr ''A'', JStr ''S1'', JNum 1],
         HeaderLine [''athleteid'', ''sessionid'', ''value''],
         DataLine [JStr ''A'', JStr ''S1'', JNum 1]]"
proof -
  let ?w1 = "snd (writeCsvFile [sample_row] (JStr ''A'') (JStr ''S1'') (init_world (scripted [])))"
  have p: "''./data/'' @ js_to_string (JStr ''A'') @ ''/session_'' @ js_to_string (JStr ''S1'') @ ''.csv''
           = ''./data/A/session_S1.csv''" by simp
  have ne: "[sample_row] \<noteq> []" by simp
  have sf: "slash_free (JStr ''S1'')" by (simp add: slash_free_def)
  have n0: "no_faults (init_world (scripted []))" by simp
  have n1: "no_faults ?w1" by simp
  have f1: "files ?w1 ''./data/A/session_S1.csv'' =
      Some [HeaderLine [''athleteid'', ''sessionid'', ''value''],
            DataLine [JStr ''A'', JStr ''S1'', JNum 1]]"
    using writeCsvFile_files[OF ne n0 sf, of "JStr ''A''"]
    unfolding p by (simp add: init_world_def sample_row_def get_prop_def)
  show ?thesis
    using writeCsvFile_files[OF ne n1 sf, of "JStr ''A''"]
    unfolding p by (simp add: f1) (simp add: sample_row_def get_prop_def)
qed


section \<open>Sink calls and keys\<close>

lemma sink_calls_zero_session:
  "sink_calls [session0_row, session1_row] = [([session0_row, session1_row], JStr ''A'', JNum 1)]"
  by (simp add: sink_calls_def init_pstate_def Let_def key_changed_def get_prop_def
        session0_row_def session1_row_def)

lemma sink_calls_zero_athlete:
  "sink_calls [athlete0_row, athlete0_row, athlete7_row] =
     [([athlete0_row, athlete0_row, athlete7_row], JNum 7, JStr ''S1'')]"
  by (simp add: sink_calls_def init_pstate_def Let_def key_changed_def get_prop_def
        athlete0_row_def athlete7_row_def)

lemma runs_zero_athlete:
  "runs [athlete0_row, athlete0_row, athlete7_row] = [[athlete0_row, athlete0_row], [athlete7_row]]"
  by (simp add: row_key_def get_prop_def athlete0_row_def athlete7_row_def)

lemma export_one_page:
  assumes "truthy job" "rs \<noteq> []" "plain_sessions rs"
  shows "\<exists>w'. handleDataExport (Suc (Suc 0)) k u job 0 500 (init_world (scripted [Resp (page rs), Resp (page [])]))
            = Some (Inr (), w')
       \<and> writes (trace w') = sink_calls rs
       \<and> result_offsets (requests (trace w')) = [0, int (length rs)]"
proof -
  let ?w = "init_world (scripted [Resp (page rs), Resp (page [])])"
  have sp: "serves_pages (transport ?w) (cursor ?w) [rs]"
    using assms(2) by (simp add: init_world_def scripted_def page_def)
  have fl: "length [rs] < Suc (Suc 0)" by simp
  have nf: "no_faults ?w" by simp
  have ps: "plain_sessions (concat [rs])" using assms(3) by simp
  from handleDataExport_pages[OF assms(1) sp fl nf ps, of k u 0 500] obtain w' ev where
    h: "handleDataExport (Suc (Suc 0)) k u job 0 500 ?w = Some (Inr (), w')"
       "trace w' = trace ?w @ ev" "writes ev = sink_calls (concat [rs])"
       "requests ev = map (\<lambda>x. GetResults k u job x 500) (page_offsets 0 [rs])"
    by auto
  have "trace ?w = []" by (simp add: init_world_def)
  then show ?thesis using h by (intro exI[of _ w']) simp
qed

text \<open>
  When every key in the stream is truthy and the writes succeed, the export behaves as the documentation of
  \<^verbatim>\<open>handleDataExport\<close> says: its sink calls are the maximal runs of the rows, each under
  its key, in order.
\<close>

lemma export_partitions_truthy_keys:
  assumes "truthy job" "serves_pages (transport w) (cursor w) ps" "length ps < fuel"
    "truthy_keys (concat ps)" "no_faults w" "plain_sessions (concat ps)"
  shows "\<exists>w' ev. handleDataExport fuel k u job off lim w = Some (Inr (), w')
       \<and> trace w' = trace w @ ev
       \<and> writes ev = map flush_of (runs (concat ps))"
proof -
  from handleDataExport_pages[OF assms(1-3,5,6), of k u off lim] obtain w' ev where
    "handleDataExport fuel k u job off lim w = Some (Inr (), w')"
    "trace w' = trace w @ ev" "writes ev = sink_calls (concat ps)"
    by auto
  then show ?thesis
    using sink_calls_runs[OF assms(4)] by (intro exI[of _ w'] exI[of _ ev]) simp
qed

lemma zero_session_files:
  "files (snd (the (handleDataExport (Suc (Suc 0)) (JStr ''key'') (JStr ''https://api'')
                     (JStr ''job-1'') 0 500 zero_session_world)))
     ''./data/A/session_1.csv''
     = Some [HeaderLine [''athleteid'', ''sessionid'', ''value''],
             DataLine [JStr ''A'', JNum 0, JNum 10],
             DataLine [JStr ''A'', JNum 1, JNum 11]]
   \<and> files (snd (the (handleDataExport (Suc (Suc 0)) (JStr ''key'') (JStr ''https://api'')
                     (JStr ''job-1'') 0 500 zero_session_world)))
     ''./data/A/session_0.csv'' = None"
proof -
  let ?k = "JStr ''key''" and ?u = "JStr ''https://api''" and ?j = "JStr ''job-1''"
  let ?rs = "[session0_row, session1_row]"
  let ?w0 = zero_session_world
  let ?w1 = "?w0\<lparr>cursor := Suc 0, trace := [Http (GetResults ?k ?u ?j 0 500) (Resp (page ?rs))]\<rparr>"
  let ?st = "\<lparr>sessionId = JNum 1, athleteId = JStr ''A'', rowsToWrite = ?rs\<rparr>"
  let ?w2 = "delay 1000 ?w1"
  let ?w3 = "?w2\<lparr>cursor := Suc (Suc 0),
                   trace := trace ?w2 @ [Http (GetResults ?k ?u ?j 2 500) (Resp (page []))]\<rparr>"
  have t: "transport ?w0 0 = Resp (page ?rs)" "transport ?w0 (Suc 0) = Resp (page [])"
      "cursor ?w0 = 0" "trace ?w0 = []" "files ?w0 = Map.empty" "dirs ?w0 = {}"
    by (simp_all add: zero_session_world_def init_world_def scripted_def)
  have g1: "getJobResults ?k ?u ?j 0 500 3 2000 ?w0 = (Inr (Some (page ?rs)), ?w1)"
    by (subst getJobResults_resp[where b = "page ?rs"]) (simp_all add: t)
  have p: "processRows ?rs \<lparr>sessionId = JNull, athleteId = JNull, rowsToWrite = []\<rparr> ?w1 = (Inr ?st, ?w1)"
    by (simp add: processRow_def flushRows_def Let_def get_prop_def session0_row_def
          session1_row_def)
  have g2: "getJobResults ?k ?u ?j 2 500 3 2000 ?w2 = (Inr (Some (page [])), ?w3)"
    by (subst getJobResults_resp[where b = "page []"]) (simp_all add: t)
  have l2: "exportLoop (Suc 0) ?k ?u ?j 2 500 ?st ?w2 = Some (Inr ?st, ?w3)"
    using g2 by (simp add: page_def)
  have l1: "exportLoop (Suc (Suc 0)) ?k ?u ?j 0 500
              \<lparr>sessionId = JNull, athleteId = JNull, rowsToWrite = []\<rparr> ?w0 = Some (Inr ?st, ?w3)"
    using g1 p l2 by (simp add: page_def)
  have s1: "show_nat (Suc 0) = ''1''" by (simp add: show_nat.simps)
  have sf: "slash_free (JNum 1)" by (simp add: slash_free_def s1)
  have n3: "no_faults ?w3" by (simp add: zero_session_world_def)
  have ne: "?rs \<noteq> []" by simp
  have h: "handleDataExport (Suc (Suc 0)) ?k ?u ?j 0 500 ?w0 =
      Some (Inr (), snd (writeCsvFile ?rs (JStr ''A'') (JNum 1) ?w3))"
    using l1 writeCsvFile_ok[OF ne n3 sf, of "JStr ''A''"]
    by (cases "writeCsvFile ?rs (JStr ''A'') (JNum 1) ?w3") (simp add: handleDataExport_def)
  have pd: "parent_dir ''./data/A/session_1.csv'' = ''./data/A''"
    by (simp add: parent_dir_def)
  have tf: "fault ?w0 = (\<lambda>n. False)" "lib_calls ?w0 = 0"
    by (simp_all add: zero_session_world_def init_world_def)
  show ?thesis
    unfolding h
    by (simp add: writeCsvFile_def Let_def appendFileSync_def mkdirSync_def stringify_call_def
          lib_call_def emit_def delay_def folder_chain_def stringify_def s1 t tf pd
          session0_row_def session1_row_def get_prop_def)
qed

text \<open>
  Claim C1 fails on the code. The loop body asks \<^verbatim>\<open>athleteId && ...\<close> and
  \<^verbatim>\<open>sessionId && ...\<close>, so a remembered key that is falsy (0, the empty string, null)
  is never seen to change. Here athlete A has a session 0 and then a session 1: the rows
  of both keys are held together and reach the sink in one call, under the key of
  session 1, so the row of session 0 is written to the file of session 1.
\<close>

theorem falsy_session_key_is_not_flushed:
  "row_key session0_row \<noteq> row_key session1_row
   \<and> handleDataExport (Suc (Suc 0)) (JStr ''key'') (JStr ''https://api'') (JStr ''job-1'') 0 500
        zero_session_world \<noteq> None
   \<and> fst (the (handleDataExport (Suc (Suc 0)) (JStr ''key'') (JStr ''https://api'') (JStr ''job-1'')
                 0 500 zero_session_world)) = Inr ()
   \<and> writes (trace (snd (the (handleDataExport (Suc (Suc 0)) (JStr ''key'') (JStr ''https://api'')
                               (JStr ''job-1'') 0 500 zero_session_world))))
       = [([session0_row, session1_row], JStr ''A'', JNum 1)]
   \<and> files (snd (the (handleDataExport (Suc (Suc 0)) (JStr ''key'') (JStr ''https://api'')
                       (JStr ''job-1'') 0 500 zero_session_world)))
       ''./data/A/session_1.csv''
       = Some [HeaderLine [''athleteid'', ''sessionid'', ''value''],
               DataLine [JStr ''A'', JNum 0, JNum 10],
               DataLine [JStr ''A'', JNum 1, JNum 11]]
   \<and> files (snd (the (handleDataExport (Suc (Suc 0)) (JStr ''key'') (JStr ''https://api'')
                       (JStr ''job-1'') 0 500 zero_session_world)))
       ''./data/A/session_0.csv'' = None"
proof -
  have k: "row_key session0_row \<noteq> row_key session1_row"
    by (simp add: row_key_def get_prop_def session0_row_def session1_row_def)
  have tj: "truthy (JStr ''job-1'')" by simp
  have ne: "[session0_row, session1_row] \<noteq> []" by simp
  have ps: "plain_sessions [session0_row, session1_row]"
    by (simp add: slash_free_def get_prop_def session0_row_def session1_row_def show_nat.simps)
  from export_one_page[OF tj ne ps, of "JStr ''key''" "JStr ''https://api''"] obtain w' where
    "handleDataExport (Suc (Suc 0)) (JStr ''key'') (JStr ''https://api'') (JStr ''job-1'') 0 500
       zero_session_world = Some (Inr (), w')"
    "writes (trace w') = sink_calls [session0_row, session1_row]"
    by (auto simp: zero_session_world_def)
  then show ?thesis using k zero_session_files by (simp add: sink_calls_zero_session)
qed

text \<open>
  Claim C6 fails on the code, by the same tests of truthiness. Two rows of athlete 0 and
  one row of athlete 7, all of session S1, are two runs, and the export makes one sink
  call for the three rows.
\<close>

theorem falsy_athlete_key_merges_runs:
  "runs [athlete0_row, athlete0_row, athlete7_row] = [[athlete0_row, athlete0_row], [athlete7_row]]
   \<and> handleDataExport (Suc (Suc 0)) (JStr ''key'') (JStr ''https://api'') (JStr ''job-1'') 0 500
        zero_athlete_world \<noteq> None
   \<and> fst (the (handleDataExport (Suc (Suc 0)) (JStr ''key'') (JStr ''https://api'') (JStr ''job-1'')
                 0 500 zero_athlete_world)) = Inr ()
   \<and> writes (trace (snd (the (handleDataExport (Suc (Suc 0)) (JStr ''key'') (JStr ''https://api'')
                               (JStr ''job-1'') 0 500 zero_athlete_world))))
       = [([athlete0_row, athlete0_row, athlete7_row], JNum 7, JStr ''S1'')]"
proof -
  have tj: "truthy (JStr ''job-1'')" by simp
  have ne: "[athlete0_row, athlete0_row, athlete7_row] \<noteq> []" by simp
  have ps: "plain_sessions [athlete0_row, athlete0_row, athlete7_row]"
    by (simp add: slash_free_def get_prop_def athlete0_row_def athlete7_row_def)
  from export_one_page[OF tj ne ps, of "JStr ''key''" "JStr ''https://api''"] obtain w' where
    "handleDataExport (Suc (Suc 0)) (JStr ''key'') (JStr ''https://api'') (JStr ''job-1'') 0 500
       zero_athlete_world = Some (Inr (), w')"
    "writes (trace w') = sink_calls [athlete0_row, athlete0_row, athlete7_row]"
    by (auto simp: zero_athlete_world_def)
  then have "handleDataExport (Suc (Suc 0)) (JStr ''key'') (JStr ''https://api'') (JStr ''job-1'') 0 500
        zero_athlete_world \<noteq> None
   \<and> fst (the (handleDataExport (Suc (Suc 0)) (JStr ''key'') (JStr ''https://api'') (JStr ''job-1'')
                 0 500 zero_athlete_world)) = Inr ()
   \<and> writes (trace (snd (the (handleDataExport (Suc (Suc 0)) (JStr ''key'') (JStr ''https://api'')
                               (JStr ''job-1'') 0 500 zero_athlete_world))))
       = [([athlete0_row, athlete0_row, athlete7_row], JNum 7, JStr ''S1'')]"
    by (simp add: sink_calls_zero_athlete)
  with runs_zero_athlete show ?thesis by (rule conjI)
qed

text \<open>
  The scenario of claim C6, whose keys are truthy: three sink calls, one for each run.
\<close>

lemma three_runs_flushes:
  "truthy_keys three_runs
   \<and> sink_calls three_runs =
       [([keyed_row ''A'' ''S1'' 1, keyed_row ''A'' ''S1'' 2, keyed_row ''A'' ''S1'' 3],
         JStr ''A'', JStr ''S1''),
        ([keyed_row ''A'' ''S2'' 4, keyed_row ''A'' ''S2'' 5], JStr ''A'', JStr ''S2''),
        ([keyed_row ''B'' ''S2'' 6], JStr ''B'', JStr ''S2'')]"
  by (simp add: sink_calls_def init_pstate_def Let_def key_changed_def get_prop_def
        three_runs_def keyed_row_def truthy_keys_def)


section \<open>The bound on the loops\<close>

text \<open>
  The bound on the iterations only decides whether a run comes back within it: a run
  that has come back comes back the same with any larger bound.
\<close>

lemma checkJobStatus_mono:
  "checkJobStatus n k u job w = Some x \<Longrightarrow> checkJobStatus (n + m) k u job w = Some x"
proof (induction n arbitrary: w)
  case 0
  then show ?case by simp
next
  case (Suc n)
  obtain r w1 where g: "getJobStatus k u job 3 2000 w = (r, w1)"
    by (cases "getJobStatus k u job 3 2000 w")
  show ?case
  proof (cases r)
    case (Inl e)
    then show ?thesis using Suc.prems g by auto
  next
    case (Inr status)
    show ?thesis
    proof (cases "status = JStr ''RUNNING''")
      case True
      then have "checkJobStatus n k u job (delay 5000 w1) = Some x"
        using Suc.prems g Inr by simp
      from Suc.IH[OF this] show ?thesis using g Inr True by simp
    next
      case False
      then show ?thesis using Suc.prems g Inr by (auto split: if_splits)
    qed
  qed
qed

lemma exportLoop_mono:
  "exportLoop n k u job off lim st w = Some x \<Longrightarrow>
   exportLoop (n + m) k u job off lim st w = Some x"
proof (induction n arbitrary: off st w)
  case 0
  then show ?case by simp
next
  case (Suc n)
  obtain r w1 where g: "getJobResults k u job off lim 3 2000 w = (r, w1)"
    by (cases "getJobResults k u job off lim 3 2000 w")
  show ?case
  proof (cases r)
    case (Inl e)
    then show ?thesis using Suc.prems g by auto
  next
    case (Inr res)
    show ?thesis
    proof (cases res)
      case None
      then show ?thesis using Suc.prems g Inr by simp
    next
      case (Some b)
      show ?thesis
      proof (cases "data_rows b")
        case None
        then show ?thesis using Suc.prems g Inr Some by simp
      next
        case rs: (Some rs)
        show ?thesis
        proof (cases "rs = []")
          case True
          then show ?thesis using Suc.prems g Inr Some rs by simp
        next
          case False
          obtain r2 w2 where p: "processRows rs st w1 = (r2, w2)"
            by (cases "processRows rs st w1")
          show ?thesis
          proof (cases r2)
            case (Inl e)
            then show ?thesis using Suc.prems g Inr Some rs False p by auto
          next
            case st1: (Inr st1)
            then have "exportLoop n k u job (off + int (length rs)) lim st1 (delay 1000 w2) = Some x"
              using Suc.prems g Inr Some rs False p by simp
            from Suc.IH[OF this] show ?thesis using g Inr Some rs False p st1 by simp
          qed
        qed
      qed
    qed
  qed
qed

lemma handleDataExport_mono:
  assumes "handleDataExport n k u job off lim w = Some x"
  shows "handleDataExport (n + m) k u job off lim w = Some x"
proof -
  let ?st0 = "\<lparr>sessionId = JNull, athleteId = JNull, rowsToWrite = []\<rparr>"
  from assms obtain y where l: "exportLoop n k u job off lim ?st0 w = Some y"
    by (cases "exportLoop n k u job off lim ?st0 w") (auto simp: handleDataExport_def)
  from exportLoop_mono[OF l, of m] assms l show ?thesis
    by (simp add: handleDataExport_def)
qed

lemma processCategory_mono:
  assumes "processCategory n k u c w = Some x"
  shows "processCategory (n + m) k u c w = Some x"
proof -
  let ?d = "\<lparr>activity = activity c, movement = movement c, startTime = 1604807785,
             endTime = None, dateMode = ''last_modified''\<rparr>"
  obtain r w1 where c: "createExportJob k u ?d 3 2000 w = (r, w1)"
    by (cases "createExportJob k u ?d 3 2000 w")
  show ?thesis
  proof (cases r)
    case (Inl e)
    then show ?thesis using assms c by (simp add: processCategory_def)
  next
    case (Inr job)
    show ?thesis
    proof (cases "truthy job")
      case False
      then show ?thesis using assms c Inr by (simp add: processCategory_def)
    next
      case True
      from assms c Inr True obtain y w2 where p: "checkJobStatus n k u job w1 = Some (y, w2)"
        by (cases "checkJobStatus n k u job w1") (auto simp: processCategory_def)
      note p' = checkJobStatus_mono[OF p, of m]
      show ?thesis
      proof (cases y)
        case (Inl e)
        then show ?thesis using assms c Inr True p p' by (simp add: processCategory_def)
      next
        case v: (Inr v)
        show ?thesis
        proof (cases "truthy v")
          case False
          then show ?thesis using assms c Inr True p p' v by (simp add: processCategory_def)
        next
          case tv: True
          then have "handleDataExport n k u job 0 500 w2 = Some x"
            using assms c Inr True p v by (simp add: processCategory_def)
          from handleDataExport_mono[OF this, of m] show ?thesis
            using c Inr True p' v tv by (simp add: processCategory_def)
        qed
      qed
    qed
  qed
qed

lemma processCategories_mono:
  "processCategories n k u cs w = Some x \<Longrightarrow> processCategories (n + m) k u cs w = Some x"
proof (induction cs arbitrary: w)
  case Nil
  then show ?case by simp
next
  case (Cons c cs)
  from Cons.prems obtain r w1 where p: "processCategory n k u c w = Some (r, w1)"
    by (cases "processCategory n k u c w") auto
  note p' = processCategory_mono[OF p, of m]
  show ?case
  proof (cases r)
    case (Inl e)
    then show ?thesis using Cons.prems p p' by auto
  next
    case (Inr v)
    then have "processCategories n k u cs w1 = Some x" using Cons.prems p by simp
    from Cons.IH[OF this] show ?thesis using p' Inr by simp
  qed
qed

text \<open>
  A job that the service reports as running at every poll keeps the poller polling: no
  bound suffices.
\<close>

lemma always_running_never_returns:
  "\<forall>i. transport w i = Resp running_body \<Longrightarrow> truthy job \<Longrightarrow>
   checkJobStatus n k u job w = None"
proof (induction n arbitrary: w)
  case 0
  then show ?case by simp
next
  case (Suc n)
  let ?w1 = "w\<lparr>cursor := Suc (cursor w),
               trace := trace w @ [Http (GetJob k u job) (Resp running_body)]\<rparr>"
  have g: "getJobStatus k u job 3 2000 w = (Inr (JStr ''RUNNING''), ?w1)"
    using Suc.prems
    by (subst getJobStatus_resp[where b = running_body]) (simp_all add: running_body_def)
  have "\<forall>i. transport (delay 5000 ?w1) i = Resp running_body" using Suc.prems(1) by simp
  from Suc.IH[OF this Suc.prems(2)] show ?case using g by simp
qed


end
